(* ===== verification/Prelude.thy ===== *)
theory Prelude
  imports Main "HOL-Library.Word"
begin

text \<open>
  Shared vocabulary of the development: the types every component uses, the
  collections the component proofs draw on, and generic facts on lists, sums
  and maps.

  A Go \<^verbatim>\<open>string\<close> and a Go \<^verbatim>\<open>[]byte\<close> are both sequences of bytes; HOL's
  \<open>char\<close> is a byte, so both are \<open>string\<close> here and \<open>of_char\<close> reads
  the byte's value.  A \<^verbatim>\<open>time.Time\<close> and a \<^verbatim>\<open>time.Duration\<close> are integers
  (nanoseconds).  A function that returns \<^verbatim>\<open>(T, error)\<close> returns a sum with
  the error on the left.
\<close>

section \<open>Types\<close>

type_synonym bytes = string
type_synonym instant = int
type_synonym duration = int

section \<open>Collections\<close>

text \<open>
  \<open>ok_iff\<close> collects, for each operation that can fail, what its success
  means; \<open>view_simps\<close> collects what each state-changing operation does to
  the observable part of its component.
\<close>

named_theorems ok_iff \<open>success of a fallible operation, as an equivalence\<close>
named_theorems view_simps \<open>effect of an operation on the abstract view\<close>

section \<open>Results\<close>

definition is_ok :: "'e + 'a \<Rightarrow> bool" where
  "is_ok r \<longleftrightarrow> (case r of Inl _ \<Rightarrow> False | Inr _ \<Rightarrow> True)"

lemma is_ok_simps [simp]:
  "is_ok (Inr x)" "\<not> is_ok (Inl e)"
  by (simp_all add: is_ok_def)

lemma is_ok_iff [ok_iff]: "is_ok r \<longleftrightarrow> (\<exists>x. r = Inr x)"
  by (cases r) (simp_all add: is_ok_def)

lemma case_sum_eq_Inr [ok_iff]:
  "(case r of Inl e \<Rightarrow> Inl (f e) | Inr x \<Rightarrow> g x) = Inr y \<longleftrightarrow> (\<exists>x. r = Inr x \<and> g x = Inr y)"
  by (cases r) simp_all

lemma if_Inl_eq_Inr [ok_iff]:
  "(if b then Inl e else r) = Inr y \<longleftrightarrow> \<not> b \<and> r = Inr y"
  by simp

section \<open>Lists\<close>

lemma drop_pred_less [simp]: "0 < n \<Longrightarrow> length (drop (n - Suc 0) xs) < Suc (length xs)"
  by simp

lemma take_eq_self_append: "take (length p) s = p \<longleftrightarrow> (\<exists>r. s = p @ r)"
  by (metis append_eq_conv_conj append_take_drop_id)

lemma list_all_concat: "list_all P (concat xss) \<longleftrightarrow> list_all (list_all P) xss"
  by (induction xss) auto

lemma length_concat_const:
  "list_all (\<lambda>xs. length xs = n) xss \<Longrightarrow> length (concat xss) = n * length xss"
  by (induction xss) auto

lemma takeWhile_append_stop:
  "list_all P xs \<Longrightarrow> \<not> P y \<Longrightarrow> takeWhile P (xs @ y # ys) = xs"
  by (induction xs) auto

lemma dropWhile_append_stop:
  "list_all P xs \<Longrightarrow> \<not> P y \<Longrightarrow> dropWhile P (xs @ y # ys) = y # ys"
  by (induction xs) auto

text \<open>Two strings framed by a separator that neither first part contains.\<close>

lemma framed_append_eq:
  assumes "c \<notin> set xs" "c \<notin> set xs'"
  shows "xs @ c # ys = xs' @ c # ys' \<longleftrightarrow> xs = xs' \<and> ys = ys'"
proof
  assume eq: "xs @ c # ys = xs' @ c # ys'"
  have "takeWhile (\<lambda>x. x \<noteq> c) (zs @ c # ws) = zs" if "c \<notin> set zs" for zs ws
    using that by (induction zs) auto
  then have "xs = xs'" using eq assms by metis
  with eq show "xs = xs' \<and> ys = ys'" by simp
qed simp

section \<open>Rows of a table\<close>

text \<open>
  A database table is the list of its rows.  \<open>upd_rows p f\<close> is
  \<^verbatim>\<open>UPDATE ... SET f WHERE p\<close>; \<open>affected p\<close> is the command tag's row count.
\<close>

definition upd_rows :: "('r \<Rightarrow> bool) \<Rightarrow> ('r \<Rightarrow> 'r) \<Rightarrow> 'r list \<Rightarrow> 'r list" where
  "upd_rows p f rs = map (\<lambda>r. if p r then f r else r) rs"

definition affected :: "('r \<Rightarrow> bool) \<Rightarrow> 'r list \<Rightarrow> nat" where
  "affected p rs = length (filter p rs)"

lemma length_upd_rows [simp]: "length (upd_rows p f rs) = length rs"
  by (simp add: upd_rows_def)

lemma set_upd_rows: "set (upd_rows p f rs) = (\<lambda>r. if p r then f r else r) ` set rs"
  by (simp add: upd_rows_def)

lemma map_upd_rows:
  "(\<And>r. r \<in> set rs \<Longrightarrow> g (f r) = g r) \<Longrightarrow> map g (upd_rows p f rs) = map g rs"
  by (simp add: upd_rows_def)

lemma upd_rows_id: "(\<And>r. r \<in> set rs \<Longrightarrow> \<not> p r) \<Longrightarrow> upd_rows p f rs = rs"
  unfolding upd_rows_def by (rule map_idI) simp

lemma upd_rows_Nil [simp]: "upd_rows p f [] = []"
  by (simp add: upd_rows_def)

lemma upd_rows_Cons [simp]:
  "upd_rows p f (r # rs) = (if p r then f r else r) # upd_rows p f rs"
  by (simp add: upd_rows_def)

lemma upd_rows_append [simp]: "upd_rows p f (rs @ ss) = upd_rows p f rs @ upd_rows p f ss"
  by (simp add: upd_rows_def)

lemma bex_upd_rows: "(\<exists>r'\<in>set (upd_rows p f rs). Q r') \<longleftrightarrow> (\<exists>r\<in>set rs. Q (if p r then f r else r))"
  unfolding upd_rows_def set_map by blast

lemma find_upd_rows_other:
  assumes "\<And>r. r \<in> set rs \<Longrightarrow> p r \<Longrightarrow> \<not> q r \<and> \<not> q (f r)"
  shows "find q (upd_rows p f rs) = find q rs"
  using assms by (induction rs) auto

lemma find_upd_rows_same:
  assumes "\<And>r. r \<in> set rs \<Longrightarrow> q (f r) \<longleftrightarrow> q r"
  shows "find q (upd_rows p f rs) =
    map_option (\<lambda>r. if p r then f r else r) (find q rs)"
  using assms by (induction rs) auto

lemma find_append:
  "find q (rs @ ss) = (case find q rs of Some r \<Rightarrow> Some r | None \<Rightarrow> find q ss)"
  by (induction rs) auto

lemma find_SomeD: "find q rs = Some r \<Longrightarrow> r \<in> set rs \<and> q r"
  by (induction rs) (auto split: if_splits)

lemma find_None_iff_all: "find q rs = None \<longleftrightarrow> (\<forall>r \<in> set rs. \<not> q r)"
  by (auto simp: find_None_iff)

section \<open>Association lists\<close>

lemma map_of_filter_key:
  "map_of (filter (\<lambda>e. fst e \<noteq> k) l) = (map_of l)(k := None)"
  by (induction l) auto

end
