(* ===== verification/GoStd.thy ===== *)
theory GoStd
  imports Prelude "HOL-Library.Sublist"
begin

text \<open>
  The parts of Go and of its standard library that the gateway's code leans
  on: UTF-8 decoding (\<^verbatim>\<open>for _, r := range s\<close>), \<^verbatim>\<open>strings\<close> (TrimSpace, HasPrefix,
  TrimPrefix, IndexByte, Split, Contains, ReplaceAll), \<^verbatim>\<open>strconv\<close> (Itoa, Atoi),
  \<^verbatim>\<open>encoding/hex\<close> and the integer verbs of \<^verbatim>\<open>fmt.Sprintf\<close> and \<^verbatim>\<open>fmt.Sscanf\<close>.
\<close>

section \<open>UTF-8\<close>

definition RuneError :: nat where "RuneError = 65533"

abbreviation byte_in :: "nat \<Rightarrow> nat \<Rightarrow> char \<Rightarrow> bool" where
  "byte_in lo hi c \<equiv> lo \<le> of_char c \<and> of_char c \<le> hi"

definition cont_bits :: "char \<Rightarrow> nat" where
  "cont_bits c = of_char c - 128"

text \<open>\<^verbatim>\<open>utf8.DecodeRuneInString\<close>: the first rune and its width; width 1 and RuneError on
  malformed input, width 0 on the empty string.\<close>

fun decode2 :: "nat \<Rightarrow> string \<Rightarrow> nat \<times> nat" where
  "decode2 b0 (c1 # _) =
    (if byte_in 128 191 c1 then ((b0 - 192) * 64 + cont_bits c1, 2) else (RuneError, 1))"
| "decode2 b0 _ = (RuneError, 1)"

fun decode3 :: "nat \<Rightarrow> string \<Rightarrow> nat \<times> nat" where
  "decode3 b0 (c1 # c2 # _) =
    (if byte_in (if b0 = 224 then 160 else 128) (if b0 = 237 then 159 else 191) c1
        \<and> byte_in 128 191 c2
     then ((b0 - 224) * 4096 + cont_bits c1 * 64 + cont_bits c2, 3) else (RuneError, 1))"
| "decode3 b0 _ = (RuneError, 1)"

fun decode4 :: "nat \<Rightarrow> string \<Rightarrow> nat \<times> nat" where
  "decode4 b0 (c1 # c2 # c3 # _) =
    (if byte_in (if b0 = 240 then 144 else 128) (if b0 = 244 then 143 else 191) c1
        \<and> byte_in 128 191 c2 \<and> byte_in 128 191 c3
     then ((b0 - 240) * 262144 + cont_bits c1 * 4096 + cont_bits c2 * 64 + cont_bits c3, 4)
     else (RuneError, 1))"
| "decode4 b0 _ = (RuneError, 1)"

fun decode_rune :: "string \<Rightarrow> nat \<times> nat" where
  "decode_rune [] = (RuneError, 0)"
| "decode_rune (c0 # cs) =
    (if of_char c0 < (128::nat) then (of_char c0, 1)
     else if of_char c0 < (194::nat) then (RuneError, 1)
     else if of_char c0 < (224::nat) then decode2 (of_char c0) cs
     else if of_char c0 < (240::nat) then decode3 (of_char c0) cs
     else if of_char c0 < (245::nat) then decode4 (of_char c0) cs
     else (RuneError, 1))"

declare decode_rune.simps(2) [simp del]

lemma decode_rune_ascii [simp]:
  "of_char c0 < (128::nat) \<Longrightarrow> decode_rune (c0 # cs) = (of_char c0, 1)"
  by (simp add: decode_rune.simps)

lemma decode_multi_width:
  "0 < snd (decode2 b cs)" "0 < snd (decode3 b cs)" "0 < snd (decode4 b cs)"
proof -
  show "0 < snd (decode2 b cs)" by (induction b cs rule: decode2.induct) simp_all
  show "0 < snd (decode3 b cs)" by (induction b cs rule: decode3.induct) simp_all
  show "0 < snd (decode4 b cs)" by (induction b cs rule: decode4.induct) simp_all
qed

lemma decode_multi_ge:
  "194 \<le> b \<Longrightarrow> 128 \<le> fst (decode2 b cs)"
  "224 \<le> b \<Longrightarrow> 128 \<le> fst (decode3 b cs)"
  "240 \<le> b \<Longrightarrow> 128 \<le> fst (decode4 b cs)"
proof -
  show "128 \<le> fst (decode2 b cs)" if "194 \<le> b"
    using that
  proof (induction b cs rule: decode2.induct)
    case (1 b0 c1 uu)
    then have "2 * 64 \<le> (b0 - 192) * 64" by (intro mult_le_mono1) simp
    then show ?case by (simp add: RuneError_def)
  qed (simp_all add: RuneError_def)
  show "128 \<le> fst (decode3 b cs)" if "224 \<le> b"
    using that
    by (induction b cs rule: decode3.induct) (auto simp: RuneError_def cont_bits_def)
  show "128 \<le> fst (decode4 b cs)" if "240 \<le> b"
    using that
    by (induction b cs rule: decode4.induct) (auto simp: RuneError_def cont_bits_def)
qed

lemma decode_rune_width: "0 < snd (decode_rune (c0 # cs))"
  by (simp add: decode_rune.simps decode_multi_width)

lemma decode_rune_fst_ge:
  assumes "\<not> of_char c0 < (128::nat)"
  shows "128 \<le> fst (decode_rune (c0 # cs))"
  using assms decode_multi_ge[of "of_char c0" cs]
  by (simp add: decode_rune.simps RuneError_def)

text \<open>The runes of a string, as \<^verbatim>\<open>for _, r := range s\<close> visits them.\<close>

function runes :: "string \<Rightarrow> nat list" where
  "runes [] = []"
| "runes (c # cs) = fst (decode_rune (c # cs)) # runes (drop (snd (decode_rune (c # cs)) - 1) cs)"
  by pat_completeness auto
termination
  by (relation "measure length") (auto simp: less_Suc_eq_le)

lemma runes_ascii_iff:
  assumes ascii: "\<And>r. P r \<Longrightarrow> r < 128"
  shows "list_all P (runes s) \<longleftrightarrow> list_all (\<lambda>c. P (of_char c)) s"
proof (induction s rule: runes.induct)
  case 1
  then show ?case by simp
next
  case (2 c cs)
  show ?case
  proof (cases "of_char c < (128::nat)")
    case True
    with 2 show ?thesis by simp
  next
    case False
    then have "\<not> P (fst (decode_rune (c # cs)))" "\<not> P (of_char c)"
      using decode_rune_fst_ge[OF False, of cs] ascii by fastforce+
    then show ?thesis by simp
  qed
qed

definition rune_start :: "char \<Rightarrow> bool" where
  "rune_start c \<longleftrightarrow> \<not> byte_in 128 191 c"

text \<open>\<^verbatim>\<open>utf8.DecodeLastRuneInString\<close>: looks back at most four bytes for the start of the last rune.\<close>

definition decode_last_rune :: "string \<Rightarrow> nat \<times> nat" where
  "decode_last_rune s =
    (if s = [] then (RuneError, 0)
     else if of_char (last s) < (128::nat) then (of_char (last s), 1)
     else
       let n = length s; lim = n - 4;
           start = (case find (\<lambda>i. rune_start (s ! i)) (rev [lim..<n - 1]) of
                      Some i \<Rightarrow> i | None \<Rightarrow> lim - 1);
           (r, size) = decode_rune (drop start s)
       in if start + size = n then (r, size) else (RuneError, 1))"

lemma decode_last_rune_ascii [simp]:
  "s \<noteq> [] \<Longrightarrow> of_char (last s) < (128::nat) \<Longrightarrow> decode_last_rune s = (of_char (last s), 1)"
  by (simp add: decode_last_rune_def)

lemma decode_last_rune_width:
  assumes "s \<noteq> []"
  shows "0 < snd (decode_last_rune s)"
proof -
  have "0 < snd (decode_rune (drop i s))" if "i < length s" for i
    using decode_rune_width that by (cases "drop i s") auto
  moreover have "(case find (\<lambda>i. rune_start (s ! i)) (rev [length s - 4..<length s - 1]) of
      Some i \<Rightarrow> i | None \<Rightarrow> length s - 4 - 1) < length s"
    using assms by (auto split: option.splits dest!: find_SomeD)
  ultimately show ?thesis
    using assms by (simp add: decode_last_rune_def Let_def case_prod_beta)
qed

section \<open>Package strings\<close>

text \<open>\<^verbatim>\<open>unicode.IsSpace\<close>; \<^verbatim>\<open>fmt\<close>'s own space table is the same set.\<close>

definition is_space :: "nat \<Rightarrow> bool" where
  "is_space r \<longleftrightarrow> (9 \<le> r \<and> r \<le> 13) \<or> r = 32 \<or> r = 133 \<or> r = 160 \<or> r = 5760
     \<or> (8192 \<le> r \<and> r \<le> 8202) \<or> r = 8232 \<or> r = 8233 \<or> r = 8239 \<or> r = 8287 \<or> r = 12288"

function trim_left :: "string \<Rightarrow> string" where
  "trim_left s =
    (case s of [] \<Rightarrow> []
     | c # cs \<Rightarrow> if is_space (fst (decode_rune s)) then trim_left (drop (snd (decode_rune s) - 1) cs) else s)"
  by pat_completeness auto
termination
  by (relation "measure length") (auto simp: less_Suc_eq_le)

declare trim_left.simps [simp del]

function trim_right :: "string \<Rightarrow> string" where
  "trim_right s =
    (if s \<noteq> [] \<and> is_space (fst (decode_last_rune s))
     then trim_right (take (length s - snd (decode_last_rune s)) s) else s)"
  by pat_completeness auto
termination
  by (relation "measure length") (auto simp: decode_last_rune_width)

declare trim_right.simps [simp del]

definition trim_space :: "string \<Rightarrow> string" where
  "trim_space s = trim_right (trim_left s)"

text \<open>A byte that is a rune of its own and not white space.\<close>

definition graphic :: "char \<Rightarrow> bool" where
  "graphic c \<longleftrightarrow> of_char c < (128::nat) \<and> \<not> is_space (of_char c)"

lemma trim_left_graphic [simp]: "graphic c \<Longrightarrow> trim_left (c # cs) = c # cs"
  by (subst trim_left.simps) (simp add: graphic_def)

lemma trim_right_graphic [simp]: "s \<noteq> [] \<Longrightarrow> graphic (last s) \<Longrightarrow> trim_right s = s"
  by (subst trim_right.simps) (simp add: graphic_def)

lemma trim_left_space [simp]: "trim_left (CHR '' '' # cs) = trim_left cs"
  by (subst trim_left.simps) (simp add: is_space_def)

lemma trim_right_space [simp]: "trim_right (s @ '' '') = trim_right s"
  by (subst trim_right.simps) (simp add: is_space_def)

lemma trim_space_graphic:
  "s \<noteq> [] \<Longrightarrow> graphic (hd s) \<Longrightarrow> graphic (last s) \<Longrightarrow> trim_space s = s"
  by (cases s) (simp_all add: trim_space_def)

lemma trim_space_padded:
  assumes "s \<noteq> []" "graphic (hd s)" "graphic (last s)"
  shows "trim_space (CHR '' '' # s @ '' '') = s"
proof -
  from assms obtain a l where s: "s = a # l" by (cases s) auto
  with assms have "trim_left (CHR '' '' # s @ '' '') = s @ '' ''" by simp
  moreover have "trim_right s = s" using assms by (intro trim_right_graphic)
  ultimately show ?thesis by (simp only: trim_space_def trim_right_space)
qed

lemma trim_space_Nil [simp]: "trim_space [] = []"
  by (simp add: trim_space_def trim_left.simps trim_right.simps)

definition has_prefix :: "string \<Rightarrow> string \<Rightarrow> bool" where
  "has_prefix s p \<longleftrightarrow> take (length p) s = p"

definition trim_prefix :: "string \<Rightarrow> string \<Rightarrow> string" where
  "trim_prefix s p = (if has_prefix s p then drop (length p) s else s)"

lemma has_prefix_iff: "has_prefix s p \<longleftrightarrow> (\<exists>r. s = p @ r)"
  by (simp add: has_prefix_def take_eq_self_append)

text \<open>\<^verbatim>\<open>strings.IndexByte\<close>: -1 when the byte does not occur.\<close>

definition index_byte :: "string \<Rightarrow> char \<Rightarrow> int" where
  "index_byte s c = (if c \<in> set s then int (length (takeWhile (\<lambda>x. x \<noteq> c) s)) else -1)"

lemma index_byte_ge: "0 \<le> index_byte s c \<Longrightarrow> c \<in> set s"
  by (auto simp: index_byte_def split: if_splits)

lemma index_byte_split:
  assumes "0 \<le> index_byte s c"
  shows "s = take (nat (index_byte s c)) s @ c # drop (Suc (nat (index_byte s c))) s"
    and "c \<notin> set (take (nat (index_byte s c)) s)"
proof -
  from assms obtain ys zs where s: "s = ys @ c # zs" "c \<notin> set ys"
    by (metis index_byte_ge split_list_first)
  then have "takeWhile (\<lambda>x. x \<noteq> c) s = ys"
    by (metis (mono_tags, lifting) takeWhile_append_stop list.pred_set)
  with s show "s = take (nat (index_byte s c)) s @ c # drop (Suc (nat (index_byte s c))) s"
    and "c \<notin> set (take (nat (index_byte s c)) s)"
    by (simp_all add: index_byte_def)
qed

lemma index_byte_append:
  "c \<notin> set xs \<Longrightarrow> index_byte (xs @ c # ys) c = int (length xs)"
  by (subst index_byte_def, subst takeWhile_append_stop) (auto simp: list.pred_set)

text \<open>\<^verbatim>\<open>strings.Split\<close> on a one-byte separator: always at least one part.\<close>

fun split_byte :: "char \<Rightarrow> string \<Rightarrow> string list" where
  "split_byte c [] = [[]]"
| "split_byte c (x # xs) =
    (if x = c then [] # split_byte c xs
     else (case split_byte c xs of p # ps \<Rightarrow> (x # p) # ps | [] \<Rightarrow> [[x]]))"

lemma split_byte_no_sep: "c \<notin> set xs \<Longrightarrow> split_byte c xs = [xs]"
  by (induction xs) auto

lemma split_byte_append:
  "c \<notin> set xs \<Longrightarrow> split_byte c (xs @ c # ys) = xs # split_byte c ys"
  by (induction xs) auto

definition contains :: "string \<Rightarrow> string \<Rightarrow> bool" where
  "contains s sub \<longleftrightarrow> sublist sub s"

text \<open>\<^verbatim>\<open>strings.ReplaceAll\<close> for a non-empty \<open>old\<close>: non-overlapping occurrences, left to right.\<close>

function replace_all :: "string \<Rightarrow> string \<Rightarrow> string \<Rightarrow> string" where
  "replace_all [] old new = []"
| "replace_all (c # cs) old new =
    (if old \<noteq> [] \<and> has_prefix (c # cs) old
     then new @ replace_all (drop (length old - 1) cs) old new
     else c # replace_all cs old new)"
  by pat_completeness auto
termination
  by (relation "measure (\<lambda>(s, _, _). length s)") (auto simp: less_Suc_eq_le)

section \<open>Decimal numbers\<close>

definition digit_char :: "nat \<Rightarrow> char" where
  "digit_char d = char_of (48 + d)"

definition is_digit :: "char \<Rightarrow> bool" where
  "is_digit c \<longleftrightarrow> byte_in 48 57 c"

fun show_nat :: "nat \<Rightarrow> string" where
  "show_nat n = (if n < 10 then [digit_char n] else show_nat (n div 10) @ [digit_char (n mod 10)])"

declare show_nat.simps [simp del]

definition read_nat :: "string \<Rightarrow> nat" where
  "read_nat s = foldl (\<lambda>n c. 10 * n + (of_char c - 48)) 0 s"

text \<open>\<^verbatim>\<open>strconv.Itoa\<close>, and the verb \<^verbatim>\<open>%d\<close> of \<^verbatim>\<open>fmt\<close>.\<close>

definition Itoa :: "int \<Rightarrow> string" where
  "Itoa i = (if i < 0 then CHR ''-'' # show_nat (nat (- i)) else show_nat (nat i))"

definition all_digits :: "string \<Rightarrow> bool" where
  "all_digits s \<longleftrightarrow> s \<noteq> [] \<and> list_all is_digit s"

text \<open>\<^verbatim>\<open>strconv.ParseInt(s, 10, bits)\<close>: an optional sign, one or more digits, in range.\<close>

definition parse_int :: "nat \<Rightarrow> string \<Rightarrow> int option" where
  "parse_int bits s =
    (let neg = has_prefix s ''-'';
         ds = (if has_prefix s ''-'' \<or> has_prefix s ''+'' then tl s else s);
         v = (if neg then - int (read_nat ds) else int (read_nat ds))
     in if all_digits ds \<and> - (2 ^ (bits - 1)) \<le> v \<and> v < 2 ^ (bits - 1) then Some v else None)"

definition Atoi :: "string \<Rightarrow> int option" where
  "Atoi s = parse_int 64 s"

lemma of_digit_char [simp]: "d < 10 \<Longrightarrow> of_char (digit_char d) = (48 + d :: nat)"
  by (simp add: digit_char_def)

lemma is_digit_digit_char [simp]: "d < 10 \<Longrightarrow> is_digit (digit_char d)"
  by (simp add: is_digit_def)

lemma show_nat_digits: "list_all is_digit (show_nat n)"
proof (induction n rule: show_nat.induct)
  case (1 n)
  then show ?case by (subst show_nat.simps) simp
qed

lemma show_nat_nonempty [simp]: "show_nat n \<noteq> []"
  by (subst show_nat.simps) simp

lemma all_digits_show_nat [simp]: "all_digits (show_nat n)"
  by (simp add: all_digits_def show_nat_digits)

lemma read_nat_snoc: "read_nat (s @ [c]) = 10 * read_nat s + (of_char c - 48)"
  by (simp add: read_nat_def)

lemma read_show_nat [simp]: "read_nat (show_nat n) = n"
proof (induction n rule: show_nat.induct)
  case (1 n)
  show ?case
  proof (cases "n < 10")
    case True
    then show ?thesis by (subst show_nat.simps) (simp add: read_nat_def)
  next
    case False
    with 1 show ?thesis by (subst show_nat.simps) (simp add: read_nat_snoc)
  qed
qed

lemma digits_no_sign:
  assumes "list_all is_digit s" "s \<noteq> []"
  shows "\<not> has_prefix s ''-''" "\<not> has_prefix s ''+''"
proof -
  from assms obtain d ds where "s = d # ds" "is_digit d" by (cases s) auto
  then show "\<not> has_prefix s ''-''" "\<not> has_prefix s ''+''"
    by (auto simp: has_prefix_def is_digit_def)
qed

lemma Atoi_Itoa:
  assumes "- (2 ^ 63) \<le> i" "i < 2 ^ 63"
  shows "Atoi (Itoa i) = Some i"
proof (cases "i < 0")
  case True
  with assms show ?thesis
    by (simp add: Atoi_def parse_int_def Itoa_def has_prefix_def Let_def)
next
  case False
  with assms digits_no_sign[OF show_nat_digits show_nat_nonempty] show ?thesis
    by (simp add: Atoi_def parse_int_def Itoa_def Let_def)
qed

section \<open>Formatted scanning\<close>

text \<open>
  \<^verbatim>\<open>fmt.Sscanf\<close> over a format of literals and \<^verbatim>\<open>%d\<close>: each step consumes a part of the
  input and returns the rest; input left over at the end is ignored.  White
  space before a number is skipped, a newline is an error.
\<close>

function skip_space :: "string \<Rightarrow> string option" where
  "skip_space [] = Some []"
| "skip_space (c # cs) =
    (if c = CHR 0x0D \<and> has_prefix cs [CHR 0x0A] then None
     else if c = CHR 0x0A then None
     else if is_space (fst (decode_rune (c # cs)))
       then skip_space (drop (snd (decode_rune (c # cs)) - 1) cs)
     else Some (c # cs))"
  by pat_completeness auto
termination
  by (relation "measure length") (auto simp: less_Suc_eq_le)

declare skip_space.simps(2) [simp del]

definition scan_lit :: "string \<Rightarrow> string \<Rightarrow> string option" where
  "scan_lit lit s = (if has_prefix s lit then Some (drop (length lit) s) else None)"

definition scan_uint :: "nat \<Rightarrow> string \<Rightarrow> (nat \<times> string) option" where
  "scan_uint bits s =
    (case skip_space s of None \<Rightarrow> None
     | Some t \<Rightarrow>
        let ds = takeWhile is_digit t; n = read_nat ds
        in if ds \<noteq> [] \<and> n < 2 ^ bits then Some (n, dropWhile is_digit t) else None)"

definition scan_int :: "nat \<Rightarrow> string \<Rightarrow> (int \<times> string) option" where
  "scan_int bits s =
    (case skip_space s of None \<Rightarrow> None
     | Some t \<Rightarrow>
        let sg = takeWhile (\<lambda>c. c = CHR ''+'' \<or> c = CHR ''-'') (take 1 t);
            u = drop (length sg) t; ds = takeWhile is_digit u
        in case parse_int bits (sg @ ds) of
             Some v \<Rightarrow> if ds \<noteq> [] then Some (v, dropWhile is_digit u) else None
           | None \<Rightarrow> None)"

lemma skip_space_digit [simp]:
  assumes "is_digit c"
  shows "skip_space (c # cs) = Some (c # cs)"
proof -
  from assms have "of_char c < (128::nat)" "\<not> is_space (of_char c)"
    by (auto simp: is_digit_def is_space_def)
  moreover from assms have "c \<noteq> CHR 0x0D" "c \<noteq> CHR 0x0A"
    by (auto simp: is_digit_def)
  ultimately show ?thesis by (simp add: skip_space.simps)
qed

lemma show_nat_Cons: "\<exists>d ds. show_nat n = d # ds \<and> is_digit d \<and> list_all is_digit ds"
  using show_nat_digits[of n] by (cases "show_nat n") auto

text \<open>A rest that does not go on with a digit.\<close>

definition ends_number :: "string \<Rightarrow> bool" where
  "ends_number s \<longleftrightarrow> s = [] \<or> \<not> is_digit (hd s)"

lemma span_show_nat:
  assumes "ends_number r"
  shows "takeWhile is_digit (show_nat n @ r) = show_nat n"
    and "dropWhile is_digit (show_nat n @ r) = r"
proof -
  have "\<And>xs. list_all is_digit xs \<Longrightarrow>
      takeWhile is_digit (xs @ r) = xs \<and> dropWhile is_digit (xs @ r) = r"
    using assms by (cases r) (auto simp: ends_number_def takeWhile_append_stop
        dropWhile_append_stop list.pred_set intro: takeWhile_eq_all_conv[THEN iffD2])
  from this[OF show_nat_digits]
  show "takeWhile is_digit (show_nat n @ r) = show_nat n"
    and "dropWhile is_digit (show_nat n @ r) = r" by blast+
qed

lemma skip_space_show_nat [simp]: "skip_space (show_nat n @ r) = Some (show_nat n @ r)"
proof -
  obtain d ds where "show_nat n = d # ds" "is_digit d"
    using show_nat_Cons by blast
  then show ?thesis by simp
qed

lemma scan_uint_show_nat:
  "n < 2 ^ bits \<Longrightarrow> ends_number r \<Longrightarrow> scan_uint bits (show_nat n @ r) = Some (n, r)"
  by (simp add: scan_uint_def span_show_nat)

lemma scan_int_show_nat:
  assumes "n < 2 ^ (bits - 1)" "ends_number r"
  shows "scan_int bits (show_nat n @ r) = Some (int n, r)"
proof -
  obtain d ds where d: "show_nat n = d # ds" "is_digit d"
    using show_nat_Cons by blast
  then have "d \<noteq> CHR ''+''" "d \<noteq> CHR ''-''" by (auto simp: is_digit_def)
  then have sg: "takeWhile (\<lambda>c. c = CHR ''+'' \<or> c = CHR ''-'') (take 1 (show_nat n @ r)) = []"
    using d by simp
  have "parse_int bits (show_nat n) = Some (int n)"
    using digits_no_sign[OF show_nat_digits[of n]] assms
    by (simp add: parse_int_def Let_def order_trans[of _ 0])
  with assms(2) sg show ?thesis
    by (simp add: scan_int_def span_show_nat)
qed

lemma scan_lit_append [simp]: "scan_lit lit (lit @ r) = Some r"
  by (simp add: scan_lit_def has_prefix_def)

section \<open>Hexadecimal\<close>

definition hex_digit :: "nat \<Rightarrow> char" where
  "hex_digit d = char_of (if d < 10 then 48 + d else 87 + d)"

definition hex_byte :: "char \<Rightarrow> string" where
  "hex_byte c = [hex_digit (of_char c div 16), hex_digit (of_char c mod 16)]"

text \<open>\<^verbatim>\<open>hex.EncodeToString\<close>.\<close>

definition hex_encode :: "bytes \<Rightarrow> string" where
  "hex_encode bs = concat (map hex_byte bs)"

lemma of_hex_digit: "d < 16 \<Longrightarrow> of_char (hex_digit d) = (if d < 10 then 48 + d else 87 + d :: nat)"
  by (simp add: hex_digit_def)

lemma hex_digit_inj:
  assumes "i < 16" "j < 16"
  shows "hex_digit i = hex_digit j \<longleftrightarrow> i = j"
proof
  assume "hex_digit i = hex_digit j"
  then have "of_char (hex_digit i) = (of_char (hex_digit j) :: nat)" by simp
  then show "i = j" using assms by (simp add: of_hex_digit split: if_splits)
qed simp

lemma hex_encode_inj: "hex_encode a = hex_encode b \<longleftrightarrow> a = b"
proof (induction a b rule: list_induct2')
  case (4 x xs y ys)
  have "hex_byte x = hex_byte y \<longleftrightarrow> x = y"
  proof
    assume "hex_byte x = hex_byte y"
    then have "of_char x div 16 = (of_char y div 16 :: nat)" "of_char x mod 16 = (of_char y mod 16 :: nat)"
      by (auto simp: hex_byte_def hex_digit_inj div_less_iff_less_mult)
    then have "of_char x = (of_char y :: nat)" by (metis div_mult_mod_eq)
    then show "x = y" by simp
  qed simp
  then show ?case using 4 by (auto simp: hex_encode_def hex_byte_def)
qed (simp_all add: hex_encode_def hex_byte_def)

section \<open>Quoted strings\<close>

text \<open>The verb \<^verbatim>\<open>%q\<close>: a Go string literal.  Runes beyond ASCII are all printed as they are
  (Go escapes the few that are not printable); a malformed byte is escaped.\<close>

definition quote_ascii :: "char \<Rightarrow> string" where
  "quote_ascii c =
    (if c = CHR 0x22 \<or> c = CHR 0x5C then [CHR 0x5C, c]
     else if (32::nat) \<le> of_char c \<and> of_char c < (127::nat) then [c]
     else if c = CHR 0x07 then [CHR 0x5C, CHR ''a'']
     else if c = CHR 0x08 then [CHR 0x5C, CHR ''b'']
     else if c = CHR 0x0C then [CHR 0x5C, CHR ''f'']
     else if c = CHR 0x0A then [CHR 0x5C, CHR ''n'']
     else if c = CHR 0x0D then [CHR 0x5C, CHR ''r'']
     else if c = CHR 0x09 then [CHR 0x5C, CHR ''t'']
     else if c = CHR 0x0B then [CHR 0x5C, CHR ''v'']
     else [CHR 0x5C, CHR ''x''] @ hex_byte c)"

function quote_chars :: "string \<Rightarrow> string" where
  "quote_chars [] = []"
| "quote_chars (c # cs) =
    (if of_char c < (128::nat) then quote_ascii c @ quote_chars cs
     else let (r, n) = decode_rune (c # cs); rest = drop (n - 1) cs in
       (if r = RuneError \<and> n = 1 then [CHR 0x5C, CHR ''x''] @ hex_byte c else take n (c # cs)) @ quote_chars rest)"
  by pat_completeness auto
termination
  by (relation "measure length") (auto simp: less_Suc_eq_le)

definition go_quote :: "string \<Rightarrow> string" where
  "go_quote s = [CHR 0x22] @ quote_chars s @ [CHR 0x22]"

text \<open>A name without special characters is only put in quotes.\<close>

lemma go_quote_plain:
  assumes "\<forall>c\<in>set s. (32::nat) \<le> of_char c \<and> of_char c < (127::nat) \<and> c \<noteq> CHR 0x22 \<and> c \<noteq> CHR 0x5C"
  shows "go_quote s = [CHR 0x22] @ s @ [CHR 0x22]"
proof -
  have "quote_chars s = s" using assms by (induction s) (auto simp: quote_ascii_def)
  then show ?thesis by (simp add: go_quote_def)
qed

end
