(* ===== verification/GoErrors.thy ===== *)
theory GoErrors
  imports GoStd
begin

text \<open>
  Go error values.  An error is a package-level sentinel, one of the typed
  errors the gateway inspects with \<^verbatim>\<open>errors.As\<close>, an error wrapped by
  \<^verbatim>\<open>fmt.Errorf\<close> with one \<^verbatim>\<open>%w\<close>, or an opaque error that is only ever printed.
\<close>

section \<open>Error values\<close>

text \<open>\<^verbatim>\<open>*pgconn.PgError\<close>, the fields the gateway reads.\<close>

record pg_error =
  Code :: string
  Message :: string

datatype sentinel =
    ErrInvalidKey
  | ErrKeyNotFound
  | ErrResponseTooLarge
  | ErrIdempotencyConflict
  | ErrUnknownProcedure
  | ErrRoleNotPermitted
  | ErrNoRows

datatype go_error =
    Sentinel sentinel
  | ValidationError string string  \<comment> \<open>Code, Message (validator.go)\<close>
  | PgErr pg_error
  | SqlErr pg_error                \<comment> \<open>\<open>sql.Error\<close>; its Pg is always set, by \<open>classifyPgErr\<close>\<close>
  | Errorf string go_error string  \<comment> \<open>text before \<open>%w\<close>, the wrapped error, text after\<close>
  | Opaque string

type_synonym 'a result = "go_error + 'a"

fun sentinel_text :: "sentinel \<Rightarrow> string" where
  "sentinel_text ErrInvalidKey = ''invalid api key''"
| "sentinel_text ErrKeyNotFound = ''api key not found''"
| "sentinel_text ErrResponseTooLarge = ''response exceeds maximum allowed size''"
| "sentinel_text ErrIdempotencyConflict = ''idempotency_key reused with different request body''"
| "sentinel_text ErrUnknownProcedure = ''unknown procedure''"
| "sentinel_text ErrRoleNotPermitted = ''calling key cannot run this RPC''"
| "sentinel_text ErrNoRows = ''no rows in result set''"

text \<open>The \<^verbatim>\<open>Error()\<close> methods.  \<^verbatim>\<open>pgconn.PgError.Error\<close> belongs to the driver: its
  documented form is \<^verbatim>\<open>SEVERITY: message (SQLSTATE code)\<close>; only the parts the
  gateway has are kept.\<close>

fun error_text :: "go_error \<Rightarrow> string" where
  "error_text (Sentinel s) = sentinel_text s"
| "error_text (ValidationError c m) = c @ '': '' @ m"
| "error_text (PgErr pg) = Message pg @ '' (SQLSTATE '' @ Code pg @ '')''"
| "error_text (SqlErr pg) = Code pg @ '': '' @ Message pg"
| "error_text (Errorf pre e post) = pre @ error_text e @ post"
| "error_text (Opaque s) = s"

section \<open>Unwrapping\<close>

text \<open>The chain \<^verbatim>\<open>errors.Is\<close> and \<^verbatim>\<open>errors.As\<close> walk: the error, then what \<^verbatim>\<open>Unwrap\<close> gives.\<close>

fun chain :: "go_error \<Rightarrow> go_error list" where
  "chain (Errorf pre e post) = Errorf pre e post # chain e"
| "chain (SqlErr pg) = [SqlErr pg, PgErr pg]"
| "chain e = [e]"

definition errors_is :: "go_error \<Rightarrow> sentinel \<Rightarrow> bool" where
  "errors_is e s \<longleftrightarrow> Sentinel s \<in> set (chain e)"

fun as_validation :: "go_error list \<Rightarrow> (string \<times> string) option" where
  "as_validation [] = None"
| "as_validation (ValidationError c m # es) = Some (c, m)"
| "as_validation (e # es) = as_validation es"

fun as_sql :: "go_error list \<Rightarrow> pg_error option" where
  "as_sql [] = None"
| "as_sql (SqlErr pg # es) = Some pg"
| "as_sql (e # es) = as_sql es"

fun as_pg :: "go_error list \<Rightarrow> pg_error option" where
  "as_pg [] = None"
| "as_pg (PgErr pg # es) = Some pg"
| "as_pg (e # es) = as_pg es"

text \<open>Wrapping with \<^verbatim>\<open>%w\<close> is transparent to every inspection.\<close>

lemma errors_is_Errorf [simp]: "errors_is (Errorf a e b) s = errors_is e s"
  by (simp add: errors_is_def)

lemma errors_is_base [simp]:
  "errors_is (Sentinel t) s \<longleftrightarrow> t = s"
  "\<not> errors_is (ValidationError c m) s"
  "\<not> errors_is (PgErr pg) s"
  "\<not> errors_is (SqlErr pg) s"
  "\<not> errors_is (Opaque x) s"
  by (auto simp: errors_is_def)

lemma as_Errorf [simp]:
  "as_validation (chain (Errorf a e b)) = as_validation (chain e)"
  "as_sql (chain (Errorf a e b)) = as_sql (chain e)"
  "as_pg (chain (Errorf a e b)) = as_pg (chain e)"
  by simp_all

text \<open>The innermost error decides; every error wraps exactly one.\<close>

fun root_error :: "go_error \<Rightarrow> go_error" where
  "root_error (Errorf a e b) = root_error e"
| "root_error e = e"

lemma inspect_root:
  "errors_is e s = errors_is (root_error e) s"
  "as_validation (chain e) = as_validation (chain (root_error e))"
  "as_sql (chain e) = as_sql (chain (root_error e))"
  "as_pg (chain e) = as_pg (chain (root_error e))"
  by (induction e) (simp_all add: errors_is_def)

section \<open>Postgres errors of the executor\<close>

text \<open>\<open>classifyPgErr\<close> (executor.go): a driver error anywhere in the chain becomes an \<open>sql.Error\<close>.\<close>

definition classifyPgErr :: "go_error \<Rightarrow> go_error" where
  "classifyPgErr e = (case as_pg (chain e) of Some pg \<Rightarrow> SqlErr pg | None \<Rightarrow> e)"

end
