(* ===== verification/Base64.thy ===== *)
theory Base64
  imports GoStd
begin

text \<open>
  Go's \<^verbatim>\<open>encoding/base64\<close> without padding: \<^verbatim>\<open>RawURLEncoding\<close> (key ids and
  secrets) and \<^verbatim>\<open>RawStdEncoding\<close> (the salt and the digest of a PHC string).
  The decoder is the library's lenient one: it skips CR and LF and does not
  check that the unused bits of a short last quantum are zero.
\<close>

section \<open>Encoder and decoder over an alphabet\<close>

abbreviation byte_val :: "char \<Rightarrow> nat" where "byte_val \<equiv> of_char"

fun b64_encode :: "string \<Rightarrow> bytes \<Rightarrow> string" where
  "b64_encode al [] = []"
| "b64_encode al [a] = [al ! (byte_val a div 4), al ! (byte_val a mod 4 * 16)]"
| "b64_encode al [a, b] =
    [al ! (byte_val a div 4), al ! (byte_val a mod 4 * 16 + byte_val b div 16),
     al ! (byte_val b mod 16 * 4)]"
| "b64_encode al (a # b # c # r) =
    [al ! (byte_val a div 4), al ! (byte_val a mod 4 * 16 + byte_val b div 16),
     al ! (byte_val b mod 16 * 4 + byte_val c div 64), al ! (byte_val c mod 64)] @ b64_encode al r"

definition al_index :: "string \<Rightarrow> char \<Rightarrow> nat option" where
  "al_index al c = (if c \<in> set al then Some (length (takeWhile (\<lambda>x. x \<noteq> c) al)) else None)"

fun b64_quanta :: "nat list \<Rightarrow> bytes option" where
  "b64_quanta [] = Some []"
| "b64_quanta [x] = None"
| "b64_quanta [x, y] = Some [char_of (x * 4 + y div 16)]"
| "b64_quanta [x, y, z] = Some [char_of (x * 4 + y div 16), char_of (y mod 16 * 16 + z div 4)]"
| "b64_quanta (x # y # z # w # r) =
    map_option (\<lambda>bs. [char_of (x * 4 + y div 16), char_of (y mod 16 * 16 + z div 4),
                      char_of (z mod 4 * 64 + w)] @ bs) (b64_quanta r)"

definition not_newline :: "char \<Rightarrow> bool" where
  "not_newline c \<longleftrightarrow> c \<noteq> CHR 0x0A \<and> c \<noteq> CHR 0x0D"

definition b64_decode :: "string \<Rightarrow> string \<Rightarrow> bytes option" where
  "b64_decode al s =
    (let t = filter not_newline s in
     if list_all (\<lambda>c. c \<in> set al) t then b64_quanta (map (\<lambda>c. the (al_index al c)) t) else None)"

lemma b64_bytes_induct [case_names Nil One Two Three]:
  fixes bs :: bytes
  assumes "P []" "\<And>a. P [a]" "\<And>a b. P [a, b]" "\<And>a b c r. P r \<Longrightarrow> P (a # b # c # r)"
  shows "P bs"
  by (rule b64_encode.induct[of "\<lambda>_. P"]) (use assms in auto)

lemma byte_div_bounds [simp]:
  "byte_val a div 4 < 64" "byte_val a div 16 < 16" "byte_val a div 64 < 4"
proof -
  have "byte_val a < 256" by simp
  then show "byte_val a div 4 < 64" "byte_val a div 16 < 16" "byte_val a div 64 < 4"
    by (simp_all add: div_less_iff_less_mult)
qed

lemma sextet_bounds [simp]:
  "byte_val a mod 4 * 16 < 64"
  "byte_val a mod 4 * 16 + byte_val b div 16 < 64"
  "byte_val b mod 16 * 4 < 64"
  "byte_val b mod 16 * 4 + byte_val c div 64 < 64"
proof -
  have "byte_val a mod 4 < 4" "byte_val b mod 16 < 16" by simp_all
  moreover have "byte_val b div 16 < 16" "byte_val c div 64 < 4" by (rule byte_div_bounds)+
  ultimately show "byte_val a mod 4 * 16 < 64"
    and "byte_val a mod 4 * 16 + byte_val b div 16 < 64"
    and "byte_val b mod 16 * 4 < 64"
    and "byte_val b mod 16 * 4 + byte_val c div 64 < 64"
    by linarith+
qed

lemma byte_div_div [simp]:
  "byte_val b div 16 div 16 = 0" "byte_val c div 64 div 4 = 0"
  "byte_val b div 16 mod 16 = byte_val b div 16" "byte_val c div 64 mod 4 = byte_val c div 64"
  using byte_div_bounds[of b] byte_div_bounds[of c] by simp_all

lemma length_b64_encode: "length (b64_encode al bs) = (4 * length bs + 2) div 3"
  by (induction bs rule: b64_bytes_induct) simp_all

section \<open>The contract of an encoding\<close>

text \<open>What an alphabet owes its codec, and what the codec then promises.\<close>

locale base64_alphabet =
  fixes al :: string
  assumes distinct_al: "distinct al"
    and length_al: "length al = 64"
    and no_newline_al: "list_all not_newline al"
begin

lemma al_index_nth [simp]: "i < 64 \<Longrightarrow> al_index al (al ! i) = Some i"
proof -
  assume i: "i < 64"
  have "takeWhile (\<lambda>x. x \<noteq> al ! i) al = take i al"
  proof (rule takeWhile_eq_take_P_nth)
    fix j assume "j < i" "j < length al"
    then show "al ! j \<noteq> al ! i"
      using i distinct_al length_al by (simp add: nth_eq_iff_index_eq)
  qed (use i length_al in auto)
  then show ?thesis using i length_al by (simp add: al_index_def)
qed

lemma nth_al_in [simp]: "i < 64 \<Longrightarrow> al ! i \<in> set al"
  using length_al by simp

lemma set_encode: "set (b64_encode al bs) \<subseteq> set al"
  by (induction bs rule: b64_bytes_induct) simp_all

lemma filter_encode [simp]: "filter not_newline (b64_encode al bs) = b64_encode al bs"
  using set_encode no_newline_al by (auto simp: filter_id_conv list.pred_set)

lemma quanta_encode:
  "b64_quanta (map (\<lambda>c. the (al_index al c)) (b64_encode al bs)) = Some bs"
  by (induction bs rule: b64_bytes_induct) simp_all

lemma decode_encode: "b64_decode al (b64_encode al bs) = Some bs"
  using set_encode[of bs]
  by (auto simp: b64_decode_def quanta_encode list.pred_set Let_def subset_iff)

lemma encode_avoids: "c \<notin> set al \<Longrightarrow> c \<notin> set (b64_encode al bs)"
  using set_encode by blast

end

section \<open>The two alphabets the gateway uses\<close>

definition url_alphabet :: string where
  "url_alphabet = ''ABCDEFGHIJKLMNOPQRSTUVWXYZabcdefghijklmnopqrstuvwxyz0123456789-_''"

definition std_alphabet :: string where
  "std_alphabet = ''ABCDEFGHIJKLMNOPQRSTUVWXYZabcdefghijklmnopqrstuvwxyz0123456789+/''"

interpretation url: base64_alphabet url_alphabet
  by unfold_locales code_simp+

interpretation std: base64_alphabet std_alphabet
  by unfold_locales code_simp+

definition RawURLEncoding :: "bytes \<Rightarrow> string" where
  "RawURLEncoding bs = b64_encode url_alphabet bs"

definition RawStdEncoding :: "bytes \<Rightarrow> string" where
  "RawStdEncoding bs = b64_encode std_alphabet bs"

definition RawStdDecoding :: "string \<Rightarrow> bytes option" where
  "RawStdDecoding s = b64_decode std_alphabet s"

lemma RawStd_roundtrip [simp]: "RawStdDecoding (RawStdEncoding bs) = Some bs"
  by (simp add: RawStdDecoding_def RawStdEncoding_def std.decode_encode)

lemma RawStd_no_dollar [simp]: "CHR ''$'' \<notin> set (RawStdEncoding bs)"
  unfolding RawStdEncoding_def by (rule std.encode_avoids) (simp add: std_alphabet_def)

lemma length_RawURLEncoding [simp]: "length (RawURLEncoding bs) = (4 * length bs + 2) div 3"
  by (simp add: RawURLEncoding_def length_b64_encode)

lemma url_graphic: "list_all graphic url_alphabet"
  by (simp add: url_alphabet_def graphic_def is_space_def)

lemma RawURLEncoding_graphic: "c \<in> set (RawURLEncoding bs) \<Longrightarrow> graphic c"
  using url.set_encode url_graphic unfolding RawURLEncoding_def list.pred_set by blast

end
