(* ===== verification/Sha256.thy ===== *)
theory Sha256
  imports GoStd
begin

text \<open>
  \<^verbatim>\<open>crypto/sha256\<close> (FIPS 180-4), which keys the verify cache, the idempotency
  table and the audit hashes.  The gateway only uses \<^verbatim>\<open>sha256.Sum256\<close> followed by
  \<^verbatim>\<open>hex.EncodeToString\<close>.
\<close>

unbundle bit_operations_syntax

type_synonym u32 = "32 word"

section \<open>Constants\<close>

text \<open>
  The standard defines its constants as the first 32 bits of the fractional
  parts of square and cube roots of primes.  Each entry is a prime, the
  integer part of its root and those 32 bits; \<open>root_entry\<close> is the definition,
  and both tables are checked against it.
\<close>

definition root_entry :: "nat \<Rightarrow> int \<times> int \<times> int \<Rightarrow> bool" where
  "root_entry n e = (case e of (p, i, f) \<Rightarrow>
     (i * 2 ^ 32 + f) ^ n \<le> p * 2 ^ (32 * n) \<and> p * 2 ^ (32 * n) < (i * 2 ^ 32 + f + 1) ^ n
     \<and> 0 \<le> f \<and> f < 2 ^ 32)"

definition sqrt_table :: "(int \<times> int \<times> int) list" where
  "sqrt_table = [
    (2, 1, 0x6a09e667), (3, 1, 0xbb67ae85), (5, 2, 0x3c6ef372), (7, 2, 0xa54ff53a),
    (11, 3, 0x510e527f), (13, 3, 0x9b05688c), (17, 4, 0x1f83d9ab), (19, 4, 0x5be0cd19)]"

definition cbrt_table :: "(int \<times> int \<times> int) list" where
  "cbrt_table = [
    (2, 1, 0x428a2f98), (3, 1, 0x71374491), (5, 1, 0xb5c0fbcf), (7, 1, 0xe9b5dba5),
    (11, 2, 0x3956c25b), (13, 2, 0x59f111f1), (17, 2, 0x923f82a4), (19, 2, 0xab1c5ed5),
    (23, 2, 0xd807aa98), (29, 3, 0x12835b01), (31, 3, 0x243185be), (37, 3, 0x550c7dc3),
    (41, 3, 0x72be5d74), (43, 3, 0x80deb1fe), (47, 3, 0x9bdc06a7), (53, 3, 0xc19bf174),
    (59, 3, 0xe49b69c1), (61, 3, 0xefbe4786), (67, 4, 0x0fc19dc6), (71, 4, 0x240ca1cc),
    (73, 4, 0x2de92c6f), (79, 4, 0x4a7484aa), (83, 4, 0x5cb0a9dc), (89, 4, 0x76f988da),
    (97, 4, 0x983e5152), (101, 4, 0xa831c66d), (103, 4, 0xb00327c8), (107, 4, 0xbf597fc7),
    (109, 4, 0xc6e00bf3), (113, 4, 0xd5a79147), (127, 5, 0x06ca6351), (131, 5, 0x14292967),
    (137, 5, 0x27b70a85), (139, 5, 0x2e1b2138), (149, 5, 0x4d2c6dfc), (151, 5, 0x53380d13),
    (157, 5, 0x650a7354), (163, 5, 0x766a0abb), (167, 5, 0x81c2c92e), (173, 5, 0x92722c85),
    (179, 5, 0xa2bfe8a1), (181, 5, 0xa81a664b), (191, 5, 0xc24b8b70), (193, 5, 0xc76c51a3),
    (197, 5, 0xd192e819), (199, 5, 0xd6990624), (211, 5, 0xf40e3585), (223, 6, 0x106aa070),
    (227, 6, 0x19a4c116), (229, 6, 0x1e376c08), (233, 6, 0x2748774c), (239, 6, 0x34b0bcb5),
    (241, 6, 0x391c0cb3), (251, 6, 0x4ed8aa4a), (257, 6, 0x5b9cca4f), (263, 6, 0x682e6ff3),
    (269, 6, 0x748f82ee), (271, 6, 0x78a5636f), (277, 6, 0x84c87814), (281, 6, 0x8cc70208),
    (283, 6, 0x90befffa), (293, 6, 0xa4506ceb), (307, 6, 0xbef9a3f7), (311, 6, 0xc67178f2)]"

lemma tables_correct: "list_all (root_entry 2) sqrt_table" "list_all (root_entry 3) cbrt_table"
  by (simp_all add: sqrt_table_def cbrt_table_def root_entry_def)

definition sha_h0 :: "u32 list" where
  "sha_h0 = map (\<lambda>(p, i, f). word_of_int f) sqrt_table"

definition sha_k :: "u32 list" where
  "sha_k = map (\<lambda>(p, i, f). word_of_int f) cbrt_table"

section \<open>Padding and block words\<close>

definition be_word :: "char \<Rightarrow> char \<Rightarrow> char \<Rightarrow> char \<Rightarrow> u32" where
  "be_word a b c d =
    word_of_int (((of_char a * 256 + of_char b) * 256 + of_char c) * 256 + of_char d)"

definition word_bytes :: "u32 \<Rightarrow> bytes" where
  "word_bytes w = map (\<lambda>i. char_of (uint (drop_bit i w))) [24, 16, 8, 0]"

definition be64 :: "nat \<Rightarrow> bytes" where
  "be64 n = map (\<lambda>i. char_of (drop_bit i (int n))) [56, 48, 40, 32, 24, 16, 8, 0]"

definition sha_pad :: "bytes \<Rightarrow> bytes" where
  "sha_pad m = m @ [char_of (128::nat)] @ replicate ((119 - length m mod 64) mod 64) (char_of (0::nat))
     @ be64 (8 * length m)"

fun block_words :: "bytes \<Rightarrow> u32 list" where
  "block_words (a # b # c # d # r) = be_word a b c d # block_words r"
| "block_words _ = []"

function blocks :: "bytes \<Rightarrow> bytes list" where
  "blocks m = (if m = [] then [] else take 64 m # blocks (drop 64 m))"
  by pat_completeness auto
termination
  by (relation "measure length") auto

declare blocks.simps [simp del]

section \<open>Compression\<close>

definition sha_sig :: "nat \<Rightarrow> nat \<Rightarrow> nat \<Rightarrow> u32 \<Rightarrow> u32" where
  "sha_sig i j k x = word_rotr i x XOR word_rotr j x XOR drop_bit k x"

definition sha_Sig :: "nat \<Rightarrow> nat \<Rightarrow> nat \<Rightarrow> u32 \<Rightarrow> u32" where
  "sha_Sig i j k x = word_rotr i x XOR word_rotr j x XOR word_rotr k x"

text \<open>The message schedule; \<open>w\<close> holds the words so far, newest first.\<close>

fun sha_expand :: "nat \<Rightarrow> u32 list \<Rightarrow> u32 list" where
  "sha_expand 0 w = w"
| "sha_expand (Suc n) w =
    sha_expand n ((sha_sig 17 19 10 (w ! 1) + w ! 6 + sha_sig 7 18 3 (w ! 14) + w ! 15) # w)"

fun sha_round :: "u32 list \<Rightarrow> u32 \<times> u32 \<Rightarrow> u32 list" where
  "sha_round [a, b, c, d, e, f, g, h] (k, w) =
    (let t1 = h + sha_Sig 6 11 25 e + ((e AND f) XOR (NOT e AND g)) + k + w;
         t2 = sha_Sig 2 13 22 a + ((a AND b) XOR (a AND c) XOR (b AND c))
     in [t1 + t2, a, b, c, d + t1, e, f, g])"
| "sha_round s _ = s"

definition sha_block :: "u32 list \<Rightarrow> bytes \<Rightarrow> u32 list" where
  "sha_block h m =
    map2 (+) h (foldl sha_round h (zip sha_k (rev (sha_expand 48 (rev (block_words m))))))"

text \<open>\<^verbatim>\<open>sha256.Sum256\<close>.\<close>

definition sha256 :: "bytes \<Rightarrow> bytes" where
  "sha256 m = concat (map word_bytes (foldl sha_block sha_h0 (blocks (sha_pad m))))"

definition sha256_hex :: "bytes \<Rightarrow> string" where
  "sha256_hex m = hex_encode (sha256 m)"

text \<open>The first test vector of FIPS 180-4.\<close>

lemma sha256_abc:
  "sha256_hex ''abc'' = ''ba7816bf8f01cfea414140de5dae2223b00361a396177a9cb410ff61f20015ad''"
  by code_simp

end
