(* ===== verification/Keys.thy ===== *)
theory Keys
  imports GoErrors Base64 Sha256
begin

text \<open>
  API keys (\<^verbatim>\<open>internal/auth/key.go\<close>): the token format, parsing a bearer header,
  minting, the argon2id PHC string of a secret and its verification, the
  cache key, the dummy hash and the key record.

  argon2id itself (\<^verbatim>\<open>golang.org/x/crypto/argon2\<close>) is the parameter \<open>idkey\<close>:
  password, salt, time, memory, threads, key length.  Random bytes are
  arguments, one per \<^verbatim>\<open>rand.Read\<close>, each an error or the bytes read.
\<close>

unbundle bit_operations_syntax

section \<open>Environments and token layout\<close>

definition IsValid :: "string \<Rightarrow> bool" where
  "IsValid e \<longleftrightarrow> e = ''live'' \<or> e = ''dev'' \<or> e = ''test''"

definition argonTime :: nat where "argonTime = 2"
definition argonMemory :: nat where "argonMemory = 64 * 1024"
definition argonThreads :: nat where "argonThreads = 2"
definition argonKeyLen :: nat where "argonKeyLen = 32"
definition argonSaltLen :: nat where "argonSaltLen = 16"
definition keyIDRawBytes :: nat where "keyIDRawBytes = 12"
definition secretRawBytes :: nat where "secretRawBytes = 24"
definition keyIDEncodedLen :: nat where "keyIDEncodedLen = 16"
definition secretEncodedLen :: nat where "secretEncodedLen = 32"

text \<open>The constant \<^verbatim>\<open>argon2.Version\<close>, as key.go's comment on the PHC format has it.\<close>

definition argonVersion :: nat where "argonVersion = 19"

lemmas argon_consts = argonTime_def argonMemory_def argonThreads_def argonKeyLen_def
  argonSaltLen_def argonVersion_def

lemmas token_consts = keyIDRawBytes_def secretRawBytes_def keyIDEncodedLen_def secretEncodedLen_def

record ParsedKey =
  pk_Env :: string
  pk_KeyID :: string
  pk_Secret :: string
  pk_FullToken :: string

section \<open>Parsing and minting\<close>

text \<open>The part of \<^verbatim>\<open>ParseBearer\<close> after the header has been trimmed.\<close>

definition parse_token :: "string \<Rightarrow> ParsedKey result" where
  "parse_token header =
    (if \<not> has_prefix header ''acd_'' then Inl (Sentinel ErrInvalidKey) else
     let rest = drop (length ''acd_'') header;
         sep = index_byte rest (CHR ''_'') in
     if sep < 1 then Inl (Sentinel ErrInvalidKey) else
     let env = take (nat sep) rest in
     if \<not> IsValid env then Inl (Sentinel ErrInvalidKey) else
     let rest2 = drop (nat sep + 1) rest in
     if length rest2 \<noteq> keyIDEncodedLen + 1 + secretEncodedLen then Inl (Sentinel ErrInvalidKey) else
     if rest2 ! keyIDEncodedLen \<noteq> CHR ''_'' then Inl (Sentinel ErrInvalidKey) else
     Inr \<lparr> pk_Env = env,
           pk_KeyID = take keyIDEncodedLen rest2,
           pk_Secret = drop (keyIDEncodedLen + 1) rest2,
           pk_FullToken = header \<rparr>)"

definition ParseBearer :: "string \<Rightarrow> ParsedKey result" where
  "ParseBearer header =
    (let header1 = trim_space header in
     if header1 = [] then Inl (Sentinel ErrInvalidKey)
     else parse_token (trim_space (trim_prefix header1 ''Bearer '')))"

text \<open>\<^verbatim>\<open>fmt.Sprintf("acd_%s_%s_%s", env, keyID, secret)\<close>.\<close>

definition full_token :: "string \<Rightarrow> string \<Rightarrow> string \<Rightarrow> string" where
  "full_token env keyID secret = ''acd_'' @ env @ ''_'' @ keyID @ ''_'' @ secret"

definition Mint :: "string \<Rightarrow> bytes result \<Rightarrow> bytes result \<Rightarrow> (string \<times> string \<times> string) result" where
  "Mint env idRead secRead =
    (if \<not> IsValid env then Inl (Opaque (''auth.Mint: invalid env '' @ go_quote env)) else
     case idRead of Inl e \<Rightarrow> Inl e | Inr idBytes \<Rightarrow>
     case secRead of Inl e \<Rightarrow> Inl e | Inr secBytes \<Rightarrow>
     let keyID = RawURLEncoding idBytes; secret = RawURLEncoding secBytes
     in Inr (keyID, secret, full_token env keyID secret))"

section \<open>Hashing and verifying the secret\<close>

type_synonym argon2 = "bytes \<Rightarrow> bytes \<Rightarrow> nat \<Rightarrow> nat \<Rightarrow> nat \<Rightarrow> nat \<Rightarrow> bytes"

definition phc_params :: string where
  "phc_params = ''m='' @ show_nat argonMemory @ '',t='' @ show_nat argonTime @ '',p='' @ show_nat argonThreads"

definition HashSecret :: "argon2 \<Rightarrow> bytes result \<Rightarrow> string \<Rightarrow> string result" where
  "HashSecret idkey saltRead secret =
    (case saltRead of Inl e \<Rightarrow> Inl e | Inr salt \<Rightarrow>
     let hash = idkey secret salt argonTime argonMemory argonThreads argonKeyLen
     in Inr (''$argon2id$v='' @ show_nat argonVersion @ ''$'' @ phc_params @ ''$''
             @ RawStdEncoding salt @ ''$'' @ RawStdEncoding hash))"

text \<open>The loop \<^verbatim>\<open>v |= a[i] ^ b[i]\<close> over a byte accumulator.\<close>

fun ct_diff :: "8 word \<Rightarrow> bytes \<Rightarrow> bytes \<Rightarrow> 8 word" where
  "ct_diff v (a # as) (b # bs) = ct_diff (v OR (of_char a XOR of_char b)) as bs"
| "ct_diff v _ _ = v"

definition subtleConstantTimeEq :: "bytes \<Rightarrow> bytes \<Rightarrow> bool" where
  "subtleConstantTimeEq a b = (if length a \<noteq> length b then False else ct_diff 0 a b = 0)"

text \<open>\<^verbatim>\<open>fmt.Sscanf(parts[2], "v=%d", &version)\<close> and
  \<^verbatim>\<open>fmt.Sscanf(parts[3], "m=%d,t=%d,p=%d", &m, &t, &p)\<close>.\<close>

definition scan_version :: "string \<Rightarrow> int option" where
  "scan_version s =
    (case scan_lit ''v='' s of None \<Rightarrow> None
     | Some r \<Rightarrow> map_option fst (scan_int 64 r))"

definition scan_params :: "string \<Rightarrow> (nat \<times> nat \<times> nat) option" where
  "scan_params s =
    (case scan_lit ''m='' s of None \<Rightarrow> None | Some r1 \<Rightarrow>
     case scan_uint 32 r1 of None \<Rightarrow> None | Some (m, r2) \<Rightarrow>
     case scan_lit '',t='' r2 of None \<Rightarrow> None | Some r3 \<Rightarrow>
     case scan_uint 32 r3 of None \<Rightarrow> None | Some (t, r4) \<Rightarrow>
     case scan_lit '',p='' r4 of None \<Rightarrow> None | Some r5 \<Rightarrow>
     case scan_uint 8 r5 of None \<Rightarrow> None | Some (p, r6) \<Rightarrow>
     Some (m, t, p))"

text \<open>\<open>None\<close> is Go's nil error.\<close>

definition VerifySecret :: "argon2 \<Rightarrow> string \<Rightarrow> string \<Rightarrow> go_error option" where
  "VerifySecret idkey secret phc =
    (let parts = split_byte (CHR ''$'') phc in
     if length parts \<noteq> 6 \<or> parts ! 1 \<noteq> ''argon2id'' then Some (Sentinel ErrInvalidKey) else
     case scan_version (parts ! 2) of None \<Rightarrow> Some (Sentinel ErrInvalidKey) | Some version \<Rightarrow>
     if version \<noteq> int argonVersion then Some (Sentinel ErrInvalidKey) else
     case scan_params (parts ! 3) of None \<Rightarrow> Some (Sentinel ErrInvalidKey) | Some (m, t, p) \<Rightarrow>
     case RawStdDecoding (parts ! 4) of None \<Rightarrow> Some (Sentinel ErrInvalidKey) | Some salt \<Rightarrow>
     case RawStdDecoding (parts ! 5) of None \<Rightarrow> Some (Sentinel ErrInvalidKey) | Some want \<Rightarrow>
     if length want \<noteq> argonKeyLen then Some (Sentinel ErrInvalidKey) else
     let got = idkey secret salt t m p argonKeyLen in
     if subtleConstantTimeEq got want then None else Some (Sentinel ErrInvalidKey))"

section \<open>Cache key, dummy hash, key record\<close>

definition CacheKey :: "ParsedKey \<Rightarrow> string" where
  "CacheKey p = sha256_hex (pk_FullToken p)"

text \<open>The once-initialised package variable: \<open>None\<close> before the first call.\<close>

definition DummyHash :: "argon2 \<Rightarrow> bytes result \<Rightarrow> string option \<Rightarrow> string \<times> string option" where
  "DummyHash idkey saltRead once =
    (case once of
       Some h \<Rightarrow> (h, once)
     | None \<Rightarrow>
        let h = (case HashSecret idkey saltRead ''agentcoopdb_dummy_secret_for_timing_safety'' of
                   Inl e \<Rightarrow> [] | Inr h \<Rightarrow> h)
        in (h, Some h))"

record KeyRecord =
  kr_ID :: string
  kr_WorkspaceID :: string
  kr_KeyID :: string
  kr_SecretHash :: string
  kr_Env :: string
  kr_PgRole :: string
  kr_Name :: string
  kr_CreatedAt :: instant
  kr_LastUsedAt :: "instant option"
  kr_ExpiresAt :: "instant option"
  kr_RevokedAt :: "instant option"
  kr_ReplacesKeyID :: "string option"

definition Active :: "KeyRecord \<Rightarrow> instant \<Rightarrow> bool" where
  "Active r now =
    (if kr_RevokedAt r \<noteq> None then False
     else case kr_ExpiresAt r of Some t \<Rightarrow> t > now | None \<Rightarrow> True)"

section \<open>Token format: parsing inverts minting\<close>

lemma IsValid_props:
  assumes "IsValid e"
  shows "e \<noteq> []" "CHR ''_'' \<notin> set e"
  using assms by (auto simp: IsValid_def)

lemma length_acd: "length ''acd_'' = 4"
  by simp

lemma parse_token_ok:
  assumes "parse_token h = Inr p"
  shows "pk_FullToken p = h"
    and "h = full_token (pk_Env p) (pk_KeyID p) (pk_Secret p)"
    and "IsValid (pk_Env p)"
    and "length (pk_KeyID p) = keyIDEncodedLen"
    and "length (pk_Secret p) = secretEncodedLen"
proof -
  define rest where "rest = drop 4 h"
  define sep where "sep = index_byte rest (CHR ''_'')"
  define rest2 where "rest2 = drop (nat sep + 1) rest"
  note defs = rest_def[symmetric] sep_def[symmetric] rest2_def[symmetric]
  from assms have pre: "has_prefix h ''acd_''" and sep: "1 \<le> sep"
    and env: "IsValid (take (nat sep) rest)"
    and len: "length rest2 = 49" and us: "rest2 ! 16 = CHR ''_''"
    and p: "p = \<lparr> pk_Env = take (nat sep) rest, pk_KeyID = take 16 rest2,
                  pk_Secret = drop 17 rest2, pk_FullToken = h \<rparr>"
    unfolding parse_token_def Let_def length_acd defs
    by (simp_all add: token_consts split: if_splits)
  from pre have h: "h = ''acd_'' @ rest"
    by (auto simp: has_prefix_iff rest_def)
  have r: "rest = take (nat sep) rest @ CHR ''_'' # rest2"
    using index_byte_split(1)[of rest "CHR ''_''"] sep by (simp add: sep_def rest2_def)
  have r2: "rest2 = take 16 rest2 @ CHR ''_'' # drop 17 rest2"
    using id_take_nth_drop[of 16 rest2] len us by simp
  show "h = full_token (pk_Env p) (pk_KeyID p) (pk_Secret p)"
    using h r r2 by (simp add: p full_token_def)
  show "pk_FullToken p = h" "IsValid (pk_Env p)" "length (pk_KeyID p) = keyIDEncodedLen"
    "length (pk_Secret p) = secretEncodedLen"
    using env len by (simp_all add: p token_consts)
qed

lemma parse_full_token:
  assumes "IsValid env" "length k = keyIDEncodedLen" "length s = secretEncodedLen"
  shows "parse_token (full_token env k s) =
    Inr \<lparr> pk_Env = env, pk_KeyID = k, pk_Secret = s, pk_FullToken = full_token env k s \<rparr>"
proof -
  let ?rest = "env @ CHR ''_'' # (k @ CHR ''_'' # s)"
  have rest: "drop 4 (full_token env k s) = ?rest"
    by (simp add: full_token_def)
  have sep: "index_byte ?rest (CHR ''_'') = int (length env)"
    using IsValid_props[OF assms(1)] by (simp add: index_byte_append)
  have "env \<noteq> []" using IsValid_props[OF assms(1)] by simp
  moreover have "has_prefix (full_token env k s) ''acd_''"
    by (simp add: full_token_def has_prefix_def)
  ultimately show ?thesis
    using assms unfolding parse_token_def Let_def length_acd rest sep
    by (simp add: token_consts nth_append)
qed

lemma full_token_graphic:
  assumes "s \<noteq> []" "\<And>c. c \<in> set s \<Longrightarrow> graphic c"
  shows "full_token env k s \<noteq> []" "graphic (hd (full_token env k s))"
    "graphic (last (full_token env k s))"
  using assms by (simp_all add: full_token_def graphic_def is_space_def)

lemma Mint_ok [ok_iff]:
  "Mint env ir sr = Inr (k, s, t) \<longleftrightarrow>
    IsValid env \<and> (\<exists>ib sb. ir = Inr ib \<and> sr = Inr sb \<and> k = RawURLEncoding ib \<and> s = RawURLEncoding sb
      \<and> t = full_token env k s)"
  by (auto simp: Mint_def Let_def split: sum.splits)

text \<open>Any well-formed token whose secret has no blanks parses back, bare or behind \<^verbatim>\<open>Bearer\<close>.\<close>

lemma ParseBearer_full_token:
  assumes "IsValid env" and len: "length k = keyIDEncodedLen" "length s = secretEncodedLen"
    and "\<And>c. c \<in> set s \<Longrightarrow> graphic c" and "t = full_token env k s"
    and h: "h \<in> {t, ''Bearer '' @ t, '' '' @ t @ '' '', '' Bearer '' @ t @ '' ''}"
  shows "ParseBearer h = Inr \<lparr> pk_Env = env, pk_KeyID = k, pk_Secret = s, pk_FullToken = t \<rparr>"
proof -
  have "s \<noteq> []" using len by (auto simp: token_consts)
  then have g: "t \<noteq> []" "graphic (hd t)" "graphic (last t)"
    using full_token_graphic[of s env k] assms(4,5) by auto
  have B: "graphic (CHR ''B'')" by (simp add: graphic_def is_space_def)
  have trim: "trim_space t = t" "trim_space ('' '' @ t @ '' '') = t"
    "trim_space (''Bearer '' @ t) = ''Bearer '' @ t"
    "trim_space ('' Bearer '' @ t @ '' '') = ''Bearer '' @ t"
    using g B trim_space_padded[of "''Bearer '' @ t"]
    by (simp_all add: trim_space_graphic trim_space_padded)
  have "\<not> has_prefix t ''Bearer ''" by (simp add: assms(5) full_token_def has_prefix_def)
  then have tp: "trim_prefix t ''Bearer '' = t" "trim_prefix (''Bearer '' @ t) ''Bearer '' = t"
    by (simp_all add: trim_prefix_def has_prefix_def)
  from h have "trim_space h \<noteq> []" "trim_space (trim_prefix (trim_space h) ''Bearer '') = t"
    using trim tp g by auto
  then show ?thesis
    using parse_full_token[OF assms(1) len] by (simp add: ParseBearer_def assms(5))
qed

lemma Mint_parts:
  assumes "Mint env (Inr ib) (Inr sb) = Inr (k, s, t)"
    and "length ib = keyIDRawBytes" "length sb = secretRawBytes"
  shows "IsValid env" "t = full_token env k s" "length k = keyIDEncodedLen"
    "length s = secretEncodedLen" "\<And>c. c \<in> set s \<Longrightarrow> graphic c"
  using assms RawURLEncoding_graphic by (auto simp: ok_iff token_consts)

text \<open>
  (C14) A freshly minted token is accepted: whatever 12 and 24 random bytes were
  read, parsing the header \<^verbatim>\<open>Bearer <token>\<close> (and the bare token, and either one
  with a space around it) gives back the environment, the key id and the
  secret that were minted, although both may contain underscores.
\<close>

theorem parse_minted_token:
  assumes "length ib = keyIDRawBytes" "length sb = secretRawBytes"
    and "Mint env (Inr ib) (Inr sb) = Inr (k, s, t)"
    and "h \<in> {t, ''Bearer '' @ t, '' '' @ t @ '' '', '' Bearer '' @ t @ '' ''}"
  shows "ParseBearer h = Inr \<lparr> pk_Env = env, pk_KeyID = k, pk_Secret = s, pk_FullToken = t \<rparr>"
  using Mint_parts[OF assms(3,1,2)] assms(4) by (intro ParseBearer_full_token) auto

theorem parse_minted_token_witness:
  "ParseBearer (''Bearer '' @ full_token ''dev'' (RawURLEncoding (replicate 12 CHR 0xFF))
      (RawURLEncoding (replicate 24 CHR 0x00)))
   = Inr \<lparr> pk_Env = ''dev'', pk_KeyID = ''________________'',
           pk_Secret = ''AAAAAAAAAAAAAAAAAAAAAAAAAAAAAAAA'',
           pk_FullToken = ''acd_dev__________________AAAAAAAAAAAAAAAAAAAAAAAAAAAAAAAA'' \<rparr>"
proof -
  have e: "RawURLEncoding (replicate 12 CHR 0xFF) = ''________________''"
    "RawURLEncoding (replicate 24 CHR 0x00) = ''AAAAAAAAAAAAAAAAAAAAAAAAAAAAAAAA''"
    by code_simp+
  have m: "Mint ''dev'' (Inr (replicate 12 CHR 0xFF)) (Inr (replicate 24 CHR 0x00)) =
      Inr (''________________'', ''AAAAAAAAAAAAAAAAAAAAAAAAAAAAAAAA'',
        full_token ''dev'' ''________________'' ''AAAAAAAAAAAAAAAAAAAAAAAAAAAAAAAA'')"
    by (simp only: Mint_def IsValid_def e Let_def sum.case) simp
  have "ParseBearer (''Bearer '' @ full_token ''dev'' ''________________'' ''AAAAAAAAAAAAAAAAAAAAAAAAAAAAAAAA'')
    = Inr \<lparr> pk_Env = ''dev'', pk_KeyID = ''________________'',
           pk_Secret = ''AAAAAAAAAAAAAAAAAAAAAAAAAAAAAAAA'',
           pk_FullToken = full_token ''dev'' ''________________'' ''AAAAAAAAAAAAAAAAAAAAAAAAAAAAAAAA'' \<rparr>"
    by (rule parse_minted_token[OF _ _ m]) (simp_all add: token_consts)
  then show ?thesis unfolding e by (simp only: full_token_def append.simps)
qed

text \<open>
  (C16) Only well-formed tokens are accepted, and the accepted parts determine the
  token: the full token that is later hashed into the cache key is exactly
  \<^verbatim>\<open>acd_<env>_<keyID>_<secret>\<close> with a recognised environment, a 16-byte key id and
  a 32-byte secret, so two headers with different parts have different tokens.
\<close>

theorem parse_bearer_sound:
  assumes "ParseBearer h = Inr p" "ParseBearer h' = Inr p'"
  shows "pk_FullToken p = full_token (pk_Env p) (pk_KeyID p) (pk_Secret p)
    \<and> IsValid (pk_Env p) \<and> length (pk_KeyID p) = 16 \<and> length (pk_Secret p) = 32
    \<and> (pk_FullToken p = pk_FullToken p' \<longleftrightarrow> p = p')"
proof -
  from assms obtain t t' where t: "parse_token t = Inr p" "parse_token t' = Inr p'"
    by (auto simp: ParseBearer_def Let_def split: if_splits)
  note a = parse_token_ok[OF t(1)] and b = parse_token_ok[OF t(2)]
  have "p = p'" if "pk_FullToken p = pk_FullToken p'"
  proof -
    from that have "t = t'" using a(1) b(1) by simp
    with t show ?thesis by simp
  qed
  then show ?thesis using a b(1) by (auto simp: token_consts)
qed

theorem parse_bearer_sound_witness:
  "ParseBearer ''acd_test_0123456789abcdef_0123456789abcdef0123456789abcdef'' =
     Inr \<lparr> pk_Env = ''test'', pk_KeyID = ''0123456789abcdef'',
           pk_Secret = ''0123456789abcdef0123456789abcdef'',
           pk_FullToken = ''acd_test_0123456789abcdef_0123456789abcdef0123456789abcdef'' \<rparr>
   \<and> full_token ''test'' ''0123456789abcdef'' ''0123456789abcdef0123456789abcdef''
     = ''acd_test_0123456789abcdef_0123456789abcdef0123456789abcdef''"
  (is "?h = Inr ?p \<and> _")
proof -
  have "trim_space ''acd_test_0123456789abcdef_0123456789abcdef0123456789abcdef''
      = ''acd_test_0123456789abcdef_0123456789abcdef0123456789abcdef''"
    by (rule trim_space_graphic) (simp_all add: graphic_def is_space_def)
  then have h: "?h = Inr ?p"
    by (simp add: ParseBearer_def parse_token_def Let_def trim_prefix_def has_prefix_def
        index_byte_def IsValid_def token_consts)
  from parse_bearer_sound[OF h h] show ?thesis using h by simp
qed

section \<open>Secrets: verification inverts hashing\<close>

lemma xor_char_zero: "of_char x XOR of_char y = (0 :: 8 word) \<longleftrightarrow> x = y"
proof
  assume h: "of_char x XOR of_char y = (0 :: 8 word)"
  have "(of_char y :: 8 word) = of_char x XOR (of_char x XOR of_char y)"
    by (simp only: xor.assoc[symmetric] xor_self_eq xor.left_neutral)
  also have "\<dots> = of_char x" by (simp only: h xor.right_neutral)
  finally have "unat (of_nat (of_char x) :: 8 word) = unat (of_nat (of_char y) :: 8 word)"
    by (simp only: of_nat_of_char)
  then show "x = y" by (simp only: unat_of_nat) simp
qed simp

lemma or_word_zero: "(a OR b = (0 :: 8 word)) \<longleftrightarrow> a = 0 \<and> b = 0"
  by (auto simp: bit_eq_iff bit_or_iff)

lemma ct_diff_zero: "length a = length b \<Longrightarrow> ct_diff v a b = 0 \<longleftrightarrow> v = 0 \<and> a = b"
  by (induction v a b rule: ct_diff.induct) (auto simp: or_word_zero xor_char_zero)

lemma subtleConstantTimeEq_iff [simp]: "subtleConstantTimeEq a b \<longleftrightarrow> a = b"
  by (auto simp: subtleConstantTimeEq_def ct_diff_zero)

lemma show_consts:
  "show_nat argonVersion = ''19''" "phc_params = ''m=65536,t=2,p=2''"
  by (simp_all add: phc_params_def argon_consts show_nat.simps digit_char_def char_of_def bit_0)

lemma scan_phc:
  "scan_version (''v='' @ show_nat argonVersion) = Some (int argonVersion)"
  "scan_params phc_params = Some (argonMemory, argonTime, argonThreads)"
proof -
  have n: "ends_number []" "ends_number ('',t='' @ r)" "ends_number ('',p='' @ r)" for r
    by (simp_all add: ends_number_def is_digit_def)
  show "scan_version (''v='' @ show_nat argonVersion) = Some (int argonVersion)"
    using scan_int_show_nat[of argonVersion 64 "[]"] n
    by (simp add: scan_version_def argonVersion_def del: append_Cons)
  have "argonMemory < 2 ^ 32" "argonTime < 2 ^ 32" "argonThreads < 2 ^ 8"
    by (simp_all add: argon_consts)
  then show "scan_params phc_params = Some (argonMemory, argonTime, argonThreads)"
    using scan_uint_show_nat[of argonThreads 8 "[]"]
    unfolding scan_params_def phc_params_def
    by (simp add: scan_uint_show_nat n del: append_Cons)
qed

lemma HashSecret_ok [ok_iff]:
  "HashSecret idkey sr secret = Inr phc \<longleftrightarrow>
    (\<exists>salt. sr = Inr salt \<and>
      phc = ''$argon2id$v='' @ show_nat argonVersion @ ''$'' @ phc_params @ ''$'' @ RawStdEncoding salt
        @ ''$'' @ RawStdEncoding (idkey secret salt argonTime argonMemory argonThreads argonKeyLen))"
  by (auto simp: HashSecret_def Let_def split: sum.splits)

lemma split_phc:
  "split_byte (CHR ''$'') (''$argon2id$v='' @ show_nat argonVersion @ ''$'' @ phc_params @ ''$''
      @ RawStdEncoding salt @ ''$'' @ RawStdEncoding h)
   = [[], ''argon2id'', ''v='' @ show_nat argonVersion, phc_params, RawStdEncoding salt, RawStdEncoding h]"
  by (simp add: show_consts split_byte_append split_byte_no_sep)

text \<open>Acceptance, read off the six parts of the stored string.\<close>

lemma VerifySecret_None [ok_iff]:
  "VerifySecret idkey secret phc = None \<longleftrightarrow>
    (\<exists>x v ps s64 h64 m t p salt want.
      split_byte (CHR ''$'') phc = [x, ''argon2id'', v, ps, s64, h64]
      \<and> scan_version v = Some (int argonVersion) \<and> scan_params ps = Some (m, t, p)
      \<and> RawStdDecoding s64 = Some salt \<and> RawStdDecoding h64 = Some want
      \<and> length want = argonKeyLen \<and> idkey secret salt t m p argonKeyLen = want)"
  (is "?L = ?R")
proof
  assume ?R then show ?L by (auto simp: VerifySecret_def Let_def)
next
  assume L: ?L
  define ps where "ps = split_byte (CHR ''$'') phc"
  from L have "length ps = 6" by (auto simp: VerifySecret_def ps_def Let_def split: if_splits)
  then obtain a b c d e f where "ps = [a, b, c, d, e, f]"
    by (auto simp: length_Suc_conv eval_nat_numeral)
  with L show ?R
    by (auto simp: VerifySecret_def ps_def Let_def split: if_splits option.splits)
qed

text \<open>What an argon2id implementation owes its caller: a digest of the requested length.\<close>

definition argon2_len :: "argon2 \<Rightarrow> bool" where
  "argon2_len idkey \<longleftrightarrow> (\<forall>pw salt t m p n. length (idkey pw salt t m p n) = n)"

lemma VerifySecret_hashed:
  assumes "argon2_len idkey" "HashSecret idkey (Inr salt) secret = Inr phc"
  shows "VerifySecret idkey s phc = None \<longleftrightarrow>
      idkey s salt argonTime argonMemory argonThreads argonKeyLen
      = idkey secret salt argonTime argonMemory argonThreads argonKeyLen"
proof -
  from assms(2) have "phc = ''$argon2id$v='' @ show_nat argonVersion @ ''$'' @ phc_params @ ''$''
      @ RawStdEncoding salt @ ''$''
      @ RawStdEncoding (idkey secret salt argonTime argonMemory argonThreads argonKeyLen)"
    unfolding HashSecret_ok by blast
  then have phc: "split_byte (CHR ''$'') phc =
      [[], ''argon2id'', ''v='' @ show_nat argonVersion, phc_params, RawStdEncoding salt,
       RawStdEncoding (idkey secret salt argonTime argonMemory argonThreads argonKeyLen)]"
    by (simp only: split_phc)
  have len: "length (idkey secret salt argonTime argonMemory argonThreads argonKeyLen) = argonKeyLen"
    using assms(1) by (simp add: argon2_len_def)
  show ?thesis
    unfolding VerifySecret_None phc using scan_phc len by auto
qed

text \<open>
  (C15) Hashing and verifying agree: for any argon2id that returns digests of the
  requested length, the PHC string \<^verbatim>\<open>HashSecret\<close> stores is accepted by \<^verbatim>\<open>VerifySecret\<close>
  for exactly those secrets whose digest under the stored salt is the stored
  digest; the secret that was hashed is one of them.
\<close>

theorem verify_hashed_secret:
  assumes "argon2_len idkey" "HashSecret idkey (Inr salt) secret = Inr phc"
  shows "(VerifySecret idkey secret' phc = None \<longleftrightarrow>
      idkey secret' salt argonTime argonMemory argonThreads argonKeyLen
      = idkey secret salt argonTime argonMemory argonThreads argonKeyLen)
    \<and> VerifySecret idkey secret phc = None"
  using VerifySecret_hashed[OF assms] by blast

theorem verify_hashed_secret_witness:
  "\<exists>phc. HashSecret (\<lambda>pw salt t m p n. take n (pw @ salt @ replicate n CHR 0x00)) (Inr ''0123456789abcdef'') ''s3cret''
      = Inr phc
    \<and> VerifySecret (\<lambda>pw salt t m p n. take n (pw @ salt @ replicate n CHR 0x00)) ''s3cret'' phc = None
    \<and> VerifySecret (\<lambda>pw salt t m p n. take n (pw @ salt @ replicate n CHR 0x00)) ''wrong'' phc \<noteq> None"
proof -
  let ?k = "\<lambda>pw salt (t::nat) (m::nat) (p::nat) n. take n (pw @ salt @ replicate n CHR 0x00)"
  have k: "argon2_len ?k" by (auto simp: argon2_len_def min_def)
  obtain phc where phc: "HashSecret ?k (Inr ''0123456789abcdef'') ''s3cret'' = Inr phc"
    by (auto simp: HashSecret_def)
  show ?thesis
    using verify_hashed_secret[OF k phc, of "''wrong''"] phc by (auto simp: argonKeyLen_def)
qed

section \<open>Cache key, dummy hash and activity\<close>

text \<open>Two tokens share a cache key only when their SHA-256 digests collide.\<close>

lemma CacheKey_eq_iff: "CacheKey p = CacheKey q \<longleftrightarrow> sha256 (pk_FullToken p) = sha256 (pk_FullToken q)"
  by (simp add: CacheKey_def sha256_hex_def hex_encode_inj)

text \<open>The dummy hash is computed once: later calls return the first value and change nothing.\<close>

lemma DummyHash_once:
  assumes "DummyHash idkey r once = (h, once')"
  shows "DummyHash idkey r' once' = (h, once')"
  using assms by (auto simp: DummyHash_def Let_def split: option.splits)

lemma Active_iff:
  "Active r now \<longleftrightarrow> kr_RevokedAt r = None \<and> (\<forall>t. kr_ExpiresAt r = Some t \<longrightarrow> now < t)"
  by (auto simp: Active_def split: option.splits)

lemma Active_antimono: "Active r now \<Longrightarrow> now' \<le> now \<Longrightarrow> Active r now'"
  by (auto simp: Active_iff)

end
