(* ===== verification/Lru.thy ===== *)
theory Lru
  imports Prelude
begin

text \<open>
  The fixed-size LRU cache of \<^verbatim>\<open>github.com/hashicorp/golang-lru/v2\<close>, which is not part
  of the repository: its operations are a parameter (\<open>lru_ops\<close>) of the
  definitions that use it, and \<open>lru_cache\<close> states what the library
  documents.  \<open>view\<close> is the key-value content of a cache, \<open>ok\<close> its
  well-formedness and \<open>cap\<close> its size.  An entry may disappear at any
  \<open>lru_add\<close> of another key (eviction), but no entry is ever made up.
\<close>

record ('l, 'v) lru_ops =
  lru_get :: "'l \<Rightarrow> string \<Rightarrow> 'v option \<times> 'l"
  lru_add :: "'l \<Rightarrow> string \<Rightarrow> 'v \<Rightarrow> 'l"
  lru_remove :: "'l \<Rightarrow> string \<Rightarrow> 'l"
  lru_len :: "'l \<Rightarrow> nat"

locale lru_cache =
  fixes ops :: "('l, 'v) lru_ops"
    and view :: "'l \<Rightarrow> string \<Rightarrow> 'v option"
    and ok :: "'l \<Rightarrow> bool"
    and cap :: nat
  assumes get_value: "fst (lru_get ops l k) = view l k"
    and get_view: "view (snd (lru_get ops l k)) = view l"
    and add_same: "view (lru_add ops l k v) k = Some v"
    and add_other: "k' \<noteq> k \<Longrightarrow> view (lru_add ops l k v) k' = Some w \<Longrightarrow> view l k' = Some w"
    and remove_view: "view (lru_remove ops l k) = (view l)(k := None)"
    and len_le: "ok l \<Longrightarrow> lru_len ops l \<le> cap"
    and get_ok: "ok l \<Longrightarrow> ok (snd (lru_get ops l k))"
    and add_ok: "ok l \<Longrightarrow> ok (lru_add ops l k v)"
    and remove_ok: "ok l \<Longrightarrow> ok (lru_remove ops l k)"
begin

lemmas lru_view = get_value get_view add_same remove_view

lemma get_cases: "lru_get ops l k = (view l k, snd (lru_get ops l k))"
  by (metis get_value prod.collapse)

lemma add_sub:
  "view (lru_add ops l k v) k' = Some w \<Longrightarrow> k' = k \<and> w = v \<or> k' \<noteq> k \<and> view l k' = Some w"
  using add_other add_same by (metis option.inject)

end

section \<open>A reference implementation\<close>

text \<open>
  Entries in order of recency, most recent first; adding to a full cache
  drops the least recently used entry.
\<close>

definition list_lru :: "nat \<Rightarrow> ((string \<times> 'v) list, 'v) lru_ops" where
  "list_lru cap = \<lparr>
     lru_get = (\<lambda>l k. case map_of l k of
        None \<Rightarrow> (None, l)
      | Some v \<Rightarrow> (Some v, (k, v) # filter (\<lambda>e. fst e \<noteq> k) l)),
     lru_add = (\<lambda>l k v. take cap ((k, v) # filter (\<lambda>e. fst e \<noteq> k) l)),
     lru_remove = (\<lambda>l k. filter (\<lambda>e. fst e \<noteq> k) l),
     lru_len = length \<rparr>"

definition list_lru_ok :: "nat \<Rightarrow> (string \<times> 'v) list \<Rightarrow> bool" where
  "list_lru_ok cap l \<longleftrightarrow> length l \<le> cap \<and> distinct (map fst l)"

lemma map_of_take: "map_of (take n l) k = Some v \<Longrightarrow> map_of l k = Some v"
  by (induction l arbitrary: n) (auto simp: take_Cons split: nat.splits if_splits)

lemma distinct_filter_key: "distinct (map fst l) \<Longrightarrow> distinct (map fst (filter P l))"
  by (simp add: distinct_map_filter)

lemma list_lru_get_ok:
  assumes "list_lru_ok cap l"
  shows "list_lru_ok cap (snd (lru_get (list_lru cap) l k))"
proof (cases "map_of l k")
  case None
  with assms show ?thesis by (simp add: list_lru_def)
next
  case (Some v)
  then have kv: "(k, v) \<in> set l" by (rule map_of_SomeD)
  then have "length (filter (\<lambda>e. fst e \<noteq> k) l) < length l"
    by (intro length_filter_less) auto
  with assms Some show ?thesis
    by (auto simp: list_lru_def list_lru_ok_def distinct_filter_key)
qed

interpretation list_lru: lru_cache "list_lru (Suc n)" map_of "list_lru_ok (Suc n)" "Suc n" for n
proof (unfold_locales, goal_cases)
  case (1 l k) show ?case by (simp add: list_lru_def split: option.split)
next
  case (2 l k) show ?case
    by (auto simp: list_lru_def map_of_filter_key fun_eq_iff split: option.split)
next
  case (3 l k v) show ?case by (simp add: list_lru_def)
next
  case (4 k' k l v w) then show ?case
    by (auto simp: list_lru_def map_of_filter_key dest: map_of_take)
next
  case (5 l k) show ?case by (simp add: list_lru_def map_of_filter_key)
next
  case (6 l) then show ?case by (simp add: list_lru_def list_lru_ok_def)
next
  case (7 l k) then show ?case by (rule list_lru_get_ok)
next
  case (8 l k v)
  then have "distinct (map fst (filter (\<lambda>e. fst e \<noteq> k) l))"
    by (auto simp: list_lru_ok_def distinct_filter_key)
  then have "distinct (map fst (take n (filter (\<lambda>e. fst e \<noteq> k) l)))"
    by (metis distinct_take take_map)
  then show ?case by (auto simp: list_lru_def list_lru_ok_def dest: in_set_takeD)
next
  case (9 l k) then show ?case
    by (auto simp: list_lru_def list_lru_ok_def distinct_filter_key intro: le_trans[OF length_filter_le])
qed

end
