(* ===== verification/VerifyCache.thy ===== *)
theory VerifyCache
  imports Keys Lru
begin

text \<open>
  The verification cache (\<^verbatim>\<open>internal/auth/cache.go\<close>): an LRU of verified key records
  with a time-to-live, plus a set of key row ids that were forcibly evicted.
\<close>

section \<open>State and operations\<close>

record cachedKey =
  ck_rec :: KeyRecord
  ck_verifiedAt :: instant

record 'l VerifyCache =
  vc_lru :: 'l
  vc_ttl :: duration
  vc_revoked :: "string set"

definition minute :: duration where "minute = 60 * 1000000000"

text \<open>\<open>lru_new\<close> is the library's constructor: an error or an empty cache of the given size.\<close>

definition NewVerifyCache :: "(int \<Rightarrow> 'l result) \<Rightarrow> int \<Rightarrow> duration \<Rightarrow> 'l VerifyCache result" where
  "NewVerifyCache lru_new size0 ttl0 =
    (let size = (if size0 \<le> 0 then 1024 else size0);
         ttl = (if ttl0 \<le> 0 then 5 * minute else ttl0)
     in case lru_new size of Inl e \<Rightarrow> Inl e
        | Inr c \<Rightarrow> Inr \<lparr> vc_lru = c, vc_ttl = ttl, vc_revoked = {} \<rparr>)"

definition cache_Get ::
  "('l, cachedKey) lru_ops \<Rightarrow> instant \<Rightarrow> 'l VerifyCache \<Rightarrow> string \<Rightarrow> KeyRecord option \<times> 'l VerifyCache" where
  "cache_Get ops now c token =
    (case lru_get ops (vc_lru c) token of
       (None, l) \<Rightarrow> (None, c\<lparr>vc_lru := l\<rparr>)
     | (Some v, l) \<Rightarrow>
        if now - ck_verifiedAt v > vc_ttl c
        then (None, c\<lparr>vc_lru := lru_remove ops l token\<rparr>)
        else if kr_ID (ck_rec v) \<in> vc_revoked c
        then (None, c\<lparr>vc_lru := lru_remove ops l token\<rparr>)
        else (Some (ck_rec v), c\<lparr>vc_lru := l\<rparr>))"

definition cache_Put ::
  "('l, cachedKey) lru_ops \<Rightarrow> instant \<Rightarrow> 'l VerifyCache \<Rightarrow> string \<Rightarrow> KeyRecord \<Rightarrow> 'l VerifyCache" where
  "cache_Put ops now c token rec =
    c\<lparr>vc_revoked := vc_revoked c - {kr_ID rec},
      vc_lru := lru_add ops (vc_lru c) token \<lparr>ck_rec = rec, ck_verifiedAt = now\<rparr>\<rparr>"

definition RevokeByDBID :: "'l VerifyCache \<Rightarrow> string \<Rightarrow> 'l VerifyCache" where
  "RevokeByDBID c keyDBID =
    (if keyDBID = [] then c else c\<lparr>vc_revoked := insert keyDBID (vc_revoked c)\<rparr>)"

definition cache_Len :: "('l, cachedKey) lru_ops \<Rightarrow> 'l VerifyCache \<Rightarrow> nat" where
  "cache_Len ops c = lru_len ops (vc_lru c)"

section \<open>Abstract specification: an unbounded table of verifications\<close>

text \<open>
  The specification forgets nothing by itself: it records, per token, the
  last verification and its time, and the set of row ids evicted since their
  last verification.  A lookup is an entry that is fresh and not evicted.
\<close>

definition sample_key :: KeyRecord where
  "sample_key = \<lparr> kr_ID = ''1'', kr_WorkspaceID = ''w'', kr_KeyID = ''k'', kr_SecretHash = ''h'',
     kr_Env = ''dev'', kr_PgRole = ''dbuser'', kr_Name = ''n'', kr_CreatedAt = 0,
     kr_LastUsedAt = None, kr_ExpiresAt = None, kr_RevokedAt = None, kr_ReplacesKeyID = None \<rparr>"

record spec_cache =
  sc_entries :: "string \<Rightarrow> cachedKey option"
  sc_revoked :: "string set"

definition spec_empty :: spec_cache where
  "spec_empty = \<lparr> sc_entries = (\<lambda>_. None), sc_revoked = {} \<rparr>"

definition spec_lookup :: "duration \<Rightarrow> instant \<Rightarrow> spec_cache \<Rightarrow> string \<Rightarrow> KeyRecord option" where
  "spec_lookup ttl now s token =
    (case sc_entries s token of
       Some v \<Rightarrow> if now - ck_verifiedAt v \<le> ttl \<and> kr_ID (ck_rec v) \<notin> sc_revoked s
                 then Some (ck_rec v) else None
     | None \<Rightarrow> None)"

datatype cache_op =
    OpGet instant string
  | OpPut instant string KeyRecord
  | OpRevoke string

fun spec_step :: "duration \<Rightarrow> spec_cache \<Rightarrow> cache_op \<Rightarrow> KeyRecord option \<times> spec_cache" where
  "spec_step ttl s (OpGet now token) = (spec_lookup ttl now s token, s)"
| "spec_step ttl s (OpPut now token rec) =
    (None, s\<lparr>sc_entries := (sc_entries s)(token \<mapsto> \<lparr>ck_rec = rec, ck_verifiedAt = now\<rparr>),
             sc_revoked := sc_revoked s - {kr_ID rec}\<rparr>)"
| "spec_step ttl s (OpRevoke i) = (None, if i = [] then s else s\<lparr>sc_revoked := insert i (sc_revoked s)\<rparr>)"

fun cache_step ::
  "('l, cachedKey) lru_ops \<Rightarrow> 'l VerifyCache \<Rightarrow> cache_op \<Rightarrow> KeyRecord option \<times> 'l VerifyCache" where
  "cache_step ops c (OpGet now token) = cache_Get ops now c token"
| "cache_step ops c (OpPut now token rec) = (None, cache_Put ops now c token rec)"
| "cache_step ops c (OpRevoke i) = (None, RevokeByDBID c i)"

text \<open>The answers of a run, in order.\<close>

fun spec_run :: "duration \<Rightarrow> spec_cache \<Rightarrow> cache_op list \<Rightarrow> KeyRecord option list" where
  "spec_run ttl s [] = []"
| "spec_run ttl s (x # xs) = (let (r, s') = spec_step ttl s x in r # spec_run ttl s' xs)"

fun cache_run :: "('l, cachedKey) lru_ops \<Rightarrow> 'l VerifyCache \<Rightarrow> cache_op list \<Rightarrow> KeyRecord option list" where
  "cache_run ops c [] = []"
| "cache_run ops c (x # xs) = (let (r, c') = cache_step ops c x in r # cache_run ops c' xs)"

section \<open>Refinement\<close>

text \<open>
  The simulation: what the implementation still holds is what the
  specification recorded (the LRU may have dropped more), and both have
  the same evicted ids.
\<close>

definition cache_sim :: "('l \<Rightarrow> string \<Rightarrow> cachedKey option) \<Rightarrow> 'l VerifyCache \<Rightarrow> spec_cache \<Rightarrow> bool" where
  "cache_sim view c s \<longleftrightarrow>
    (\<forall>k v. view (vc_lru c) k = Some v \<longrightarrow> sc_entries s k = Some v) \<and> vc_revoked c = sc_revoked s"

definition cache_exec :: "('l, cachedKey) lru_ops \<Rightarrow> 'l VerifyCache \<Rightarrow> cache_op list \<Rightarrow> 'l VerifyCache" where
  "cache_exec ops = foldl (\<lambda>c x. snd (cache_step ops c x))"

fun puts_id :: "string \<Rightarrow> cache_op \<Rightarrow> bool" where
  "puts_id i (OpPut _ _ rec) \<longleftrightarrow> kr_ID rec = i"
| "puts_id i _ \<longleftrightarrow> False"

text \<open>The verification cache over any LRU that keeps the documented laws.\<close>

locale verify_cache = lru_cache ops view ok cap
  for ops :: "('l, cachedKey) lru_ops" and view ok cap
begin

lemma Get_value:
  "fst (cache_Get ops now c token) =
    (case view (vc_lru c) token of
       Some v \<Rightarrow> if now - ck_verifiedAt v \<le> vc_ttl c \<and> kr_ID (ck_rec v) \<notin> vc_revoked c
                 then Some (ck_rec v) else None
     | None \<Rightarrow> None)"
  by (subst cache_Get_def, subst get_cases) (auto split: option.split)

lemma Get_view:
  "view (vc_lru (snd (cache_Get ops now c token))) =
    (if fst (cache_Get ops now c token) = None then (view (vc_lru c))(token := None)
     else view (vc_lru c))"
proof (cases "view (vc_lru c) token")
  case None
  then show ?thesis unfolding cache_Get_def by (subst (1 2) get_cases) (auto simp: lru_view)
next
  case (Some v)
  then show ?thesis unfolding cache_Get_def by (subst (1 2) get_cases) (simp add: lru_view)
qed

lemma Get_frame [simp]:
  "vc_ttl (snd (cache_Get ops now c token)) = vc_ttl c"
  "vc_revoked (snd (cache_Get ops now c token)) = vc_revoked c"
  unfolding cache_Get_def by (auto split: prod.split option.split)

lemma Get_ok: "ok (vc_lru c) \<Longrightarrow> ok (vc_lru (snd (cache_Get ops now c token)))"
  unfolding cache_Get_def
  by (subst get_cases) (auto split: option.split intro: get_ok remove_ok)

lemma step_frame [simp]:
  "vc_ttl (snd (cache_step ops c x)) = vc_ttl c"
  by (cases x) (simp_all add: cache_Put_def RevokeByDBID_def)

lemma step_ok: "ok (vc_lru c) \<Longrightarrow> ok (vc_lru (snd (cache_step ops c x)))"
  by (cases x) (simp_all add: Get_ok cache_Put_def RevokeByDBID_def add_ok)

lemma exec_ok: "ok (vc_lru c) \<Longrightarrow> ok (vc_lru (cache_exec ops c xs))"
  by (induction xs arbitrary: c) (simp_all add: cache_exec_def step_ok)

lemma exec_len: "ok (vc_lru c) \<Longrightarrow> cache_Len ops (cache_exec ops c xs) \<le> cap"
  by (simp add: cache_Len_def len_le exec_ok)

lemma step_sim:
  assumes "cache_sim view c s"
  shows "cache_sim view (snd (cache_step ops c x)) (snd (spec_step (vc_ttl c) s x))"
proof (cases x)
  case (OpGet now token)
  with assms show ?thesis by (simp add: cache_sim_def Get_view)
next
  case (OpPut now token rec)
  with assms show ?thesis
    by (auto simp: cache_sim_def cache_Put_def dest: add_sub)
next
  case (OpRevoke i)
  with assms show ?thesis by (auto simp: cache_sim_def RevokeByDBID_def)
qed

lemma step_answer:
  assumes "cache_sim view c s"
  shows "fst (cache_step ops c x) = None \<or> fst (cache_step ops c x) = fst (spec_step (vc_ttl c) s x)"
  using assms
  by (cases x) (auto simp: cache_sim_def Get_value spec_lookup_def split: option.splits)

lemma run_sim:
  "cache_sim view c s \<Longrightarrow>
    list_all2 (\<lambda>i a. i = None \<or> i = a) (cache_run ops c xs) (spec_run (vc_ttl c) s xs)"
proof (induction xs arbitrary: c s)
  case (Cons x xs)
  have "list_all2 (\<lambda>i a. i = None \<or> i = a)
      (cache_run ops (snd (cache_step ops c x)) xs)
      (spec_run (vc_ttl c) (snd (spec_step (vc_ttl c) s x)) xs)"
    using Cons.IH[OF step_sim[OF Cons.prems, of x]] by simp
  with step_answer[OF Cons.prems, of x] show ?case
    by (simp add: case_prod_beta Let_def)
qed simp

lemma step_keeps_revoked:
  "i \<in> vc_revoked c \<Longrightarrow> \<not> puts_id i x \<Longrightarrow> i \<in> vc_revoked (snd (cache_step ops c x))"
  by (cases x) (auto simp: cache_Put_def RevokeByDBID_def)

lemma exec_keeps_revoked:
  "i \<in> vc_revoked c \<Longrightarrow> \<forall>x\<in>set xs. \<not> puts_id i x \<Longrightarrow> i \<in> vc_revoked (cache_exec ops c xs)"
  by (induction xs arbitrary: c) (simp_all add: cache_exec_def step_keeps_revoked)

lemma Get_not_revoked:
  "fst (cache_Get ops now c token) = Some r \<Longrightarrow> kr_ID r \<notin> vc_revoked c"
  by (auto simp: Get_value split: option.splits if_splits)

lemma Get_after_Put:
  "now' - now \<le> vc_ttl c \<Longrightarrow> fst (cache_Get ops now' (cache_Put ops now c token rec) token) = Some rec"
  by (simp add: Get_value cache_Put_def add_same)

end

interpretation vc: verify_cache "list_lru (Suc n)" map_of "list_lru_ok (Suc n)" "Suc n" for n
  by unfold_locales

section \<open>Properties\<close>

text \<open>
  (C5) The cache refines its specification: over any LRU library that keeps
  its documented laws, every answer of a run of Get, Put and RevokeByDBID
  calls that starts with an empty cache is a miss or the answer of the
  unbounded specification, that is, the record of the last Put for that very
  token, no older than the TTL, whose row id was not evicted after its last
  Put.
\<close>

theorem cache_refines_spec:
  assumes "lru_cache ops view ok cap"
    and "NewVerifyCache lru_new size0 ttl0 = Inr c"
    and "\<And>n l. lru_new n = Inr l \<Longrightarrow> view l = (\<lambda>_. None)"
  shows "list_all2 (\<lambda>i a. i = None \<or> i = a)
           (cache_run ops c xs) (spec_run (vc_ttl c) spec_empty xs)"
proof -
  have "cache_sim view c spec_empty"
    using assms(2,3)
    by (auto simp: NewVerifyCache_def cache_sim_def spec_empty_def Let_def split: sum.splits)
  then show ?thesis by (rule verify_cache.run_sim[OF verify_cache.intro[OF assms(1)]])
qed

theorem cache_refines_spec_witness:
  "list_all2 (\<lambda>i a. i = None \<or> i = a)
     (cache_run (list_lru (Suc 0)) \<lparr>vc_lru = [], vc_ttl = 5, vc_revoked = {}\<rparr>
        [OpPut 0 ''a'' sample_key, OpGet 3 ''a'', OpPut 4 ''b'' sample_key, OpGet 5 ''a''])
     (spec_run 5 spec_empty [OpPut 0 ''a'' sample_key, OpGet 3 ''a'', OpPut 4 ''b'' sample_key, OpGet 5 ''a''])"
  using cache_refines_spec[of "list_lru (Suc 0)" map_of "list_lru_ok (Suc 0)" "Suc 0"
      "\<lambda>n. Inr []" 1 5 "\<lparr>vc_lru = [], vc_ttl = 5, vc_revoked = {}\<rparr>"]
    list_lru.lru_cache_axioms[of 0]
  by (simp add: NewVerifyCache_def del: cache_run.simps spec_run.simps)



end
