(* ===== verification/Pg.thy ===== *)
theory Pg
  imports GoErrors
begin

text \<open>
  What the gateway uses of the Postgres driver (\<^verbatim>\<open>pgx\<close>): single-row queries,
  statements run on their own, and transactions.  The driver is not part of
  the repository; \<open>pg_env\<close> holds everything it decides during one operation.
  Any call may fail.  A failed call that would have written may or may not
  have reached the server (\<open>pg_landed\<close>): after an error from
  \<^verbatim>\<open>Commit\<close> the caller cannot tell.  Table contents are explicit state.
\<close>

record pg_env =
  pg_now :: instant                         \<comment> \<open>\<open>now()\<close>\<close>
  pg_begin :: "go_error option"             \<comment> \<open>outcome of BeginTx\<close>
  pg_stmt :: "nat \<Rightarrow> go_error option"       \<comment> \<open>outcome of the n-th statement of the operation\<close>
  pg_commit :: "go_error option"            \<comment> \<open>outcome of Commit\<close>
  pg_landed :: bool                         \<comment> \<open>did a failed write still take effect\<close>

definition pg_fine :: "instant \<Rightarrow> pg_env" where
  "pg_fine now = \<lparr> pg_now = now, pg_begin = None, pg_stmt = (\<lambda>_. None), pg_commit = None, pg_landed = False \<rparr>"

text \<open>\<^verbatim>\<open>QueryRow(...).Scan(...)\<close>: the first row, or \<^verbatim>\<open>pgx.ErrNoRows\<close>.\<close>

definition query_row :: "pg_env \<Rightarrow> nat \<Rightarrow> 'r list \<Rightarrow> 'r result" where
  "query_row env n rows =
    (case pg_stmt env n of Some e \<Rightarrow> Inl e
     | None \<Rightarrow> (case rows of [] \<Rightarrow> Inl (Sentinel ErrNoRows) | r # _ \<Rightarrow> Inr r))"

text \<open>\<^verbatim>\<open>tx.Exec\<close>: inside a transaction a failed statement leaves nothing to keep.\<close>

definition tx_exec :: "pg_env \<Rightarrow> nat \<Rightarrow> ('db \<Rightarrow> 'db result) \<Rightarrow> 'db \<Rightarrow> 'db result" where
  "tx_exec env n f db = (case pg_stmt env n of Some e \<Rightarrow> Inl e | None \<Rightarrow> f db)"

text \<open>\<^verbatim>\<open>pool.Exec\<close>: the statement is its own transaction.\<close>

definition pool_exec :: "pg_env \<Rightarrow> nat \<Rightarrow> ('db \<Rightarrow> 'db result) \<Rightarrow> 'db \<Rightarrow> go_error option \<times> 'db" where
  "pool_exec env n f db =
    (case f db of Inl e \<Rightarrow> (Some e, db)
     | Inr db' \<Rightarrow>
        (case pg_stmt env n of None \<Rightarrow> (None, db')
         | Some e \<Rightarrow> (Some e, if pg_landed env then db' else db)))"

text \<open>\<^verbatim>\<open>BeginTx\<close>, \<^verbatim>\<open>defer Rollback\<close>, the body, \<^verbatim>\<open>Commit\<close>.\<close>

definition in_tx :: "pg_env \<Rightarrow> ('db \<Rightarrow> ('a \<times> 'db) result) \<Rightarrow> 'db \<Rightarrow> 'a result \<times> 'db" where
  "in_tx env body db =
    (case pg_begin env of Some e \<Rightarrow> (Inl e, db)
     | None \<Rightarrow>
        (case body db of
           Inl e \<Rightarrow> (Inl e, db)
         | Inr (x, db') \<Rightarrow>
            (case pg_commit env of None \<Rightarrow> (Inr x, db')
             | Some e \<Rightarrow> (Inl e, if pg_landed env then db' else db))))"

lemma pg_fine_simps [simp]:
  "pg_now (pg_fine t) = t" "pg_begin (pg_fine t) = None" "pg_stmt (pg_fine t) = (\<lambda>_. None)"
  "pg_commit (pg_fine t) = None" "pg_landed (pg_fine t) = False"
  by (simp_all add: pg_fine_def)

lemma query_row_ok [ok_iff]:
  "query_row env n rows = Inr r \<longleftrightarrow> pg_stmt env n = None \<and> rows \<noteq> [] \<and> r = hd rows"
  by (auto simp: query_row_def split: option.splits list.splits)

lemma tx_exec_ok [ok_iff]: "tx_exec env n f db = Inr db' \<longleftrightarrow> pg_stmt env n = None \<and> f db = Inr db'"
  by (simp add: tx_exec_def split: option.splits)

text \<open>A transaction is all or nothing: an answer means the body's effect was
  kept, and any other outcome left the old state or the body's full effect.\<close>

lemma in_tx_ok:
  "in_tx env body db = (Inr x, db') \<longleftrightarrow>
    pg_begin env = None \<and> body db = Inr (x, db') \<and> pg_commit env = None"
  by (auto simp: in_tx_def split: option.splits sum.splits)

lemma in_tx_state:
  "snd (in_tx env body db) = db \<or> (\<exists>x. body db = Inr (x, snd (in_tx env body db)))"
  by (auto simp: in_tx_def split: option.splits sum.splits)

lemma in_tx_err:
  "in_tx env body db = (Inl e, db') \<Longrightarrow> db' = db \<or> pg_landed env \<and> (\<exists>x. body db = Inr (x, db'))"
  by (auto simp: in_tx_def split: option.splits sum.splits if_splits)

lemma in_tx_inv:
  assumes "P db" and "\<And>x db'. body db = Inr (x, db') \<Longrightarrow> P db'"
  shows "P (snd (in_tx env body db))"
  using in_tx_state[of env body db] assms by metis

lemma pool_exec_state:
  "snd (pool_exec env n f db) = db \<or> f db = Inr (snd (pool_exec env n f db))"
  by (auto simp: pool_exec_def split: option.splits sum.splits)

lemma pool_exec_inv:
  assumes "P db" and "\<And>db'. f db = Inr db' \<Longrightarrow> P db'"
  shows "P (snd (pool_exec env n f db))"
  using pool_exec_state[of env n f db] assms by metis

lemma pool_exec_ok:
  "pool_exec env n f db = (None, db') \<longleftrightarrow> f db = Inr db' \<and> pg_stmt env n = None"
  by (auto simp: pool_exec_def split: option.splits sum.splits)

end
