(* ===== verification/KeyStore.thy ===== *)
theory KeyStore
  imports Keys Pg
begin

text \<open>
  The key store (\<^verbatim>\<open>internal/auth/store.go\<close>) over the tables of migration
  0001: looking a key up, touching, creating, revoking and rotating it.

  A UUID is its canonical text; \<open>uuid_parse\<close> stands for \<^verbatim>\<open>uuid.Parse\<close> of
  \<^verbatim>\<open>github.com/google/uuid\<close>, and \<open>pg_interval\<close> for what Postgres makes of the
  text \<^verbatim>\<open>overlap.String()\<close> as an interval.
\<close>

section \<open>Tables\<close>

record api_key_row =
  ak_id :: string
  ak_workspace_id :: string
  ak_key_id :: string
  ak_secret_hash :: string
  ak_env :: string
  ak_pg_role :: string
  ak_name :: "string option"
  ak_created_at :: instant
  ak_last_used_at :: "instant option"
  ak_expires_at :: "instant option"
  ak_revoked_at :: "instant option"
  ak_replaces_key_id :: "string option"

record key_db =
  kd_workspaces :: "string list"     \<comment> \<open>ids of \<open>workspaces\<close>\<close>
  kd_roles :: "string list"          \<comment> \<open>\<open>pg_roles.rolname\<close>\<close>
  kd_gateway_roles :: "string list"  \<comment> \<open>roles agentcoopdb_gateway has USAGE of\<close>
  kd_api_keys :: "api_key_row list"

definition pg_fail :: "string \<Rightarrow> string \<Rightarrow> 'a result" where
  "pg_fail code msg = Inl (PgErr \<lparr> Code = code, Message = msg \<rparr>)"

text \<open>The constraints of the table: primary key, unique key_id, CHECK on env, two foreign keys.\<close>

definition insert_api_key :: "api_key_row \<Rightarrow> key_db \<Rightarrow> key_db result" where
  "insert_api_key r db =
    (if \<not> IsValid (ak_env r) then pg_fail ''23514'' ''check constraint'' else
     if ak_id r \<in> set (map ak_id (kd_api_keys db)) then pg_fail ''23505'' ''duplicate key'' else
     if ak_key_id r \<in> set (map ak_key_id (kd_api_keys db)) then pg_fail ''23505'' ''duplicate key'' else
     if ak_workspace_id r \<notin> set (kd_workspaces db) then pg_fail ''23503'' ''foreign key'' else
     case ak_replaces_key_id r of
       Some i \<Rightarrow> if i \<notin> set (map ak_id (kd_api_keys db)) then pg_fail ''23503'' ''foreign key''
                 else Inr (db\<lparr>kd_api_keys := kd_api_keys db @ [r]\<rparr>)
     | None \<Rightarrow> Inr (db\<lparr>kd_api_keys := kd_api_keys db @ [r]\<rparr>))"

definition update_api_keys :: "(api_key_row \<Rightarrow> bool) \<Rightarrow> (api_key_row \<Rightarrow> api_key_row) \<Rightarrow> key_db \<Rightarrow> key_db result" where
  "update_api_keys p f db = Inr (db\<lparr>kd_api_keys := upd_rows p f (kd_api_keys db)\<rparr>)"

text \<open>\<^verbatim>\<open>NULLIF(x, '')\<close> and \<^verbatim>\<open>coalesce(x, '')\<close>.\<close>

definition nullif_empty :: "string \<Rightarrow> string option" where
  "nullif_empty s = (if s = [] then None else Some s)"

definition coalesce_empty :: "string option \<Rightarrow> string" where
  "coalesce_empty o1 = (case o1 of None \<Rightarrow> [] | Some s \<Rightarrow> s)"

section \<open>Operations\<close>

definition scan_key :: "api_key_row \<Rightarrow> KeyRecord" where
  "scan_key r = \<lparr> kr_ID = ak_id r, kr_WorkspaceID = ak_workspace_id r, kr_KeyID = ak_key_id r,
     kr_SecretHash = ak_secret_hash r, kr_Env = ak_env r, kr_PgRole = ak_pg_role r,
     kr_Name = coalesce_empty (ak_name r), kr_CreatedAt = ak_created_at r,
     kr_LastUsedAt = ak_last_used_at r, kr_ExpiresAt = ak_expires_at r,
     kr_RevokedAt = ak_revoked_at r, kr_ReplacesKeyID = ak_replaces_key_id r \<rparr>"

definition FindByKeyID :: "pg_env \<Rightarrow> key_db \<Rightarrow> string \<Rightarrow> KeyRecord result" where
  "FindByKeyID env db keyID =
    (case query_row env 0 (filter (\<lambda>r. ak_key_id r = keyID) (kd_api_keys db)) of
       Inl e \<Rightarrow> if errors_is e ErrNoRows then Inl (Sentinel ErrKeyNotFound)
                else Inl (Errorf ''api_keys lookup: '' e '''')
     | Inr r \<Rightarrow> Inr (scan_key r))"

definition TouchLastUsed ::
  "(string \<Rightarrow> string result) \<Rightarrow> pg_env \<Rightarrow> string \<Rightarrow> key_db \<Rightarrow> go_error option \<times> key_db" where
  "TouchLastUsed uuid_parse env i db =
    (case uuid_parse i of Inl e \<Rightarrow> (Some e, db)
     | Inr u \<Rightarrow> pool_exec env 0
         (update_api_keys (\<lambda>r. ak_id r = u) (\<lambda>r. r\<lparr>ak_last_used_at := Some (pg_now env)\<rparr>)) db)"

record CreateKeyInput =
  in_WorkspaceID :: string
  in_Env :: string
  in_PgRole :: string
  in_Name :: string
  in_ExpiresAt :: "instant option"

record CreatedKey =
  crk_ID :: string
  crk_KeyID :: string
  crk_FullToken :: string
  crk_Record :: KeyRecord

text \<open>What a call draws from outside: three reads of random bytes, a fresh UUID and the clock.\<close>

record mint_env =
  me_id :: "bytes result"
  me_secret :: "bytes result"
  me_salt :: "bytes result"
  me_uuid :: string
  me_now :: instant

text \<open>The body of the transaction of \<^verbatim>\<open>Create\<close>: role checks, then the insert.\<close>

definition create_tx ::
  "pg_env \<Rightarrow> CreateKeyInput \<Rightarrow> string \<Rightarrow> string \<Rightarrow> string \<Rightarrow> string \<Rightarrow> key_db \<Rightarrow> (unit \<times> key_db) result" where
  "create_tx env inp u wsID keyID hash db =
    (case query_row env 0 [in_PgRole inp \<in> set (kd_roles db)] of
       Inl e \<Rightarrow> Inl (Errorf ''role exists check: '' e '''')
     | Inr roleOK \<Rightarrow>
     if \<not> roleOK then Inl (Opaque (''postgres role '' @ go_quote (in_PgRole inp) @ '' does not exist'')) else
     case query_row env 1 [in_PgRole inp \<in> set (kd_gateway_roles db)] of
       Inl e \<Rightarrow> Inl (Errorf ''role membership check: '' e '''')
     | Inr memberOK \<Rightarrow>
     if \<not> memberOK then Inl (Opaque (''agentcoopdb_gateway is not a member of '' @ go_quote (in_PgRole inp)
         @ '' '' @ [CHR 0xE2, CHR 0x80, CHR 0x94] @ '' run: GRANT '' @ go_quote (in_PgRole inp) @ '' TO agentcoopdb_gateway'')) else
     case tx_exec env 2 (insert_api_key
         \<lparr> ak_id = u, ak_workspace_id = wsID, ak_key_id = keyID, ak_secret_hash = hash,
           ak_env = in_Env inp, ak_pg_role = in_PgRole inp, ak_name = nullif_empty (in_Name inp),
           ak_created_at = pg_now env, ak_last_used_at = None, ak_expires_at = in_ExpiresAt inp,
           ak_revoked_at = None, ak_replaces_key_id = None \<rparr>) db of
       Inl e \<Rightarrow> Inl (Errorf ''insert api_keys: '' e '''')
     | Inr db' \<Rightarrow> Inr ((), db'))"

definition Create ::
  "(string \<Rightarrow> string result) \<Rightarrow> argon2 \<Rightarrow> mint_env \<Rightarrow> pg_env \<Rightarrow> CreateKeyInput \<Rightarrow> key_db
    \<Rightarrow> CreatedKey result \<times> key_db" where
  "Create uuid_parse idkey me env inp db =
    (if \<not> IsValid (in_Env inp) then (Inl (Opaque (''auth.Create: invalid env '' @ go_quote (in_Env inp))), db) else
     case uuid_parse (in_WorkspaceID inp) of Inl e \<Rightarrow> (Inl (Errorf ''workspace_id: '' e ''''), db) | Inr wsID \<Rightarrow>
     case Mint (in_Env inp) (me_id me) (me_secret me) of Inl e \<Rightarrow> (Inl e, db) | Inr (keyID, secret, fullToken) \<Rightarrow>
     case HashSecret idkey (me_salt me) secret of Inl e \<Rightarrow> (Inl e, db) | Inr hash \<Rightarrow>
     case in_tx env (create_tx env inp (me_uuid me) wsID keyID hash) db of
       (Inl e, db') \<Rightarrow> (Inl e, db')
     | (Inr _, db') \<Rightarrow>
        (Inr \<lparr> crk_ID = me_uuid me, crk_KeyID = keyID, crk_FullToken = fullToken,
           crk_Record = \<lparr> kr_ID = me_uuid me, kr_WorkspaceID = in_WorkspaceID inp, kr_KeyID = keyID,
             kr_SecretHash = hash, kr_Env = in_Env inp, kr_PgRole = in_PgRole inp, kr_Name = in_Name inp,
             kr_CreatedAt = me_now me, kr_LastUsedAt = None, kr_ExpiresAt = in_ExpiresAt inp,
             kr_RevokedAt = None, kr_ReplacesKeyID = None \<rparr> \<rparr>, db'))"

definition Revoke ::
  "(string \<Rightarrow> string result) \<Rightarrow> pg_env \<Rightarrow> string \<Rightarrow> key_db \<Rightarrow> go_error option \<times> key_db" where
  "Revoke uuid_parse env i db =
    (case uuid_parse i of Inl e \<Rightarrow> (Some e, db)
     | Inr u \<Rightarrow> pool_exec env 0
         (update_api_keys (\<lambda>r. ak_id r = u \<and> ak_revoked_at r = None)
            (\<lambda>r. r\<lparr>ak_revoked_at := Some (pg_now env)\<rparr>)) db)"

text \<open>The body of the transaction of \<^verbatim>\<open>Rotate\<close>: it reads the old row, mints,
  inserts the new row and gives the old one an expiry.\<close>

definition rotate_tx ::
  "(duration \<Rightarrow> duration result) \<Rightarrow> argon2 \<Rightarrow> mint_env \<Rightarrow> pg_env \<Rightarrow> string \<Rightarrow> duration \<Rightarrow> key_db
    \<Rightarrow> (CreatedKey \<times> key_db) result" where
  "rotate_tx pg_interval idkey me env oldU overlap db =
    (case query_row env 0 (filter (\<lambda>r. ak_id r = oldU) (kd_api_keys db)) of
       Inl e \<Rightarrow> if errors_is e ErrNoRows then Inl (Sentinel ErrKeyNotFound) else Inl e
     | Inr old \<Rightarrow>
     let wsID = ak_workspace_id old; envn = ak_env old; pgRole = ak_pg_role old;
         nameVal = coalesce_empty (ak_name old) in
     case Mint envn (me_id me) (me_secret me) of Inl e \<Rightarrow> Inl e | Inr (keyID, secret, fullToken) \<Rightarrow>
     case HashSecret idkey (me_salt me) secret of Inl e \<Rightarrow> Inl e | Inr hash \<Rightarrow>
     case tx_exec env 1 (insert_api_key
         \<lparr> ak_id = me_uuid me, ak_workspace_id = wsID, ak_key_id = keyID, ak_secret_hash = hash,
           ak_env = envn, ak_pg_role = pgRole, ak_name = nullif_empty nameVal,
           ak_created_at = pg_now env, ak_last_used_at = None, ak_expires_at = None,
           ak_revoked_at = None, ak_replaces_key_id = Some oldU \<rparr>) db of Inl e \<Rightarrow> Inl e
     | Inr db1 \<Rightarrow>
     case tx_exec env 2 (\<lambda>d. case pg_interval overlap of Inl e \<Rightarrow> Inl e
         | Inr dt \<Rightarrow> update_api_keys (\<lambda>r. ak_id r = oldU \<and> ak_revoked_at r = None)
             (\<lambda>r. r\<lparr>ak_expires_at := Some (pg_now env + dt)\<rparr>) d) db1 of Inl e \<Rightarrow> Inl e
     | Inr db2 \<Rightarrow>
       Inr (\<lparr> crk_ID = me_uuid me, crk_KeyID = keyID, crk_FullToken = fullToken,
           crk_Record = \<lparr> kr_ID = me_uuid me, kr_WorkspaceID = wsID, kr_KeyID = keyID,
             kr_SecretHash = hash, kr_Env = envn, kr_PgRole = pgRole, kr_Name = nameVal,
             kr_CreatedAt = me_now me, kr_LastUsedAt = None, kr_ExpiresAt = None,
             kr_RevokedAt = None, kr_ReplacesKeyID = None \<rparr> \<rparr>, db2))"

definition Rotate ::
  "(string \<Rightarrow> string result) \<Rightarrow> (duration \<Rightarrow> duration result) \<Rightarrow> argon2 \<Rightarrow> mint_env \<Rightarrow> pg_env
    \<Rightarrow> string \<Rightarrow> duration \<Rightarrow> key_db \<Rightarrow> CreatedKey result \<times> key_db" where
  "Rotate uuid_parse pg_interval idkey me env oldID overlap db =
    (case uuid_parse oldID of Inl e \<Rightarrow> (Inl e, db)
     | Inr oldU \<Rightarrow> in_tx env (rotate_tx pg_interval idkey me env oldU overlap) db)"

section \<open>Runs of the store\<close>

text \<open>Every operation that writes, with what it draws from outside.\<close>

datatype store_op =
    STouch pg_env string
  | SCreate mint_env pg_env CreateKeyInput
  | SRevoke pg_env string
  | SRotate mint_env pg_env string duration

fun store_step ::
  "(string \<Rightarrow> string result) \<Rightarrow> (duration \<Rightarrow> duration result) \<Rightarrow> argon2 \<Rightarrow> key_db \<Rightarrow> store_op \<Rightarrow> key_db" where
  "store_step up iv idkey db (STouch env i) = snd (TouchLastUsed up env i db)"
| "store_step up iv idkey db (SCreate me env inp) = snd (Create up idkey me env inp db)"
| "store_step up iv idkey db (SRevoke env i) = snd (Revoke up env i db)"
| "store_step up iv idkey db (SRotate me env i ov) = snd (Rotate up iv idkey me env i ov db)"

fun op_now :: "store_op \<Rightarrow> instant" where
  "op_now (STouch env i) = pg_now env"
| "op_now (SCreate me env inp) = pg_now env"
| "op_now (SRevoke env i) = pg_now env"
| "op_now (SRotate me env i ov) = pg_now env"

definition store_exec ::
  "(string \<Rightarrow> string result) \<Rightarrow> (duration \<Rightarrow> duration result) \<Rightarrow> argon2 \<Rightarrow> key_db \<Rightarrow> store_op list \<Rightarrow> key_db" where
  "store_exec up iv idkey = foldl (store_step up iv idkey)"

section \<open>Table invariant\<close>

definition wf_keys :: "key_db \<Rightarrow> bool" where
  "wf_keys db \<longleftrightarrow>
    distinct (map ak_id (kd_api_keys db)) \<and> distinct (map ak_key_id (kd_api_keys db))
    \<and> (\<forall>r\<in>set (kd_api_keys db). IsValid (ak_env r) \<and> ak_workspace_id r \<in> set (kd_workspaces db)
        \<and> (\<forall>i. ak_replaces_key_id r = Some i \<longrightarrow> i \<in> set (map ak_id (kd_api_keys db))))"

text \<open>What no write changes of a row, and that a revocation is final.\<close>

definition row_le :: "api_key_row \<Rightarrow> api_key_row \<Rightarrow> bool" where
  "row_le r r' \<longleftrightarrow>
    ak_id r' = ak_id r \<and> ak_workspace_id r' = ak_workspace_id r \<and> ak_key_id r' = ak_key_id r
    \<and> ak_secret_hash r' = ak_secret_hash r \<and> ak_env r' = ak_env r \<and> ak_pg_role r' = ak_pg_role r
    \<and> ak_name r' = ak_name r \<and> ak_created_at r' = ak_created_at r
    \<and> ak_replaces_key_id r' = ak_replaces_key_id r
    \<and> (ak_revoked_at r \<noteq> None \<longrightarrow> ak_revoked_at r' = ak_revoked_at r)"

definition db_le :: "key_db \<Rightarrow> key_db \<Rightarrow> bool" where
  "db_le db db' \<longleftrightarrow> (\<forall>r\<in>set (kd_api_keys db). \<exists>r'\<in>set (kd_api_keys db'). row_le r r')"

text \<open>One operation at time \<open>t\<close>: in addition, a row that becomes revoked is revoked at \<open>t\<close>.\<close>

definition row_step :: "instant \<Rightarrow> api_key_row \<Rightarrow> api_key_row \<Rightarrow> bool" where
  "row_step t r r' \<longleftrightarrow> row_le r r' \<and> (ak_revoked_at r' = ak_revoked_at r \<or> ak_revoked_at r' = Some t)"

definition db_step :: "instant \<Rightarrow> key_db \<Rightarrow> key_db \<Rightarrow> bool" where
  "db_step t db db' \<longleftrightarrow> (\<forall>r\<in>set (kd_api_keys db). \<exists>r'\<in>set (kd_api_keys db'). row_step t r r')"

lemma row_le_refl [simp]: "row_le r r"
  by (simp add: row_le_def)

lemma row_le_trans: "row_le a b \<Longrightarrow> row_le b c \<Longrightarrow> row_le a c"
  by (auto simp: row_le_def)

lemma row_step_refl [simp]: "row_step t r r"
  by (simp add: row_step_def)

lemma row_step_trans: "row_step t a b \<Longrightarrow> row_step t b c \<Longrightarrow> row_step t a c"
  by (auto simp: row_step_def row_le_def)

lemma db_le_refl [simp]: "db_le db db"
  unfolding db_le_def using row_le_refl by blast

lemma db_le_trans: "db_le a b \<Longrightarrow> db_le b c \<Longrightarrow> db_le a c"
  unfolding db_le_def using row_le_trans by meson

lemma db_step_refl [simp]: "db_step t db db"
  unfolding db_step_def using row_step_refl by blast

lemma db_step_trans: "db_step t a b \<Longrightarrow> db_step t b c \<Longrightarrow> db_step t a c"
  unfolding db_step_def using row_step_trans by meson

lemma db_step_le: "db_step t a b \<Longrightarrow> db_le a b"
  unfolding db_step_def db_le_def row_step_def by blast

lemma insert_api_key_ok [ok_iff]:
  "insert_api_key r db = Inr db' \<longleftrightarrow>
    IsValid (ak_env r) \<and> ak_id r \<notin> set (map ak_id (kd_api_keys db))
    \<and> ak_key_id r \<notin> set (map ak_key_id (kd_api_keys db)) \<and> ak_workspace_id r \<in> set (kd_workspaces db)
    \<and> (\<forall>i. ak_replaces_key_id r = Some i \<longrightarrow> i \<in> set (map ak_id (kd_api_keys db)))
    \<and> db' = db\<lparr>kd_api_keys := kd_api_keys db @ [r]\<rparr>"
  by (auto simp: insert_api_key_def pg_fail_def split: option.splits)

lemma insert_wf:
  assumes "insert_api_key r db = Inr db'" "wf_keys db"
  shows "wf_keys db'" "db_step t db db'"
proof -
  from assms show "wf_keys db'" by (auto simp: insert_api_key_ok wf_keys_def)
  from assms(1) have "set (kd_api_keys db) \<subseteq> set (kd_api_keys db')" by (auto simp: insert_api_key_ok)
  then show "db_step t db db'" unfolding db_step_def using row_step_refl by blast
qed

lemma update_wf:
  assumes "update_api_keys p f db = Inr db'" "wf_keys db"
    and le: "\<And>r. r \<in> set (kd_api_keys db) \<Longrightarrow> p r \<Longrightarrow> row_step t r (f r)"
  shows "wf_keys db'" "db_step t db db'"
proof -
  from assms(1) have db': "db' = db\<lparr>kd_api_keys := upd_rows p f (kd_api_keys db)\<rparr>"
    by (simp add: update_api_keys_def)
  have g: "row_step t r (if p r then f r else r)" if "r \<in> set (kd_api_keys db)" for r
    using le that by simp
  moreover have "(if p r then f r else r) \<in> set (kd_api_keys db')" if "r \<in> set (kd_api_keys db)" for r
    using that by (simp add: db' upd_rows_def)
  ultimately show "db_step t db db'" unfolding db_step_def by blast
  have m: "map ak_id (kd_api_keys db') = map ak_id (kd_api_keys db)"
    "map ak_key_id (kd_api_keys db') = map ak_key_id (kd_api_keys db)"
    using g by (auto simp: db' upd_rows_def row_step_def row_le_def)
  have "IsValid (ak_env r') \<and> ak_workspace_id r' \<in> set (kd_workspaces db')
      \<and> (\<forall>i. ak_replaces_key_id r' = Some i \<longrightarrow> i \<in> set (map ak_id (kd_api_keys db')))"
    if "r' \<in> set (kd_api_keys db')" for r'
  proof -
    from that obtain r where r: "r \<in> set (kd_api_keys db)" "r' = (if p r then f r else r)"
      by (fastforce simp: db' upd_rows_def)
    with g[OF r(1)] have "row_le r r'" by (simp add: row_step_def split: if_splits)
    with r(1) assms(2) show ?thesis unfolding wf_keys_def m by (auto simp: row_le_def db')
  qed
  with assms(2) show "wf_keys db'" unfolding wf_keys_def m by blast
qed

text \<open>The transactions, when they get to the commit.\<close>

lemma create_tx_ok [ok_iff]:
  "create_tx env inp u wsID keyID hash db = Inr (x, db') \<longleftrightarrow>
    pg_stmt env 0 = None \<and> pg_stmt env 1 = None \<and> pg_stmt env 2 = None
    \<and> in_PgRole inp \<in> set (kd_roles db) \<and> in_PgRole inp \<in> set (kd_gateway_roles db)
    \<and> insert_api_key \<lparr> ak_id = u, ak_workspace_id = wsID, ak_key_id = keyID, ak_secret_hash = hash,
           ak_env = in_Env inp, ak_pg_role = in_PgRole inp, ak_name = nullif_empty (in_Name inp),
           ak_created_at = pg_now env, ak_last_used_at = None, ak_expires_at = in_ExpiresAt inp,
           ak_revoked_at = None, ak_replaces_key_id = None \<rparr> db = Inr db'"
  unfolding create_tx_def case_sum_eq_Inr if_Inl_eq_Inr query_row_ok tx_exec_ok by auto

definition rotated_row :: "mint_env \<Rightarrow> pg_env \<Rightarrow> api_key_row \<Rightarrow> string \<Rightarrow> string \<Rightarrow> api_key_row" where
  "rotated_row me env old keyID hash =
    \<lparr> ak_id = me_uuid me, ak_workspace_id = ak_workspace_id old, ak_key_id = keyID, ak_secret_hash = hash,
      ak_env = ak_env old, ak_pg_role = ak_pg_role old, ak_name = nullif_empty (coalesce_empty (ak_name old)),
      ak_created_at = pg_now env, ak_last_used_at = None, ak_expires_at = None,
      ak_revoked_at = None, ak_replaces_key_id = Some (ak_id old) \<rparr>"

lemma rotate_tx_ok:
  assumes "rotate_tx iv idkey me env oldU overlap db = Inr (ck, db')"
  obtains old keyID secret hash db1 dt where
    "old \<in> set (kd_api_keys db)" "ak_id old = oldU"
    "Mint (ak_env old) (me_id me) (me_secret me) = Inr (keyID, secret, crk_FullToken ck)"
    "HashSecret idkey (me_salt me) secret = Inr hash"
    "insert_api_key (rotated_row me env old keyID hash) db = Inr db1"
    "iv overlap = Inr dt"
    "update_api_keys (\<lambda>r. ak_id r = oldU \<and> ak_revoked_at r = None)
       (\<lambda>r. r\<lparr>ak_expires_at := Some (pg_now env + dt)\<rparr>) db1 = Inr db'"
    "crk_ID ck = me_uuid me" "crk_KeyID ck = keyID"
proof -
  have hd: "hd (filter P xs) \<in> set xs \<and> P (hd (filter P xs))" if "filter P xs \<noteq> []" for P and xs :: "api_key_row list"
    using hd_in_set[OF that] by simp
  show thesis
    using assms that unfolding rotate_tx_def rotated_row_def
    by (auto simp: ok_iff Let_def split: sum.splits if_splits dest!: hd)
qed

lemma rotate_tx_wf:
  assumes "rotate_tx iv idkey me env oldU overlap db = Inr (ck, db')" "wf_keys db"
  shows "wf_keys db'" "db_step t db db'"
proof -
  from assms(1) obtain old keyID hash db1 dt where
    i: "insert_api_key (rotated_row me env old keyID hash) db = Inr db1" and
    u: "update_api_keys (\<lambda>r. ak_id r = oldU \<and> ak_revoked_at r = None)
       (\<lambda>r. r\<lparr>ak_expires_at := Some (pg_now env + dt)\<rparr>) db1 = Inr db'"
    by (rule rotate_tx_ok) blast
  note w = insert_wf[OF i assms(2)]
  have "wf_keys db'" "db_step t db1 db'"
    using update_wf[OF u w(1)] by (auto simp: row_step_def row_le_def)
  with w(2) show "wf_keys db'" "db_step t db db'" by (auto intro: db_step_trans)
qed

lemma FindByKeyID_ok:
  assumes "FindByKeyID env db k = Inr r"
  obtains row where "row \<in> set (kd_api_keys db)" "ak_key_id row = k" "r = scan_key row"
proof -
  let ?rows = "filter (\<lambda>r. ak_key_id r = k) (kd_api_keys db)"
  from assms have "?rows \<noteq> []" "r = scan_key (hd ?rows)"
    by (auto simp: FindByKeyID_def ok_iff split: sum.splits if_splits)
  with hd_in_set[of ?rows] that show thesis by auto
qed

lemma filter_key_id:
  "distinct (map ak_key_id rows) \<Longrightarrow> row \<in> set rows \<Longrightarrow> filter (\<lambda>r. ak_key_id r = ak_key_id row) rows = [row]"
proof (induction rows)
  case (Cons a rows)
  then show ?case
    by (cases "row = a") (auto simp: filter_empty_conv image_iff)
qed simp

lemma FindByKeyID_row:
  assumes "wf_keys db" "row \<in> set (kd_api_keys db)" "pg_stmt env 0 = None"
  shows "FindByKeyID env db (ak_key_id row) = Inr (scan_key row)"
  using assms filter_key_id[of "kd_api_keys db" row]
  by (simp add: FindByKeyID_def query_row_def wf_keys_def)

lemma pool_update_wf:
  assumes "wf_keys db" "\<And>r. p r \<Longrightarrow> row_step t r (f r)"
  shows "wf_keys (snd (pool_exec env n (update_api_keys p f) db))
    \<and> db_step t db (snd (pool_exec env n (update_api_keys p f) db))"
proof (rule pool_exec_inv[where P = "\<lambda>d. wf_keys d \<and> db_step t db d"])
  fix db' assume "update_api_keys p f db = Inr db'"
  from update_wf[OF this assms(1)] assms(2) show "wf_keys db' \<and> db_step t db db'" by blast
qed (simp add: assms)

lemma snd_case_result:
  "snd (case t of (Inl e, d) \<Rightarrow> (Inl e, d) | (Inr u, d) \<Rightarrow> (Inr (f u), d)) = snd t"
  by (cases t; cases "fst t") auto

lemma Create_state:
  "snd (Create up idkey me env inp db) = db \<or>
    (\<exists>w k h. snd (Create up idkey me env inp db) = snd (in_tx env (create_tx env inp (me_uuid me) w k h) db))"
  unfolding Create_def by (auto simp: snd_case_result split: sum.split)

lemma step_wf:
  assumes "wf_keys db"
  shows "wf_keys (store_step up iv idkey db x) \<and> db_step (op_now x) db (store_step up iv idkey db x)"
proof (cases x)
  case (STouch env i)
  let ?f = "\<lambda>r. r\<lparr>ak_last_used_at := Some (pg_now env)\<rparr>"
  have "wf_keys (snd (pool_exec env 0 (update_api_keys (\<lambda>r. ak_id r = u) ?f) db))
      \<and> db_step (pg_now env) db (snd (pool_exec env 0 (update_api_keys (\<lambda>r. ak_id r = u) ?f) db))"
    for u using assms by (rule pool_update_wf) (simp add: row_step_def row_le_def)
  then show ?thesis using assms by (simp add: STouch TouchLastUsed_def split: sum.split)
next
  case (SCreate me env inp)
  have "wf_keys (snd (in_tx env (create_tx env inp u w k h) db))
      \<and> db_step (pg_now env) db (snd (in_tx env (create_tx env inp u w k h) db))" for u w k h
    using assms insert_wf
    by (intro in_tx_inv[where P = "\<lambda>d. wf_keys d \<and> db_step (pg_now env) db d"]) (auto simp: create_tx_ok)
  then show ?thesis using assms Create_state[of up idkey me env inp db] by (auto simp: SCreate)
next
  case (SRevoke env i)
  let ?f = "\<lambda>r. r\<lparr>ak_revoked_at := Some (pg_now env)\<rparr>"
  have "wf_keys (snd (pool_exec env 0 (update_api_keys (\<lambda>r. ak_id r = u \<and> ak_revoked_at r = None) ?f) db))
      \<and> db_step (pg_now env) db (snd (pool_exec env 0 (update_api_keys (\<lambda>r. ak_id r = u \<and> ak_revoked_at r = None) ?f) db))"
    for u using assms by (rule pool_update_wf) (simp add: row_step_def row_le_def)
  then show ?thesis using assms by (simp add: SRevoke Revoke_def split: sum.split)
next
  case (SRotate me env i ov)
  have "wf_keys (snd (in_tx env (rotate_tx iv idkey me env u ov) db))
      \<and> db_step (pg_now env) db (snd (in_tx env (rotate_tx iv idkey me env u ov) db))" for u
    using assms rotate_tx_wf by (intro in_tx_inv[where P = "\<lambda>d. wf_keys d \<and> db_step (pg_now env) db d"]) auto
  then show ?thesis using assms by (simp add: SRotate Rotate_def split: sum.split)
qed

lemma exec_wf:
  "wf_keys db \<Longrightarrow> wf_keys (store_exec up iv idkey db xs) \<and> db_le db (store_exec up iv idkey db xs)"
proof (induction xs arbitrary: db)
  case (Cons x xs)
  note a = step_wf[OF Cons.prems, of up iv idkey x]
  with Cons.IH[of "store_step up iv idkey db x"] show ?case
    by (auto simp: store_exec_def intro: db_le_trans db_step_le)
qed (simp add: store_exec_def)

section \<open>Properties\<close>

text \<open>
  (C6) The identity of a key is fixed and revocation is final: from a
  well-formed table, whatever operations run and whichever of their database
  calls fail (a failed commit may or may not have landed), the table stays
  well-formed, and a key found before is found afterwards with the same row
  id, workspace, secret hash, environment and role; if it was revoked it is
  still revoked with the same timestamp, and inactive at every instant.
\<close>

theorem key_identity_immutable:
  assumes "wf_keys db" "FindByKeyID env db k = Inr r" "pg_stmt env' 0 = None"
  shows "wf_keys (store_exec up iv idkey db xs) \<and>
    (\<exists>r'. FindByKeyID env' (store_exec up iv idkey db xs) k = Inr r'
      \<and> kr_ID r' = kr_ID r \<and> kr_WorkspaceID r' = kr_WorkspaceID r \<and> kr_SecretHash r' = kr_SecretHash r
      \<and> kr_Env r' = kr_Env r \<and> kr_PgRole r' = kr_PgRole r
      \<and> (kr_RevokedAt r \<noteq> None \<longrightarrow> kr_RevokedAt r' = kr_RevokedAt r \<and> (\<forall>now. \<not> Active r' now)))"
proof -
  let ?db = "store_exec up iv idkey db xs"
  obtain row where row: "row \<in> set (kd_api_keys db)" "ak_key_id row = k" "r = scan_key row"
    using assms(2) by (rule FindByKeyID_ok)
  have wf: "wf_keys ?db" "db_le db ?db" using exec_wf[OF assms(1)] by auto
  then obtain row' where row': "row' \<in> set (kd_api_keys ?db)" "row_le row row'"
    using row(1) by (auto simp: db_le_def)
  then have "FindByKeyID env' ?db k = Inr (scan_key row')"
    using FindByKeyID_row[OF wf(1) row'(1) assms(3)] row(2) by (simp add: row_le_def)
  with row'(2) wf(1) row(3) show ?thesis by (auto simp: row_le_def scan_key_def Active_iff)
qed

text \<open>
  (C7) A created key works: when Create answers, the bearer token it returns
  parses, its key id finds the new row, the secret verifies against the
  stored hash, and that row has the requested workspace, environment and
  role, a role the gateway may assume; the key is active until the requested
  expiry.
\<close>

theorem created_key_authenticates:
  assumes "wf_keys db" "argon2_len idkey" "pg_stmt env' 0 = None"
    and "me_id me = Inr ib" "length ib = keyIDRawBytes" "me_secret me = Inr sb" "length sb = secretRawBytes"
    and "Create up idkey me env inp db = (Inr ck, db')"
  shows "\<exists>p r. ParseBearer (''Bearer '' @ crk_FullToken ck) = Inr p
    \<and> FindByKeyID env' db' (pk_KeyID p) = Inr r \<and> VerifySecret idkey (pk_Secret p) (kr_SecretHash r) = None
    \<and> kr_ID r = crk_ID ck \<and> up (in_WorkspaceID inp) = Inr (kr_WorkspaceID r)
    \<and> kr_Env r = pk_Env p \<and> kr_Env r = in_Env inp
    \<and> kr_PgRole r = in_PgRole inp \<and> in_PgRole inp \<in> set (kd_gateway_roles db)
    \<and> (\<forall>now. Active r now \<longleftrightarrow> (\<forall>t. in_ExpiresAt inp = Some t \<longrightarrow> now < t))"
proof -
  from assms(4,6,8) obtain w k s h where
    w: "up (in_WorkspaceID inp) = Inr w" and
    m: "Mint (in_Env inp) (Inr ib) (Inr sb) = Inr (k, s, crk_FullToken ck)" and
    h: "HashSecret idkey (me_salt me) s = Inr h" and
    tx: "in_tx env (create_tx env inp (me_uuid me) w k h) db = (Inr (), db')" and
    ck: "crk_ID ck = me_uuid me"
    by (auto simp: Create_def split: if_splits sum.splits prod.splits)
  note p = Mint_parts[OF m assms(5,7)]
  define row where "row = \<lparr> ak_id = me_uuid me, ak_workspace_id = w, ak_key_id = k, ak_secret_hash = h,
           ak_env = in_Env inp, ak_pg_role = in_PgRole inp, ak_name = nullif_empty (in_Name inp),
           ak_created_at = pg_now env, ak_last_used_at = None, ak_expires_at = in_ExpiresAt inp,
           ak_revoked_at = None, ak_replaces_key_id = None \<rparr>"
  from tx have ins: "insert_api_key row db = Inr db'" and g: "in_PgRole inp \<in> set (kd_gateway_roles db)"
    by (auto simp: in_tx_ok create_tx_ok row_def)
  have "row \<in> set (kd_api_keys db')" using ins by (simp add: insert_api_key_ok)
  with FindByKeyID_row[OF insert_wf(1)[OF ins assms(1)] _ assms(3)]
  have f: "FindByKeyID env' db' k = Inr (scan_key row)" by (force simp: row_def)
  have "ParseBearer (''Bearer '' @ crk_FullToken ck) =
      Inr \<lparr>pk_Env = in_Env inp, pk_KeyID = k, pk_Secret = s, pk_FullToken = crk_FullToken ck\<rparr>"
    using p by (intro ParseBearer_full_token) auto
  moreover from h obtain salt where "me_salt me = Inr salt" by (auto simp: ok_iff)
  ultimately show ?thesis
    using f w g ck VerifySecret_hashed[OF assms(2), of salt s h s] h
    by (auto simp: scan_key_def row_def Active_iff)
qed

text \<open>
  (C8) What a rotation does: when Rotate answers, the new token parses, finds
  the new row and verifies against it; that row has the old key's workspace,
  environment, role and name, names the old row as the one it replaces, and
  never expires; the old key is still found, unchanged except that it now
  expires exactly one overlap after the transaction (whatever expiry it had
  before, earlier or later), or entirely unchanged if it was revoked.
\<close>

theorem rotate_spec:
  assumes "wf_keys db" "argon2_len idkey" "pg_stmt env' 0 = None"
    and "me_id me = Inr ib" "length ib = keyIDRawBytes" "me_secret me = Inr sb" "length sb = secretRawBytes"
    and "FindByKeyID env0 db k0 = Inr old" "up i = Inr (kr_ID old)"
    and "Rotate up iv idkey me env i ov db = (Inr ck, db')"
  shows "\<exists>p r dt. iv ov = Inr dt
    \<and> ParseBearer (''Bearer '' @ crk_FullToken ck) = Inr p
    \<and> FindByKeyID env' db' (pk_KeyID p) = Inr r \<and> VerifySecret idkey (pk_Secret p) (kr_SecretHash r) = None
    \<and> kr_WorkspaceID r = kr_WorkspaceID old \<and> kr_Env r = kr_Env old \<and> kr_PgRole r = kr_PgRole old
    \<and> kr_Name r = kr_Name old \<and> kr_ReplacesKeyID r = Some (kr_ID old) \<and> (\<forall>now. Active r now)
    \<and> FindByKeyID env' db' k0 =
        Inr (if kr_RevokedAt old = None then old\<lparr>kr_ExpiresAt := Some (pg_now env + dt)\<rparr> else old)"
proof -
  obtain row where row: "row \<in> set (kd_api_keys db)" "ak_key_id row = k0" "old = scan_key row"
    using assms(8) by (rule FindByKeyID_ok)
  from assms(9,10) have rt: "rotate_tx iv idkey me env (kr_ID old) ov db = Inr (ck, db')"
    by (simp add: Rotate_def in_tx_ok)
  obtain old1 k s h db1 dt where o: "old1 \<in> set (kd_api_keys db)" "ak_id old1 = kr_ID old"
    and m: "Mint (ak_env old1) (me_id me) (me_secret me) = Inr (k, s, crk_FullToken ck)"
    and h: "HashSecret idkey (me_salt me) s = Inr h"
    and ins: "insert_api_key (rotated_row me env old1 k h) db = Inr db1"
    and iv: "iv ov = Inr dt"
    and up: "update_api_keys (\<lambda>r. ak_id r = kr_ID old \<and> ak_revoked_at r = None)
       (\<lambda>r. r\<lparr>ak_expires_at := Some (pg_now env + dt)\<rparr>) db1 = Inr db'"
    using rt by (rule rotate_tx_ok) blast
  have "old1 = row"
    using assms(1) o row by (auto simp: wf_keys_def distinct_map inj_on_def scan_key_def)
  define new where "new = rotated_row me env row k h"
  define upd where "upd r = (if ak_id r = ak_id row \<and> ak_revoked_at r = None
      then r\<lparr>ak_expires_at := Some (pg_now env + dt)\<rparr> else r)" for r :: api_key_row
  have keys: "kd_api_keys db' = map upd (kd_api_keys db @ [new])" and "ak_id new \<noteq> ak_id row"
    using ins up row o(1) unfolding \<open>old1 = row\<close>
    by (auto simp: insert_api_key_ok update_api_keys_def upd_rows_def upd_def new_def scan_key_def
        rotated_row_def image_iff)
  then have "new \<in> set (kd_api_keys db')" "upd row \<in> set (kd_api_keys db')"
    using row(1) by (auto simp: upd_def)
  with FindByKeyID_row[OF rotate_tx_wf(1)[OF rt assms(1)] _ assms(3)]
  have f: "FindByKeyID env' db' (ak_key_id new) = Inr (scan_key new)"
    "FindByKeyID env' db' (ak_key_id (upd row)) = Inr (scan_key (upd row))" by blast+
  note p = Mint_parts[OF m[unfolded assms(4,6) \<open>old1 = row\<close>] assms(5,7)]
  have "ParseBearer (''Bearer '' @ crk_FullToken ck) =
      Inr \<lparr>pk_Env = ak_env row, pk_KeyID = k, pk_Secret = s, pk_FullToken = crk_FullToken ck\<rparr>"
    using p by (intro ParseBearer_full_token) auto
  moreover from h obtain salt where "me_salt me = Inr salt" by (auto simp: ok_iff)
  moreover have "coalesce_empty (nullif_empty x) = x" for x
    by (simp add: coalesce_empty_def nullif_empty_def)
  ultimately show ?thesis
    using f iv row(2,3) VerifySecret_hashed[OF assms(2), of salt s h s] h
    by (auto simp: scan_key_def new_def rotated_row_def Active_iff upd_def)
qed

section \<open>Witnesses\<close>

definition sample_argon :: argon2 where
  "sample_argon pw salt t m p n = take n (pw @ salt @ replicate n CHR 0x00)"

definition sample_mint :: "string \<Rightarrow> char \<Rightarrow> mint_env" where
  "sample_mint u c = \<lparr> me_id = Inr (replicate 12 c), me_secret = Inr (replicate 24 c),
     me_salt = Inr (replicate 16 c), me_uuid = u, me_now = 0 \<rparr>"

definition sample_row :: api_key_row where
  "sample_row = \<lparr> ak_id = ''1'', ak_workspace_id = ''w'', ak_key_id = ''k1'', ak_secret_hash = ''h'',
     ak_env = ''dev'', ak_pg_role = ''dbuser'', ak_name = None, ak_created_at = 0, ak_last_used_at = None,
     ak_expires_at = Some 10, ak_revoked_at = None, ak_replaces_key_id = None \<rparr>"

definition sample_db :: key_db where
  "sample_db = \<lparr> kd_workspaces = [''w''], kd_roles = [''dbuser''], kd_gateway_roles = [''dbuser''],
     kd_api_keys = [sample_row] \<rparr>"

lemmas sample_defs = sample_mint_def sample_row_def sample_db_def

lemma sample_facts:
  "argon2_len sample_argon" "wf_keys sample_db"
  "FindByKeyID (pg_fine t) sample_db ''k1'' = Inr (scan_key sample_row)"
  "pg_stmt (pg_fine t) 0 = None"
  by (auto simp: argon2_len_def sample_argon_def min_def wf_keys_def sample_defs IsValid_def
      FindByKeyID_def query_row_def)

theorem key_identity_immutable_witness:
  "\<exists>r'. FindByKeyID (pg_fine 9) (store_exec Inr Inr sample_argon sample_db
        [SRevoke (pg_fine 1) ''1'', SRotate (sample_mint ''2'' CHR ''x'') (pg_fine 2) ''1'' 5]) ''k1'' = Inr r'
      \<and> kr_PgRole r' = ''dbuser'' \<and> kr_SecretHash r' = ''h''"
  using key_identity_immutable[OF sample_facts(2) sample_facts(3) sample_facts(4)[of 9], of
      Inr Inr sample_argon "[SRevoke (pg_fine 1) ''1'', SRotate (sample_mint ''2'' CHR ''x'') (pg_fine 2) ''1'' 5]"]
  by (auto simp: scan_key_def sample_row_def)

theorem created_key_authenticates_witness:
  "\<exists>ck db' p r. Create Inr sample_argon (sample_mint ''2'' CHR ''x'') (pg_fine 3)
        \<lparr>in_WorkspaceID = ''w'', in_Env = ''live'', in_PgRole = ''dbuser'', in_Name = [], in_ExpiresAt = Some 9\<rparr>
        sample_db = (Inr ck, db')
     \<and> ParseBearer (''Bearer '' @ crk_FullToken ck) = Inr p
     \<and> FindByKeyID (pg_fine 4) db' (pk_KeyID p) = Inr r
     \<and> VerifySecret sample_argon (pk_Secret p) (kr_SecretHash r) = None \<and> Active r 8 \<and> \<not> Active r 9"
proof -
  let ?in = "\<lparr>in_WorkspaceID = ''w'', in_Env = ''live'', in_PgRole = ''dbuser'', in_Name = [], in_ExpiresAt = Some 9\<rparr>"
  have "RawURLEncoding (replicate 12 CHR ''x'') \<noteq> ''k1''"
    using length_RawURLEncoding[of "replicate 12 CHR ''x''"] by (auto dest: arg_cong[of _ _ length])
  then obtain ck db' where c: "Create Inr sample_argon (sample_mint ''2'' CHR ''x'') (pg_fine 3) ?in sample_db = (Inr ck, db')"
    by (simp add: Create_def Mint_def HashSecret_def in_tx_def create_tx_def query_row_def tx_exec_def
        insert_api_key_def IsValid_def Let_def sample_defs)
  show ?thesis
    using created_key_authenticates[OF sample_facts(2,1) sample_facts(4)[of 4] _ _ _ _ c] c
    by (fastforce simp: sample_defs token_consts)
qed

theorem rotate_spec_witness:
  "\<exists>ck db' p r. Rotate Inr Inr sample_argon (sample_mint ''2'' CHR ''x'') (pg_fine 3) ''1'' 86400 sample_db
        = (Inr ck, db')
     \<and> ParseBearer (''Bearer '' @ crk_FullToken ck) = Inr p
     \<and> FindByKeyID (pg_fine 4) db' (pk_KeyID p) = Inr r \<and> kr_ReplacesKeyID r = Some ''1''
     \<and> FindByKeyID (pg_fine 4) db' ''k1'' = Inr ((scan_key sample_row)\<lparr>kr_ExpiresAt := Some 86403\<rparr>)"
proof -
  have "RawURLEncoding (replicate 12 CHR ''x'') \<noteq> ''k1''"
    using length_RawURLEncoding[of "replicate 12 CHR ''x''"] by (auto dest: arg_cong[of _ _ length])
  then obtain ck db' where c: "Rotate Inr Inr sample_argon (sample_mint ''2'' CHR ''x'') (pg_fine 3) ''1'' 86400 sample_db = (Inr ck, db')"
    by (simp add: Rotate_def rotate_tx_def Mint_def HashSecret_def in_tx_def query_row_def tx_exec_def
        insert_api_key_def update_api_keys_def IsValid_def Let_def sample_defs)
  have i: "Inr ''1'' = (Inr (kr_ID (scan_key sample_row)) :: string result)"
    by (simp add: scan_key_def sample_row_def)
  show ?thesis
    using rotate_spec[OF sample_facts(2,1) sample_facts(4)[of 4] _ _ _ _ sample_facts(3)[of 0] i c] c
    by (fastforce simp: sample_defs scan_key_def token_consts)
qed

end
