(* ===== verification/Http.thy ===== *)
theory Http
  imports GoErrors
begin

text \<open>
  The part of \<^verbatim>\<open>net/http\<close> and \<^verbatim>\<open>encoding/json\<close> the gateway's handlers use, the
  problem documents of \<^verbatim>\<open>internal/httpapi/errors.go\<close> and the request-scoped
  values the middleware hands to the handlers.

  A handler takes the request, the response writer and the state of the
  server, and returns or panics; either way the writer and the state keep
  what was done before.
\<close>

section \<open>Requests, responses, handlers\<close>

record WorkspaceContext =
  ws_WorkspaceID :: string
  ws_KeyID :: string
  ws_KeyDBID :: string
  ws_PgRole :: string
  ws_Env :: string

text \<open>\<open>rq_Body\<close> is what reading the body delivers: the bytes, and the error that ends the
  stream unless it ends normally; \<open>rq_ctx_*\<close> are the values of the request's context.  Header names are in canonical form.\<close>

record request =
  rq_Method :: string
  rq_Path :: string
  rq_Header :: "(string \<times> string) list"
  rq_Body :: "bytes \<times> go_error option"
  rq_RemoteAddr :: string
  rq_ctx_ws :: "WorkspaceContext option"
  rq_ctx_request_id :: "string option"

definition ReadAll :: "bytes \<times> go_error option \<Rightarrow> bytes result" where
  "ReadAll b = (case b of (d, None) \<Rightarrow> Inr d | (d, Some e) \<Rightarrow> Inl e)"

definition header_get :: "(string \<times> string) list \<Rightarrow> string \<Rightarrow> string" where
  "header_get h k = (case map_of h k of None \<Rightarrow> [] | Some v \<Rightarrow> v)"

definition header_set :: "string \<Rightarrow> string \<Rightarrow> (string \<times> string) list \<Rightarrow> (string \<times> string) list" where
  "header_set k v h = filter (\<lambda>e. fst e \<noteq> k) h @ [(k, v)]"

text \<open>The header map may change until the status line is written; what is sent is
  the status with the headers of that moment, then the body.  A body with no
  status line before it is sent with 200.\<close>

record response_writer =
  rw_header :: "(string \<times> string) list"
  rw_sent :: "(int \<times> (string \<times> string) list) option"
  rw_body :: bytes

definition new_writer :: response_writer where
  "new_writer = \<lparr> rw_header = [], rw_sent = None, rw_body = [] \<rparr>"

definition set_header :: "string \<Rightarrow> string \<Rightarrow> response_writer \<Rightarrow> response_writer" where
  "set_header k v w = w\<lparr>rw_header := header_set k v (rw_header w)\<rparr>"

definition write_header :: "int \<Rightarrow> response_writer \<Rightarrow> response_writer" where
  "write_header st w = (case rw_sent w of None \<Rightarrow> w\<lparr>rw_sent := Some (st, rw_header w)\<rparr> | Some _ \<Rightarrow> w)"

definition write_body :: "bytes \<Rightarrow> response_writer \<Rightarrow> response_writer" where
  "write_body b w = (let w1 = write_header 200 w in w1\<lparr>rw_body := rw_body w1 @ b\<rparr>)"

text \<open>The status a client sees once the handler has returned.\<close>

definition status_of :: "response_writer \<Rightarrow> int" where
  "status_of w = (case rw_sent w of None \<Rightarrow> 200 | Some (st, _) \<Rightarrow> st)"

datatype 'w outcome =
    Returned response_writer 'w
  | Panicked string response_writer 'w

type_synonym 'w handler = "request \<Rightarrow> response_writer \<Rightarrow> 'w \<Rightarrow> 'w outcome"

fun out_writer :: "'w outcome \<Rightarrow> response_writer" where
  "out_writer (Returned w s) = w"
| "out_writer (Panicked m w s) = w"

fun out_state :: "'w outcome \<Rightarrow> 'w" where
  "out_state (Returned w s) = s"
| "out_state (Panicked m w s) = s"

fun returned :: "'w outcome \<Rightarrow> bool" where
  "returned (Returned w s) \<longleftrightarrow> True"
| "returned (Panicked m w s) \<longleftrightarrow> False"

section \<open>JSON strings\<close>

text \<open>\<^verbatim>\<open>encoding/json\<close> with HTML escaping on, as \<^verbatim>\<open>json.Marshal\<close> and \<^verbatim>\<open>json.NewEncoder\<close> have it.\<close>

definition json_u4 :: "nat \<Rightarrow> string" where
  "json_u4 n = [CHR 0x5C, CHR ''u'', hex_digit (n div 4096 mod 16), hex_digit (n div 256 mod 16),
     hex_digit (n div 16 mod 16), hex_digit (n mod 16)]"

definition json_ascii :: "char \<Rightarrow> string" where
  "json_ascii c =
    (if c = CHR 0x22 \<or> c = CHR 0x5C then [CHR 0x5C, c]
     else if c = CHR 0x08 then [CHR 0x5C, CHR ''b'']
     else if c = CHR 0x0C then [CHR 0x5C, CHR ''f'']
     else if c = CHR 0x0A then [CHR 0x5C, CHR ''n'']
     else if c = CHR 0x0D then [CHR 0x5C, CHR ''r'']
     else if c = CHR 0x09 then [CHR 0x5C, CHR ''t'']
     else if of_char c < (32::nat) \<or> c = CHR ''<'' \<or> c = CHR ''>'' \<or> c = CHR ''&'' then json_u4 (of_char c)
     else [c])"

function json_chars :: "string \<Rightarrow> string" where
  "json_chars [] = []"
| "json_chars (c # cs) =
    (if of_char c < (128::nat) then json_ascii c @ json_chars cs
     else let (r, n) = decode_rune (c # cs); rest = drop (n - 1) cs in
       (if r = RuneError \<and> n = 1 then json_u4 65533
        else if r = 8232 \<or> r = 8233 then json_u4 r
        else take n (c # cs)) @ json_chars rest)"
  by pat_completeness auto
termination
  by (relation "measure length") (auto simp: less_Suc_eq_le)

definition json_string :: "string \<Rightarrow> string" where
  "json_string s = [CHR 0x22] @ json_chars s @ [CHR 0x22]"

text \<open>An object with the given members, in order.\<close>

fun json_join :: "string list \<Rightarrow> string" where
  "json_join [] = []"
| "json_join [x] = x"
| "json_join (x # y # xs) = x @ '','' @ json_join (y # xs)"

definition json_member :: "string \<Rightarrow> string \<Rightarrow> string" where
  "json_member k v = json_string k @ '':'' @ v"

definition json_object :: "string list \<Rightarrow> string" where
  "json_object ms = ''{'' @ json_join ms @ ''}''"

section \<open>Problem documents\<close>

record Problem =
  p_Type :: string
  p_Title :: string
  p_Status :: int
  p_Detail :: string
  p_Instance :: string
  p_SQLState :: string

definition problem :: "string \<Rightarrow> int \<Rightarrow> string \<Rightarrow> Problem" where
  "problem title st detail = \<lparr> p_Type = [], p_Title = title, p_Status = st, p_Detail = detail,
     p_Instance = [], p_SQLState = [] \<rparr>"

definition omitempty :: "string \<Rightarrow> string \<Rightarrow> string list" where
  "omitempty k v = (if v = [] then [] else [json_member k (json_string v)])"

definition json_problem :: "Problem \<Rightarrow> string" where
  "json_problem p = json_object
    (omitempty ''type'' (p_Type p) @ [json_member ''title'' (json_string (p_Title p)),
       json_member ''status'' (Itoa (p_Status p))]
     @ omitempty ''detail'' (p_Detail p) @ omitempty ''instance'' (p_Instance p)
     @ omitempty ''sqlstate'' (p_SQLState p))"

text \<open>The encoder of \<^verbatim>\<open>json.NewEncoder\<close> ends every value with a newline.\<close>

definition WriteProblem :: "Problem \<Rightarrow> response_writer \<Rightarrow> response_writer" where
  "WriteProblem p w =
    write_body (json_problem p @ [CHR 0x0A])
      (write_header (p_Status p) (set_header ''Content-Type'' ''application/problem+json'' w))"

definition WriteJSON :: "int \<Rightarrow> string \<Rightarrow> response_writer \<Rightarrow> response_writer" where
  "WriteJSON st v w =
    write_body (v @ [CHR 0x0A])
      (write_header st (set_header ''Content-Type'' ''application/json'' w))"

section \<open>Errors to problems\<close>

definition pg_status :: "string \<Rightarrow> int \<times> string" where
  "pg_status code =
    (if code = ''42501'' then (403, ''permission_denied'')
     else if code \<in> {''42P01'', ''42883''} then (400, ''undefined_object'')
     else if code = ''23505'' then (409, ''unique_violation'')
     else if code \<in> {''23502'', ''23503'', ''23514''} then (409, ''integrity_violation'')
     else if code \<in> {''22001'', ''22003'', ''22P02'', ''22008''} then (400, ''invalid_input'')
     else if code = ''57014'' then (408, ''statement_timeout'')
     else if code = ''53300'' then (503, ''too_many_connections'')
     else if code = ''40001'' then (409, ''serialization_failure'')
     else if code = ''40P01'' then (409, ''deadlock_detected'')
     else (500, ''database_error''))"

definition mapPgError :: "pg_error \<Rightarrow> Problem" where
  "mapPgError pg = \<lparr> p_Type = [], p_Title = snd (pg_status (Code pg)), p_Status = fst (pg_status (Code pg)),
     p_Detail = Message pg, p_Instance = [], p_SQLState = Code pg \<rparr>"

definition MapError :: "go_error option \<Rightarrow> Problem" where
  "MapError err =
    (case err of None \<Rightarrow> problem ''ok'' 200 [] | Some e \<Rightarrow>
     if errors_is e ErrResponseTooLarge then problem ''response_too_large'' 413 (error_text e) else
     case as_validation (chain e) of Some (code, msg) \<Rightarrow> problem code 400 msg | None \<Rightarrow>
     case as_sql (chain e) of Some pg \<Rightarrow> mapPgError pg | None \<Rightarrow>
     case as_pg (chain e) of Some pg \<Rightarrow> mapPgError pg | None \<Rightarrow>
     problem ''internal'' 500 (error_text e))"

section \<open>Writer lemmas\<close>

lemma status_write [simp]:
  "rw_sent w = None \<Longrightarrow> status_of (WriteProblem p w) = p_Status p"
  "rw_sent w = None \<Longrightarrow> status_of (WriteJSON st v w) = st"
  by (simp_all add: status_of_def WriteProblem_def WriteJSON_def write_body_def write_header_def
      set_header_def Let_def)

lemma header_get_set [simp]: "header_get (header_set k v h) k = v"
  "k \<noteq> k' \<Longrightarrow> header_get (header_set k v h) k' = header_get h k'"
  by (simp_all add: header_get_def header_set_def map_add_def map_of_filter_key split: option.split)

text \<open>Once a status line is out, nothing changes it; a body only grows.\<close>

lemma write_header_sent [simp]: "rw_sent w = Some x \<Longrightarrow> write_header st w = w"
  by (simp add: write_header_def)

lemma write_body_sent: "rw_sent w = Some x \<Longrightarrow> write_body b w = w\<lparr>rw_body := rw_body w @ b\<rparr>"
  by (simp add: write_body_def Let_def)

section \<open>No string value escapes its quotes\<close>

text \<open>A JSON reader inside a string: to the closing quote, over escapes; a raw
  control byte is an error.  The result is what follows the closing quote.\<close>

fun json_scan :: "string \<Rightarrow> string option" where
  "json_scan [] = None"
| "json_scan [c] = (if c = CHR 0x22 then Some [] else None)"
| "json_scan (c # d # cs) =
    (if c = CHR 0x22 then Some (d # cs) else if c = CHR 0x5C then json_scan cs
     else if of_char c < (32::nat) then None else json_scan (d # cs))"

definition json_plain :: "char \<Rightarrow> bool" where
  "json_plain c \<longleftrightarrow> c \<noteq> CHR 0x22 \<and> c \<noteq> CHR 0x5C \<and> \<not> of_char c < (32::nat)"

lemma scan_plain: "json_plain c \<Longrightarrow> r \<noteq> [] \<Longrightarrow> json_scan (c # r) = json_scan r"
  by (cases r) (auto simp: json_plain_def)

lemma scan_plains: "list_all json_plain p \<Longrightarrow> r \<noteq> [] \<Longrightarrow> json_scan (p @ r) = json_scan r"
  by (induction p) (auto simp: scan_plain)

lemma hex_digit_plain: "d < 16 \<Longrightarrow> json_plain (hex_digit d)"
  using of_hex_digit[of d] by (auto simp: json_plain_def split: if_splits)

lemma scan_u4: "r \<noteq> [] \<Longrightarrow> json_scan (json_u4 n @ r) = json_scan r"
  using scan_plains[of "[hex_digit (n div 4096 mod 16), hex_digit (n div 256 mod 16),
      hex_digit (n div 16 mod 16), hex_digit (n mod 16)]" r]
  by (simp add: json_u4_def hex_digit_plain)

lemma scan_ascii: "r \<noteq> [] \<Longrightarrow> json_scan (json_ascii c @ r) = json_scan r"
  using scan_u4[of r "of_char c"] scan_plain[of c r]
  by (cases "json_plain c") (auto simp: json_ascii_def json_plain_def)

lemma high_plain: "128 \<le> (of_char c :: nat) \<Longrightarrow> json_plain c"
  by (auto simp: json_plain_def)

lemma decode_multi_high:
  "snd (decode2 b cs) = 1 \<or> list_all json_plain (take (snd (decode2 b cs) - 1) cs)"
  "snd (decode3 b cs) = 1 \<or> list_all json_plain (take (snd (decode3 b cs) - 1) cs)"
  "snd (decode4 b cs) = 1 \<or> list_all json_plain (take (snd (decode4 b cs) - 1) cs)"
proof -
  show "snd (decode2 b cs) = 1 \<or> list_all json_plain (take (snd (decode2 b cs) - 1) cs)"
    by (induction b cs rule: decode2.induct) (auto simp: high_plain)
  show "snd (decode3 b cs) = 1 \<or> list_all json_plain (take (snd (decode3 b cs) - 1) cs)"
    by (induction b cs rule: decode3.induct) (auto simp: high_plain split: if_splits)
  show "snd (decode4 b cs) = 1 \<or> list_all json_plain (take (snd (decode4 b cs) - 1) cs)"
    by (induction b cs rule: decode4.induct) (auto simp: high_plain split: if_splits)
qed

lemma decode_rune_high:
  assumes "\<not> of_char c < (128::nat)"
  shows "list_all json_plain (take (snd (decode_rune (c # cs))) (c # cs))"
proof -
  have c: "json_plain c" using assms by (intro high_plain) simp
  have "snd (decode_rune (c # cs)) = 1 \<or> list_all json_plain (take (snd (decode_rune (c # cs)) - 1) cs)"
    using decode_multi_high[of "of_char c" cs] by (auto simp: decode_rune.simps)
  with c show ?thesis
    using decode_rune_width[of c cs] by (cases "snd (decode_rune (c # cs))") auto
qed

text \<open>
  No value breaks out of its JSON string: for every byte string, valid
  UTF-8 or not, a reader that starts after the opening quote of its
  encoding meets no raw control byte and leaves the string exactly at the
  closing quote the encoder wrote.  So neither a database message nor a
  client-supplied value can add members to a problem document.
\<close>

theorem json_string_framed:
  "json_string s @ rest = CHR 0x22 # json_chars s @ CHR 0x22 # rest
   \<and> json_scan (json_chars s @ CHR 0x22 # rest) = Some rest"
proof
  show "json_scan (json_chars s @ CHR 0x22 # rest) = Some rest"
  proof (induction s rule: json_chars.induct)
    case 1
    show ?case by (cases rest) simp_all
  next
    case (2 c cs)
    show ?case
    proof (cases "of_char c < (128::nat)")
      case True
      then show ?thesis using 2(1) by (simp add: scan_ascii)
    next
      case False
      obtain r n where rn: "decode_rune (c # cs) = (r, n)" by fastforce
      note IH = 2(2)[OF False rn[symmetric] refl]
      have "list_all json_plain (take n (c # cs))" using decode_rune_high[OF False, of cs] rn by simp
      then show ?thesis using False IH by (auto simp: rn scan_u4 scan_plains Let_def)
    qed
  qed
qed (simp add: json_string_def)

section \<open>Every error has a definite status\<close>

text \<open>
  (C13) How errors reach the client: the problem document depends only on the
  innermost error, however often it was wrapped.  A validation error is a
  400 with its own code, a Postgres error (raw or classified by the
  executor) is mapped by its SQLSTATE and carries it, an oversized response
  is a 413, and everything else is a 500 \<^verbatim>\<open>internal\<close>; no error is ever
  reported with a success status.
\<close>

theorem MapError_by_root:
  "MapError (Some e) =
     (case root_error e of
        ValidationError c m \<Rightarrow> problem c 400 m
      | PgErr pg \<Rightarrow> mapPgError pg
      | SqlErr pg \<Rightarrow> mapPgError pg
      | r \<Rightarrow> if r = Sentinel ErrResponseTooLarge then problem ''response_too_large'' 413 (error_text e)
             else problem ''internal'' 500 (error_text e))
   \<and> p_Status (MapError (Some e)) \<in> {400, 403, 408, 409, 413, 500, 503}
   \<and> MapError (Some (classifyPgErr e)) = MapError (Some e)"
proof -
  have no: "root_error e = Errorf a x b \<Longrightarrow> False" for a x b by (induction e) auto
  have root: "MapError (Some e) =
     (case root_error e of
        ValidationError c m \<Rightarrow> problem c 400 m
      | PgErr pg \<Rightarrow> mapPgError pg
      | SqlErr pg \<Rightarrow> mapPgError pg
      | r \<Rightarrow> if r = Sentinel ErrResponseTooLarge then problem ''response_too_large'' 413 (error_text e)
             else problem ''internal'' 500 (error_text e))"
    unfolding MapError_def option.case inspect_root(1)[of e] inspect_root(2-4)[of e]
    by (cases "root_error e") (auto dest: no)
  moreover have "fst (pg_status x) \<in> {400, 403, 408, 409, 413, 500, 503}" for x
    by (simp add: pg_status_def)
  then have "p_Status (MapError (Some e)) \<in> {400, 403, 408, 409, 413, 500, 503}"
    unfolding root by (cases "root_error e") (auto simp: problem_def mapPgError_def dest: no)
  moreover have "MapError (Some (classifyPgErr e)) = MapError (Some e)"
  proof (cases "as_pg (chain e)")
    case (Some pg)
    then have "root_error e = PgErr pg \<or> root_error e = SqlErr pg"
      unfolding inspect_root(4)[of e] by (cases "root_error e") (auto dest: no)
    then show ?thesis unfolding root using Some by (auto simp: classifyPgErr_def MapError_def)
  qed (simp add: classifyPgErr_def)
  ultimately show ?thesis by blast
qed

end
