(* ===== verification/SampleTokens.thy ===== *)
theory SampleTokens
  imports Keys
begin

text \<open>
  Two bearer tokens that differ only in their environment tag, used where a
  property is instantiated.  Their cache keys are computed.
\<close>

definition sample_kid :: string where "sample_kid = ''0123456789abcdef''"
definition sample_secret :: string where "sample_secret = ''0123456789abcdef0123456789abcdef''"

definition sample_tok :: "string \<Rightarrow> ParsedKey" where
  "sample_tok e = \<lparr> pk_Env = e, pk_KeyID = sample_kid, pk_Secret = sample_secret,
     pk_FullToken = full_token e sample_kid sample_secret \<rparr>"

lemma sample_tok_sel [simp]:
  "pk_Env (sample_tok e) = e" "pk_KeyID (sample_tok e) = sample_kid" "pk_Secret (sample_tok e) = sample_secret"
  by (simp_all add: sample_tok_def)

lemma sample_tok_parse:
  assumes "IsValid e"
  shows "ParseBearer (''Bearer '' @ pk_FullToken (sample_tok e)) = Inr (sample_tok e)"
  unfolding sample_tok_def using assms
  by (intro ParseBearer_full_token)
    (auto simp: sample_kid_def sample_secret_def token_consts graphic_def is_space_def)

lemma sample_digests:
  "sha256_hex ''acd_live_0123456789abcdef_0123456789abcdef0123456789abcdef''
   \<noteq> sha256_hex ''acd_dev_0123456789abcdef_0123456789abcdef0123456789abcdef''"
  by code_simp

lemma sample_cache_keys: "CacheKey (sample_tok ''live'') \<noteq> CacheKey (sample_tok ''dev'')"
  using sample_digests
  by (simp add: CacheKey_def sample_tok_def full_token_def sample_kid_def sample_secret_def)

end
