(* ===== verification/AuthMiddleware.thy ===== *)
theory AuthMiddleware
  imports VerifyCache KeyStore Http SampleTokens
begin

text \<open>
  The authentication middleware (\<^verbatim>\<open>internal/auth/middleware.go\<close>): resolving a parsed
  token through the cache or the database, and turning a request into an
  authenticated one or a 401.
\<close>

section \<open>State and environment\<close>

text \<open>
  The state shared by all requests: the verify cache, the lazily computed
  dummy hash, the ids handed to background \<^verbatim>\<open>TouchLastUsed\<close> calls, and the
  cost parameters (time, memory, threads) of every argon2id run so far,
  which is what the timing of a response shows.
\<close>

record 'l auth_state =
  as_cache :: "'l VerifyCache"
  as_dummy :: "string option"
  as_touched :: "string list"
  as_work :: "(nat \<times> nat \<times> nat) list"

text \<open>The clock readings of one request and the bytes read for the dummy hash's salt.\<close>

record auth_env =
  ae_get :: instant
  ae_put :: instant
  ae_active :: instant
  ae_salt :: "bytes result"

section \<open>Context accessors\<close>

definition NewContext :: "request \<Rightarrow> WorkspaceContext \<Rightarrow> request" where
  "NewContext r ws = r\<lparr>rq_ctx_ws := Some ws\<rparr>"

definition FromContext :: "request \<Rightarrow> WorkspaceContext option" where
  "FromContext r = rq_ctx_ws r"

definition MustFromContext :: "(WorkspaceContext \<Rightarrow> 'w handler) \<Rightarrow> 'w handler" where
  "MustFromContext k r w s =
    (case FromContext r of None \<Rightarrow> Panicked ''auth: WorkspaceContext missing from context'' w s
     | Some ws \<Rightarrow> k ws r w s)"

section \<open>Resolving a token\<close>

text \<open>The argon2id runs of one \<^verbatim>\<open>VerifySecret\<close>: it runs once, with the stored parameters,
  if the stored string is well-formed, and not at all otherwise.\<close>

definition verify_work :: "string \<Rightarrow> (nat \<times> nat \<times> nat) list" where
  "verify_work phc =
    (let parts = split_byte (CHR ''$'') phc in
     if length parts \<noteq> 6 \<or> parts ! 1 \<noteq> ''argon2id'' then [] else
     if scan_version (parts ! 2) \<noteq> Some (int argonVersion) then [] else
     case scan_params (parts ! 3) of None \<Rightarrow> [] | Some (m, t, p) \<Rightarrow>
     case RawStdDecoding (parts ! 4) of None \<Rightarrow> [] | Some salt \<Rightarrow>
     case RawStdDecoding (parts ! 5) of None \<Rightarrow> [] | Some want \<Rightarrow>
     if length want \<noteq> argonKeyLen then [] else [(t, m, p)])"

definition hash_work :: "bytes result \<Rightarrow> (nat \<times> nat \<times> nat) list" where
  "hash_work saltRead = (if is_ok saltRead then [(argonTime, argonMemory, argonThreads)] else [])"

text \<open>The two branches after a cache miss: burning time on an unknown key, and
  verifying a found one.\<close>

definition burn_dummy :: "argon2 \<Rightarrow> auth_env \<Rightarrow> 'l auth_state \<Rightarrow> 'l auth_state" where
  "burn_dummy idkey env s =
    (let (h, d) = DummyHash idkey (ae_salt env) (as_dummy s)
     in s\<lparr>as_dummy := d,
          as_work := as_work s @ (if as_dummy s = None then hash_work (ae_salt env) else []) @ verify_work h\<rparr>)"

definition verify_found ::
  "('l, cachedKey) lru_ops \<Rightarrow> argon2 \<Rightarrow> auth_env \<Rightarrow> ParsedKey \<Rightarrow> KeyRecord \<Rightarrow> 'l auth_state
    \<Rightarrow> KeyRecord result \<times> 'l auth_state" where
  "verify_found ops idkey env p rec s =
    (let s1 = s\<lparr>as_work := as_work s @ verify_work (kr_SecretHash rec)\<rparr> in
     case VerifySecret idkey (pk_Secret p) (kr_SecretHash rec) of
       Some e \<Rightarrow> (Inl e, s1)
     | None \<Rightarrow> (Inr rec, s1\<lparr>as_cache := cache_Put ops (ae_put env) (as_cache s1) (CacheKey p) rec\<rparr>))"

text \<open>\<open>lookup\<close> is the \<^verbatim>\<open>FindByKeyID\<close> of the \<^verbatim>\<open>KeyFinder\<close> interface, at the moment of the lookup.\<close>

definition resolve ::
  "('l, cachedKey) lru_ops \<Rightarrow> argon2 \<Rightarrow> (string \<Rightarrow> KeyRecord result) \<Rightarrow> auth_env \<Rightarrow> ParsedKey \<Rightarrow> 'l auth_state
    \<Rightarrow> KeyRecord result \<times> 'l auth_state" where
  "resolve ops idkey lookup env p s =
    (case cache_Get ops (ae_get env) (as_cache s) (CacheKey p) of
       (Some rec, c) \<Rightarrow> (Inr rec, s\<lparr>as_cache := c\<rparr>)
     | (None, c) \<Rightarrow>
        let s1 = s\<lparr>as_cache := c\<rparr> in
        (case lookup (pk_KeyID p) of
           Inl e \<Rightarrow> (Inl e, burn_dummy idkey env s1)
         | Inr rec \<Rightarrow> verify_found ops idkey env p rec s1))"

definition RevokeFromCache :: "string \<Rightarrow> 'l auth_state \<Rightarrow> 'l auth_state" where
  "RevokeFromCache i s = s\<lparr>as_cache := RevokeByDBID (as_cache s) i\<rparr>"

section \<open>The middleware\<close>

text \<open>The loop of \<^verbatim>\<open>itoa\<close> fills the buffer from its end.\<close>

fun itoa_loop :: "nat \<Rightarrow> string \<Rightarrow> string" where
  "itoa_loop i buf = (if i = 0 then buf else itoa_loop (i div 10) (digit_char (i mod 10) # buf))"

declare itoa_loop.simps [simp del]

text \<open>On a 64-bit int; negating the least value leaves it negative, and the loop does not run.\<close>

definition itoa :: "int \<Rightarrow> string" where
  "itoa i =
    (if i = 0 then ''0'' else
     let neg = i < 0; j = (if neg then (if i = - (2 ^ 63) then i else - i) else i);
         buf = itoa_loop (nat j) []
     in if neg then CHR ''-'' # buf else buf)"

definition writeAuthError :: "int \<Rightarrow> string \<Rightarrow> string \<Rightarrow> response_writer \<Rightarrow> response_writer" where
  "writeAuthError st code detail w =
    write_body (''{'' @ [CHR 0x22] @ ''type'' @ [CHR 0x22] @ '':'' @ [CHR 0x22] @ ''about:blank'' @ [CHR 0x22]
        @ '','' @ [CHR 0x22] @ ''title'' @ [CHR 0x22] @ '':'' @ [CHR 0x22] @ code @ [CHR 0x22]
        @ '','' @ [CHR 0x22] @ ''status'' @ [CHR 0x22] @ '':'' @ itoa st
        @ '','' @ [CHR 0x22] @ ''detail'' @ [CHR 0x22] @ '':'' @ [CHR 0x22] @ detail @ [CHR 0x22] @ ''}'')
      (write_header st
        (set_header ''Www-Authenticate'' (''Bearer realm='' @ [CHR 0x22] @ ''agentcoopdb'' @ [CHR 0x22])
          (set_header ''Content-Type'' ''application/problem+json'' w)))"

text \<open>What \<^verbatim>\<open>Authenticate\<close> decides before it either answers or calls the next handler.\<close>

datatype auth_decision =
    Deny int string string
  | Admit WorkspaceContext

definition ws_of :: "KeyRecord \<Rightarrow> WorkspaceContext" where
  "ws_of rec = \<lparr> ws_WorkspaceID = kr_WorkspaceID rec, ws_KeyID = kr_KeyID rec, ws_KeyDBID = kr_ID rec,
     ws_PgRole = kr_PgRole rec, ws_Env = kr_Env rec \<rparr>"

definition authenticate ::
  "('l, cachedKey) lru_ops \<Rightarrow> argon2 \<Rightarrow> (string \<Rightarrow> KeyRecord result) \<Rightarrow> auth_env \<Rightarrow> string \<Rightarrow> 'l auth_state
    \<Rightarrow> auth_decision \<times> 'l auth_state" where
  "authenticate ops idkey lookup env header s =
    (case ParseBearer header of
       Inl e \<Rightarrow> (Deny 401 ''missing_or_invalid_api_key''
                  (''Authorization header must be '' @ [CHR 0x27] @ ''Bearer acd_<env>_<id>_<secret>'' @ [CHR 0x27]), s)
     | Inr parsed \<Rightarrow>
        (case resolve ops idkey lookup env parsed s of
           (Inl e, s1) \<Rightarrow>
              if errors_is e ErrKeyNotFound \<or> errors_is e ErrInvalidKey
              then (Deny 401 ''invalid_api_key'' ''the supplied API key is not valid'', s1)
              else (Deny 500 ''auth_internal'' ''internal authentication error'', s1)
         | (Inr rec, s1) \<Rightarrow>
              if \<not> Active rec (ae_active env)
              then (Deny 401 ''key_inactive'' ''this key is revoked or expired'', s1)
              else (Admit (ws_of rec), s1\<lparr>as_touched := as_touched s1 @ [kr_ID rec]\<rparr>)))"

text \<open>The server state of an application is any record with the authentication state in it.\<close>

record 'l auth_world =
  aw_auth :: "'l auth_state"

definition Authenticate ::
  "('l, cachedKey) lru_ops \<Rightarrow> argon2 \<Rightarrow> (('l, 'x) auth_world_scheme \<Rightarrow> string \<Rightarrow> KeyRecord result) \<Rightarrow> auth_env
    \<Rightarrow> ('l, 'x) auth_world_scheme handler \<Rightarrow> ('l, 'x) auth_world_scheme handler" where
  "Authenticate ops idkey lookup env nxt r w s =
    (case authenticate ops idkey (lookup s) env (header_get (rq_Header r) ''Authorization'') (aw_auth s) of
       (Deny st code detail, a) \<Rightarrow> Returned (writeAuthError st code detail w) (s\<lparr>aw_auth := a\<rparr>)
     | (Admit ws, a) \<Rightarrow> nxt (NewContext r ws) w (s\<lparr>aw_auth := a\<rparr>))"

section \<open>The system: requests, evictions and store operations in time\<close>

text \<open>
  Requests read the clock in the order get, put, active; store operations
  happen at their transaction time; the system's clock never goes back.
  Any database call may fail (\<open>penv\<close>, and the \<open>pg_env\<close> inside a store operation).
\<close>

record 'l auth_sys =
  sy_auth :: "'l auth_state"
  sy_db :: key_db
  sy_now :: instant

inductive auth_step ::
  "('l, cachedKey) lru_ops \<Rightarrow> (string \<Rightarrow> string result) \<Rightarrow> (duration \<Rightarrow> duration result) \<Rightarrow> argon2
    \<Rightarrow> 'l auth_sys \<Rightarrow> 'l auth_sys \<Rightarrow> bool"
  for ops up iv idkey where
  Request: "\<lbrakk> sy_now s \<le> ae_get env; ae_get env \<le> ae_put env; ae_put env \<le> ae_active env;
      authenticate ops idkey (FindByKeyID penv (sy_db s)) env header (sy_auth s) = (d, a) \<rbrakk>
    \<Longrightarrow> auth_step ops up iv idkey s (s\<lparr>sy_auth := a, sy_now := ae_active env\<rparr>)"
| Evict: "auth_step ops up iv idkey s (s\<lparr>sy_auth := RevokeFromCache i (sy_auth s)\<rparr>)"
| Store: "sy_now s \<le> op_now x \<Longrightarrow>
    auth_step ops up iv idkey s (s\<lparr>sy_db := store_step up iv idkey (sy_db s) x, sy_now := op_now x\<rparr>)"

inductive auth_reach ::
  "('l, cachedKey) lru_ops \<Rightarrow> (string \<Rightarrow> string result) \<Rightarrow> (duration \<Rightarrow> duration result) \<Rightarrow> argon2
    \<Rightarrow> 'l auth_sys \<Rightarrow> 'l auth_sys \<Rightarrow> bool"
  for ops up iv idkey s0 where
  Start: "auth_reach ops up iv idkey s0 s0"
| Step: "auth_reach ops up iv idkey s0 s \<Longrightarrow> auth_step ops up iv idkey s s' \<Longrightarrow> auth_reach ops up iv idkey s0 s'"

text \<open>
  What justifies a cache entry \<open>ck\<close> under the key \<open>h\<close>: a token with that cache key
  whose secret verifies against a row of the current table, of which \<open>ck\<close> is
  an earlier reading; if the row has been revoked since, then not before \<open>ck\<close>
  was verified.
\<close>

definition justified :: "argon2 \<Rightarrow> key_db \<Rightarrow> instant \<Rightarrow> string \<Rightarrow> cachedKey \<Rightarrow> bool" where
  "justified idkey db now h ck \<longleftrightarrow> (\<exists>p row0 row. CacheKey p = h \<and> ck_rec ck = scan_key row0
     \<and> row \<in> set (kd_api_keys db) \<and> row_le row0 row \<and> ak_key_id row = pk_KeyID p
     \<and> VerifySecret idkey (pk_Secret p) (ak_secret_hash row) = None
     \<and> ck_verifiedAt ck \<le> now
     \<and> (ak_revoked_at row = ak_revoked_at row0 \<or> (\<exists>t. ak_revoked_at row = Some t \<and> ck_verifiedAt ck \<le> t)))"

definition auth_inv :: "('l \<Rightarrow> string \<Rightarrow> cachedKey option) \<Rightarrow> argon2 \<Rightarrow> 'l auth_sys \<Rightarrow> bool" where
  "auth_inv view idkey s \<longleftrightarrow> wf_keys (sy_db s)
    \<and> (\<forall>h ck. view (vc_lru (as_cache (sy_auth s))) h = Some ck \<longrightarrow> justified idkey (sy_db s) (sy_now s) h ck)"

section \<open>What resolving does\<close>

context verify_cache
begin

lemma Get_keeps:
  "view (vc_lru (snd (cache_Get ops now c token))) h = Some ck \<Longrightarrow> view (vc_lru c) h = Some ck"
  by (auto simp: Get_view split: if_splits)

lemma resolve_entries:
  assumes "resolve ops idkey lookup env p s = (r, s')"
    and "view (vc_lru (as_cache s')) h = Some ck"
  shows "view (vc_lru (as_cache s)) h = Some ck \<or>
    h = CacheKey p \<and> ck_verifiedAt ck = ae_put env \<and> lookup (pk_KeyID p) = Inr (ck_rec ck)
      \<and> VerifySecret idkey (pk_Secret p) (kr_SecretHash (ck_rec ck)) = None"
proof -
  obtain g c where g: "cache_Get ops (ae_get env) (as_cache s) (CacheKey p) = (g, c)" by fastforce
  have keep: "view (vc_lru c) h = Some ck \<Longrightarrow> view (vc_lru (as_cache s)) h = Some ck"
    using Get_keeps[of "ae_get env" "as_cache s" "CacheKey p" h ck] by (simp add: g)
  show ?thesis
    using assms g keep
    by (auto simp: resolve_def burn_dummy_def verify_found_def cache_Put_def Let_def
        split: option.splits sum.splits prod.splits dest!: add_sub)
qed

lemma resolve_ttl:
  "vc_ttl (as_cache (snd (resolve ops idkey lookup env p s))) = vc_ttl (as_cache s)"
proof -
  obtain g c where g: "cache_Get ops (ae_get env) (as_cache s) (CacheKey p) = (g, c)" by fastforce
  then have "vc_ttl c = vc_ttl (as_cache s)" by (metis Get_frame(1) snd_conv)
  then show ?thesis
    by (auto simp: resolve_def g burn_dummy_def verify_found_def cache_Put_def Let_def
        split: option.split sum.split prod.split)
qed

text \<open>A record comes from a fresh entry of the cache or from the database.\<close>

lemma resolve_source:
  assumes "resolve ops idkey lookup env p s = (Inr rec, s')"
  shows "(\<exists>ck. view (vc_lru (as_cache s)) (CacheKey p) = Some ck \<and> rec = ck_rec ck
            \<and> ae_get env - ck_verifiedAt ck \<le> vc_ttl (as_cache s))
    \<or> lookup (pk_KeyID p) = Inr rec \<and> VerifySecret idkey (pk_Secret p) (kr_SecretHash rec) = None"
proof -
  obtain g c where g: "cache_Get ops (ae_get env) (as_cache s) (CacheKey p) = (g, c)" by fastforce
  show ?thesis
  proof (cases g)
    case None
    with assms g show ?thesis
      by (auto simp: resolve_def verify_found_def Let_def split: option.splits sum.splits)
  next
    case (Some r)
    then have "fst (cache_Get ops (ae_get env) (as_cache s) (CacheKey p)) = Some r" by (simp add: g)
    moreover have "r = rec" using assms g Some by (simp add: resolve_def)
    ultimately show ?thesis by (auto simp: Get_value split: option.splits if_splits)
  qed
qed

text \<open>The state after a decision is the state after resolving, up to the background touch.\<close>

lemma authenticate_entries:
  assumes "authenticate ops idkey lookup env header s = (d, s')"
    and "view (vc_lru (as_cache s')) h = Some ck"
  shows "view (vc_lru (as_cache s)) h = Some ck \<or>
    (\<exists>p. h = CacheKey p \<and> ck_verifiedAt ck = ae_put env \<and> lookup (pk_KeyID p) = Inr (ck_rec ck)
      \<and> VerifySecret idkey (pk_Secret p) (kr_SecretHash (ck_rec ck)) = None)"
proof (cases "ParseBearer header")
  case (Inl e)
  with assms show ?thesis by (simp add: authenticate_def)
next
  case (Inr p)
  obtain r s1 where r: "resolve ops idkey lookup env p s = (r, s1)" by fastforce
  have "as_cache s' = as_cache s1"
    using assms(1) Inr r by (auto simp: authenticate_def split: sum.splits if_splits)
  with resolve_entries[OF r] assms(2) show ?thesis by auto
qed

lemma authenticate_ttl:
  "vc_ttl (as_cache (snd (authenticate ops idkey lookup env header s))) = vc_ttl (as_cache s)"
proof (cases "ParseBearer header")
  case (Inr p)
  obtain r s1 where r: "resolve ops idkey lookup env p s = (r, s1)" by fastforce
  then have "vc_ttl (as_cache s1) = vc_ttl (as_cache s)" by (metis resolve_ttl snd_conv)
  then show ?thesis by (auto simp: authenticate_def Inr r split: sum.split)
qed (simp add: authenticate_def)

end

lemma Admit_resolved:
  assumes "authenticate ops idkey lookup env header s = (Admit ws, s')"
  obtains p rec s1 where "ParseBearer header = Inr p" "resolve ops idkey lookup env p s = (Inr rec, s1)"
    "Active rec (ae_active env)" "ws = ws_of rec" "s' = s1\<lparr>as_touched := as_touched s1 @ [kr_ID rec]\<rparr>"
  using assms by (auto simp: authenticate_def split: sum.splits prod.splits if_splits)

section \<open>The invariant\<close>

lemma justified_mono:
  assumes "justified idkey db now h ck" "db_step t db db'" "now \<le> t"
  shows "justified idkey db' t h ck"
proof -
  from assms(1) obtain p row0 row where j: "CacheKey p = h" "ck_rec ck = scan_key row0"
    "row \<in> set (kd_api_keys db)" "row_le row0 row" "ak_key_id row = pk_KeyID p"
    "VerifySecret idkey (pk_Secret p) (ak_secret_hash row) = None" "ck_verifiedAt ck \<le> now"
    "ak_revoked_at row = ak_revoked_at row0 \<or> (\<exists>t. ak_revoked_at row = Some t \<and> ck_verifiedAt ck \<le> t)"
    unfolding justified_def by auto
  from j(3) assms(2) obtain row' where r': "row' \<in> set (kd_api_keys db')" "row_step t row row'"
    unfolding db_step_def by blast
  have "row_le row0 row'" using j(4) r'(2) row_le_trans by (auto simp: row_step_def)
  moreover have "ak_revoked_at row' = ak_revoked_at row0 \<or> (\<exists>t. ak_revoked_at row' = Some t \<and> ck_verifiedAt ck \<le> t)"
    using j(7,8) assms(3) r'(2) by (auto simp: row_step_def row_le_def)
  ultimately show ?thesis
    using j r' assms(3) unfolding justified_def
    by (intro exI[of _ p] exI[of _ row0] exI[of _ row']) (auto simp: row_step_def row_le_def)
qed

lemma justified_later: "justified idkey db now h ck \<Longrightarrow> now \<le> t \<Longrightarrow> justified idkey db t h ck"
  using justified_mono[OF _ db_step_refl] .

lemma justified_fresh:
  assumes "wf_keys db" "FindByKeyID penv db (pk_KeyID p) = Inr (ck_rec ck)"
    and "VerifySecret idkey (pk_Secret p) (kr_SecretHash (ck_rec ck)) = None" "ck_verifiedAt ck \<le> now"
  shows "justified idkey db now (CacheKey p) ck"
proof -
  obtain row where "row \<in> set (kd_api_keys db)" "ak_key_id row = pk_KeyID p" "ck_rec ck = scan_key row"
    using assms(2) by (rule FindByKeyID_ok)
  then show ?thesis using assms(3,4) unfolding justified_def
    by (intro exI[of _ p] exI[of _ row]) (auto simp: scan_key_def)
qed

lemma auth_inv_step:
  assumes "lru_cache ops view ok cap" "auth_inv view idkey s" "auth_step ops up iv idkey s s'"
  shows "auth_inv view idkey s' \<and> vc_ttl (as_cache (sy_auth s')) = vc_ttl (as_cache (sy_auth s))"
  using assms(3)
proof cases
  case (Request env penv header d a)
  note vc = verify_cache.intro[OF assms(1)]
  have now: "sy_now s \<le> ae_active env" using Request(2-4) by simp
  have "justified idkey (sy_db s) (ae_active env) h ck" if "view (vc_lru (as_cache a)) h = Some ck" for h ck
    using verify_cache.authenticate_entries[OF vc Request(5) that] assms(2) Request(4)
      justified_later[OF _ now, of idkey "sy_db s" h ck]
    by (auto simp: auth_inv_def intro: justified_fresh)
  then show ?thesis
    using assms(2) verify_cache.authenticate_ttl[OF vc, of idkey "FindByKeyID penv (sy_db s)" env header "sy_auth s"]
    by (auto simp: auth_inv_def Request)
next
  case (Evict i)
  with assms(2) show ?thesis by (auto simp: auth_inv_def RevokeFromCache_def RevokeByDBID_def)
next
  case (Store x)
  have "wf_keys (sy_db s)" using assms(2) by (simp add: auth_inv_def)
  note w = step_wf[OF this, of up iv idkey x]
  with assms(2) Store show ?thesis by (auto simp: auth_inv_def intro: justified_mono)
qed

lemma auth_inv_reach:
  assumes "lru_cache ops view ok cap" "auth_reach ops up iv idkey s0 s"
    and "wf_keys (sy_db s0)" "\<And>h. view (vc_lru (as_cache (sy_auth s0))) h = None"
  shows "auth_inv view idkey s \<and> vc_ttl (as_cache (sy_auth s)) = vc_ttl (as_cache (sy_auth s0))"
  using assms(2)
proof induction
  case Start
  show ?case using assms(3,4) by (simp add: auth_inv_def)
next
  case (Step s s')
  then show ?case using auth_inv_step[OF assms(1)] by metis
qed

section \<open>The KeyFinder interface\<close>

text \<open>What the middleware relies on: a lookup answers for the key it was asked
  for, and a touch changes nothing but the time of last use.\<close>

locale key_finder =
  fixes lookup :: "'st \<Rightarrow> string \<Rightarrow> KeyRecord result"
    and touch :: "string \<Rightarrow> 'st \<Rightarrow> 'st"
  assumes lookup_key: "lookup st k = Inr r \<Longrightarrow> kr_KeyID r = k"
    and touch_lookup: "lookup st k = Inr r \<Longrightarrow> \<exists>t. lookup (touch i st) k = Inr (r\<lparr>kr_LastUsedAt := t\<rparr>)"
begin

lemma fresh_verification:
  assumes "resolve ops idkey (lookup st) env p s = (Inr rec, s')"
    and "fst (cache_Get ops (ae_get env) (as_cache s) (CacheKey p)) = None"
  shows "kr_KeyID rec = pk_KeyID p \<and> VerifySecret idkey (pk_Secret p) (kr_SecretHash rec) = None"
  using assms lookup_key
  by (auto simp: resolve_def verify_found_def Let_def split: prod.splits option.splits sum.splits)

text \<open>The background touch of one request cannot change the outcome of another.\<close>

lemma touch_same_outcome:
  assumes "lookup st (pk_KeyID p) = Inr r"
  shows "\<exists>r'. lookup (touch i st) (pk_KeyID p) = Inr r' \<and> ws_of r' = ws_of r
    \<and> Active r' now = Active r now \<and> kr_SecretHash r' = kr_SecretHash r"
  using touch_lookup[OF assms, of i] by (auto simp: ws_of_def Active_def)

end

lemma filter_upd_rows:
  "(\<And>r. q (f r) = q r) \<Longrightarrow> filter q (upd_rows p f rs) = upd_rows p f (filter q rs)"
  by (induction rs) auto

lemma TouchLastUsed_lookup:
  assumes "FindByKeyID env db k = Inr r"
  shows "\<exists>t. FindByKeyID env (snd (TouchLastUsed up env' i db)) k = Inr (r\<lparr>kr_LastUsedAt := t\<rparr>)"
proof -
  let ?rows = "\<lambda>db. filter (\<lambda>r. ak_key_id r = k) (kd_api_keys db)"
  have "snd (TouchLastUsed up env' i db) = db \<or> (\<exists>u t. snd (TouchLastUsed up env' i db) =
      db\<lparr>kd_api_keys := upd_rows (\<lambda>r. ak_id r = u) (\<lambda>r. r\<lparr>ak_last_used_at := Some t\<rparr>) (kd_api_keys db)\<rparr>)"
    by (auto simp: TouchLastUsed_def pool_exec_def update_api_keys_def split: sum.split option.split)
  moreover from assms obtain row rest where "?rows db = row # rest" "r = scan_key row" "pg_stmt env 0 = None"
    by (auto simp: FindByKeyID_def query_row_def split: sum.splits option.splits list.splits if_splits)
  ultimately show ?thesis
    by (auto simp: FindByKeyID_def query_row_def scan_key_def filter_upd_rows intro: exI)
qed

interpretation store_finder: key_finder "FindByKeyID env" "\<lambda>i db. snd (TouchLastUsed up env' i db)" for env up env'
proof
  show "kr_KeyID r = k" if "FindByKeyID env st k = Inr r" for st k r
    using that by (rule FindByKeyID_ok) (simp add: scan_key_def)
qed (rule TouchLastUsed_lookup)

section \<open>Properties\<close>


text \<open>
  (C17) An unknown key id costs what a wrong secret costs: on a cache miss, once
  the dummy hash has been computed, a request whose key id is not in the
  table performs exactly one argon2id run with the same cost parameters as a
  request for an existing key (whose hash the gateway made) with any
  secret.  The first miss of the process performs two.
\<close>

theorem unknown_key_costs_the_same:
  assumes "argon2_len idkey" "HashSecret idkey (Inr salt) x = Inr (kr_SecretHash rec)"
    and "fst (cache_Get ops (ae_get env) (as_cache s) (CacheKey p)) = None"
    and "lookup (pk_KeyID p) = Inl e" "lookup' (pk_KeyID p) = Inr rec"
    and "ae_salt env = Inr dsalt"
    and "as_dummy s = None \<or> as_dummy s = Some dh
      \<and> HashSecret idkey (Inr dsalt') ''agentcoopdb_dummy_secret_for_timing_safety'' = Inr dh"
  shows "as_work (snd (resolve ops idkey lookup' env p s)) = as_work s @ [(argonTime, argonMemory, argonThreads)]
    \<and> as_work (snd (resolve ops idkey lookup env p s)) = as_work s
        @ (if as_dummy s = None then [(argonTime, argonMemory, argonThreads)] else [])
        @ [(argonTime, argonMemory, argonThreads)]"
proof -
  have work: "verify_work phc = [(argonTime, argonMemory, argonThreads)]"
    if "HashSecret idkey (Inr sl) y = Inr phc" for sl y phc
  proof -
    from that have "split_byte (CHR ''$'') phc =
      [[], ''argon2id'', ''v='' @ show_nat argonVersion, phc_params, RawStdEncoding sl,
       RawStdEncoding (idkey y sl argonTime argonMemory argonThreads argonKeyLen)]"
      unfolding HashSecret_ok using split_phc by auto
    then show ?thesis using scan_phc assms(1) by (simp add: verify_work_def argon2_len_def)
  qed
  obtain c where g: "cache_Get ops (ae_get env) (as_cache s) (CacheKey p) = (None, c)"
    using assms(3) by (metis prod.collapse)
  show ?thesis
    using assms(4-7) work[OF assms(2)] work
    by (auto simp: resolve_def g verify_found_def burn_dummy_def DummyHash_def Let_def HashSecret_def
        hash_work_def split: option.splits)
qed

section \<open>A concrete run\<close>

text \<open>One live key in the table, whose hash the gateway made; a cache of eight entries with a TTL of 300.\<close>

definition trace_hash :: string where
  "trace_hash = (case HashSecret sample_argon (Inr (replicate 16 CHR ''s'')) sample_secret of Inr h \<Rightarrow> h | Inl e \<Rightarrow> [])"

definition trace_row :: "instant option \<Rightarrow> api_key_row" where
  "trace_row rvk = sample_row\<lparr>ak_key_id := sample_kid, ak_secret_hash := trace_hash, ak_env := ''live'',
     ak_expires_at := None, ak_revoked_at := rvk\<rparr>"

definition trace_db :: "instant option \<Rightarrow> key_db" where
  "trace_db rvk = sample_db\<lparr>kd_api_keys := [trace_row rvk]\<rparr>"

definition trace_env :: "instant \<Rightarrow> auth_env" where
  "trace_env t = \<lparr> ae_get = t, ae_put = t, ae_active = t, ae_salt = Inr [] \<rparr>"

definition trace_auth :: "(string \<times> cachedKey) list \<Rightarrow> string set \<Rightarrow> string list \<Rightarrow> (nat \<times> nat \<times> nat) list
    \<Rightarrow> (string \<times> cachedKey) list auth_state" where
  "trace_auth l rvk ts wk = \<lparr> as_cache = \<lparr> vc_lru = l, vc_ttl = 300, vc_revoked = rvk \<rparr>,
     as_dummy = None, as_touched = ts, as_work = wk \<rparr>"

definition trace_header :: "string \<Rightarrow> string" where
  "trace_header e = ''Bearer '' @ pk_FullToken (sample_tok e)"

lemma trace_verify: "VerifySecret sample_argon sample_secret trace_hash = None"
proof -
  obtain h where h: "HashSecret sample_argon (Inr (replicate 16 CHR ''s'')) sample_secret = Inr h"
    by (auto simp: HashSecret_def Let_def)
  with VerifySecret_hashed[OF sample_facts(1) h] show ?thesis by (simp add: trace_hash_def)
qed

lemma trace_find: "FindByKeyID (pg_fine t) (trace_db rvk) sample_kid = Inr (scan_key (trace_row rvk))"
  by (simp add: FindByKeyID_def query_row_def trace_db_def trace_row_def sample_db_def)

lemma trace_key [simp]:
  "kr_ID (scan_key (trace_row rvk)) = ''1''" "kr_SecretHash (scan_key (trace_row rvk)) = trace_hash"
  "Active (scan_key (trace_row rvk)) now \<longleftrightarrow> rvk = None"
  by (simp_all add: scan_key_def trace_row_def sample_row_def Active_iff)

lemma trace_wf: "wf_keys (trace_db None)"
  by (simp add: wf_keys_def trace_db_def trace_row_def sample_db_def sample_row_def IsValid_def)

lemma trace_parse: "e = ''live'' \<or> e = ''dev'' \<Longrightarrow> ParseBearer (trace_header e) = Inr (sample_tok e)"
  unfolding trace_header_def by (rule sample_tok_parse) (auto simp: IsValid_def)

lemmas trace_eval = authenticate_def trace_parse resolve_def trace_env_def
  trace_auth_def cache_Get_def cache_Put_def list_lru_def verify_found_def trace_find trace_verify Let_def

text \<open>A miss verifies against the database and caches what it read.\<close>

lemma trace_miss:
  assumes "e = ''live'' \<or> e = ''dev''" "map_of l (CacheKey (sample_tok e)) = None"
    "length l < 8"
  shows "\<exists>ts' wk'. authenticate (list_lru (Suc 7)) sample_argon (FindByKeyID (pg_fine t0) (trace_db rvk))
      (trace_env t) (trace_header e) (trace_auth l rv ts wk)
    = (if rvk = None then Admit (ws_of (scan_key (trace_row rvk)))
       else Deny 401 ''key_inactive'' ''this key is revoked or expired'',
       trace_auth ((CacheKey (sample_tok e), \<lparr>ck_rec = scan_key (trace_row rvk), ck_verifiedAt = t\<rparr>) # l)
         (rv - {''1''}) ts' wk')"
proof -
  have "filter (\<lambda>x. fst x \<noteq> CacheKey (sample_tok e)) l = l"
    using assms(2) by (force simp: filter_id_conv map_of_eq_None_iff)
  with assms show ?thesis by (auto simp: trace_eval)
qed

text \<open>A fresh entry whose row is not evicted is used without asking the database.\<close>

lemma trace_hit:
  assumes "e = ''live'' \<or> e = ''dev''"
    and "map_of l (CacheKey (sample_tok e)) = Some \<lparr>ck_rec = scan_key (trace_row None), ck_verifiedAt = t0\<rparr>"
    and "t - t0 \<le> 300" "''1'' \<notin> rv"
  shows "\<exists>a. authenticate (list_lru (Suc 7)) sample_argon lk (trace_env t) (trace_header e) (trace_auth l rv ts wk)
    = (Admit (ws_of (scan_key (trace_row None))), a)"
  using assms by (auto simp: trace_eval)

text \<open>
  (C10) Eviction does not always stick: the middleware never compares the
  environment tag of a token with the row's, so one key answers to three
  token texts with three cache keys, and the Put of any of them clears the
  eviction mark for all.  There is a run in which a key is used once,
  revoked in the database, evicted from the cache, then presented with
  another tag (and rejected as revoked), and after that the original token is
  admitted again although its row is revoked and was evicted.
\<close>

theorem evicted_key_readmitted:
  "\<exists>s0 s1 s2 a. wf_keys (sy_db s0) \<and> vc_lru (as_cache (sy_auth s0)) = []
    \<and> auth_reach (list_lru (Suc 7)) Inr Inr sample_argon s0 s1
    \<and> kd_api_keys (sy_db s1) = [trace_row (Some 1)]
    \<and> auth_reach (list_lru (Suc 7)) Inr Inr sample_argon
        (s1\<lparr>sy_auth := RevokeFromCache ''1'' (sy_auth s1)\<rparr>) s2
    \<and> sy_db s2 = sy_db s1
    \<and> authenticate (list_lru (Suc 7)) sample_argon (FindByKeyID (pg_fine 3) (sy_db s2)) (trace_env 3)
        (trace_header ''live'') (sy_auth s2) = (Admit (ws_of (scan_key (trace_row None))), a)"
proof -
  let ?L = "CacheKey (sample_tok ''live'')" and ?D = "CacheKey (sample_tok ''dev'')"
  let ?reach = "auth_reach (list_lru (Suc 7)) Inr Inr sample_argon"
  let ?c0 = "\<lparr>ck_rec = scan_key (trace_row None), ck_verifiedAt = 0\<rparr>"
  let ?c2 = "\<lparr>ck_rec = scan_key (trace_row (Some 1)), ck_verifiedAt = 2\<rparr>"
  let ?s0 = "\<lparr>sy_auth = trace_auth [] {} [] [], sy_db = trace_db None, sy_now = 0\<rparr>"
  obtain ts wk where r1: "authenticate (list_lru (Suc 7)) sample_argon (FindByKeyID (pg_fine 0) (sy_db ?s0))
      (trace_env 0) (trace_header ''live'') (sy_auth ?s0) = (Admit (ws_of (scan_key (trace_row None))),
        trace_auth [(?L, ?c0)] {} ts wk)"
    using trace_miss[of "''live''" "[]" 0 None 0 "{}" "[]" "[]"] by auto
  let ?s1 = "\<lparr>sy_auth = trace_auth [(?L, ?c0)] {} ts wk, sy_db = trace_db None, sy_now = 0\<rparr>"
  let ?s2 = "\<lparr>sy_auth = trace_auth [(?L, ?c0)] {} ts wk, sy_db = trace_db (Some 1), sy_now = 1\<rparr>"
  have st1: "auth_step (list_lru (Suc 7)) Inr Inr sample_argon ?s0 ?s1"
    using auth_step.Request[OF _ _ _ r1, of Inr Inr] by (simp add: trace_env_def)
  have "store_step Inr Inr sample_argon (trace_db None) (SRevoke (pg_fine 1) ''1'') = trace_db (Some 1)"
    by (simp add: Revoke_def pool_exec_def update_api_keys_def trace_db_def trace_row_def sample_db_def sample_row_def)
  then have st2: "auth_step (list_lru (Suc 7)) Inr Inr sample_argon ?s1 ?s2"
    using auth_step.Store[of ?s1 "SRevoke (pg_fine 1) ''1''" "list_lru (Suc 7)" Inr Inr sample_argon]
    by simp
  have R1: "?reach ?s0 ?s2"
    using auth_reach.Step[OF auth_reach.Step[OF auth_reach.Start st1] st2] .
  let ?e = "?s2\<lparr>sy_auth := RevokeFromCache ''1'' (sy_auth ?s2)\<rparr>"
  have e: "sy_auth ?e = trace_auth [(?L, ?c0)] {''1''} ts wk"
    by (simp add: RevokeFromCache_def RevokeByDBID_def trace_auth_def)
  obtain ts' wk' where r2: "authenticate (list_lru (Suc 7)) sample_argon (FindByKeyID (pg_fine 2) (sy_db ?e))
      (trace_env 2) (trace_header ''dev'') (sy_auth ?e)
      = (Deny 401 ''key_inactive'' ''this key is revoked or expired'',
         trace_auth [(?D, ?c2), (?L, ?c0)] {} ts' wk')"
    using trace_miss[of "''dev''" "[(?L, ?c0)]" 2 "Some 1" 2 "{''1''}" ts wk] sample_cache_keys
    unfolding e by auto
  let ?s3 = "?e\<lparr>sy_auth := trace_auth [(?D, ?c2), (?L, ?c0)] {} ts' wk', sy_now := 2\<rparr>"
  have R2: "?reach ?e ?s3"
    using auth_reach.Step[OF auth_reach.Start auth_step.Request[OF _ _ _ r2, of Inr Inr]]
    by (simp add: trace_env_def)
  have "map_of [(?D, ?c2), (?L, ?c0)] ?L = Some ?c0" using sample_cache_keys by simp
  from trace_hit[OF _ this, of 3 "{}" "FindByKeyID (pg_fine 3) (sy_db ?s3)" ts' wk']
  obtain a where "authenticate (list_lru (Suc 7)) sample_argon (FindByKeyID (pg_fine 3) (sy_db ?s3)) (trace_env 3)
      (trace_header ''live'') (sy_auth ?s3) = (Admit (ws_of (scan_key (trace_row None))), a)" by auto
  with R1 R2 trace_wf show ?thesis
    by (intro exI[of _ ?s0] exI[of _ ?s2] exI[of _ ?s3] exI[of _ a]) (simp add: trace_auth_def trace_db_def)
qed


theorem unknown_key_costs_the_same_witness:
  "as_work (snd (resolve (list_lru (Suc 7)) sample_argon (FindByKeyID (pg_fine 0) sample_db) (trace_env 0)
      (sample_tok ''dev'') (trace_auth [] {} [] []))) = replicate 2 (argonTime, argonMemory, argonThreads)"
proof -
  have h: "HashSecret sample_argon (Inr (replicate 16 CHR ''s'')) sample_secret
      = Inr (kr_SecretHash (scan_key (trace_row None)))"
    by (simp add: trace_hash_def HashSecret_def Let_def)
  have "FindByKeyID (pg_fine 0) sample_db (pk_KeyID (sample_tok ''dev'')) = Inl (Sentinel ErrKeyNotFound)"
    by (simp add: FindByKeyID_def query_row_def sample_db_def sample_row_def sample_kid_def)
  then show ?thesis
    using unknown_key_costs_the_same[where lookup = "FindByKeyID (pg_fine 0) sample_db"
        and lookup' = "FindByKeyID (pg_fine 0) (trace_db None)" and ops = "list_lru (Suc 7)"
        and env = "trace_env 0" and p = "sample_tok ''dev''" and s = "trace_auth [] {} [] []",
        OF sample_facts(1) h]
    by (simp add: cache_Get_def trace_auth_def list_lru_def trace_find trace_env_def numeral_2_eq_2)
qed

end
