(* ===== verification/Float64.thy ===== *)
theory Float64
  imports Complex_Main
begin

text \<open>
  Go's \<^verbatim>\<open>float64\<close> as reals: \<open>fl64\<close> rounds to a 53-bit significand, to nearest
  with ties to even, which is what every floating-point operation does to its
  exact result.  The values the gateway computes with are far from the ends
  of the exponent range, which is left unbounded.
\<close>

section \<open>What users of floating point rely on\<close>

locale float_rounding =
  fixes fl :: "real \<Rightarrow> real"
  assumes fl_mono: "x \<le> y \<Longrightarrow> fl x \<le> fl y"
    and fl_int: "\<bar>n\<bar> \<le> 2 ^ 53 \<Longrightarrow> fl (of_int n) = of_int n"
    and fl_le: "0 \<le> x \<Longrightarrow> fl x \<le> x * (1 + 1 / 2 ^ 53)"
begin

lemma fl_0 [simp]: "fl 0 = 0"
  using fl_int[of 0] by simp

lemma fl_nonneg: "0 \<le> x \<Longrightarrow> 0 \<le> fl x"
  using fl_mono[of 0 x] by simp

end

section \<open>Rounding to nearest, ties to even\<close>

definition rne :: "real \<Rightarrow> int" where
  "rne x = (let f = \<lfloor>x\<rfloor>; d = x - of_int f
     in if d < 1 / 2 then f else if d > 1 / 2 then f + 1 else if even f then f else f + 1)"

lemma rne_bounds: "\<lfloor>x\<rfloor> \<le> rne x" "rne x \<le> \<lfloor>x\<rfloor> + 1"
  by (auto simp: rne_def Let_def)

lemma rne_int [simp]: "rne (of_int n) = n"
  by (simp add: rne_def)

lemma rne_mono: "x \<le> y \<Longrightarrow> rne x \<le> rne y"
proof -
  assume xy: "x \<le> y"
  show ?thesis
  proof (cases "\<lfloor>x\<rfloor> = \<lfloor>y\<rfloor>")
    case True
    with xy show ?thesis by (auto simp: rne_def Let_def)
  next
    case False
    then have "\<lfloor>x\<rfloor> + 1 \<le> \<lfloor>y\<rfloor>" using floor_mono[OF xy] by simp
    with rne_bounds(2)[of x] rne_bounds(1)[of y] show ?thesis by linarith
  qed
qed

text \<open>The spacing of the 53-bit numbers around a positive \<open>x\<close>.\<close>

definition ulp_exp :: "real \<Rightarrow> int" where
  "ulp_exp x = \<lfloor>log 2 x\<rfloor> - 52"

definition fl_pos :: "real \<Rightarrow> real" where
  "fl_pos x = of_int (rne (x / 2 powi ulp_exp x)) * 2 powi ulp_exp x"

definition fl64 :: "real \<Rightarrow> real" where
  "fl64 x = (if x = 0 then 0 else if x < 0 then - fl_pos (- x) else fl_pos x)"

lemma binade: "0 < x \<Longrightarrow> 2 powi \<lfloor>log 2 x\<rfloor> \<le> x \<and> x < 2 powi (\<lfloor>log 2 x\<rfloor> + 1)"
proof -
  assume x: "0 < x"
  have "2 powr real_of_int \<lfloor>log 2 x\<rfloor> \<le> 2 powr log 2 x" by simp
  moreover have "2 powr log 2 x < 2 powr real_of_int (\<lfloor>log 2 x\<rfloor> + 1)"
    using floor_correct[of "log 2 x"] by (intro powr_less_mono) auto
  moreover have "2 powr real_of_int k = 2 powi k" for k by (simp add: powr_real_of_int')
  moreover have "2 powr log 2 x = x" using x by simp
  ultimately show ?thesis by metis
qed

lemma grid_int:
  assumes "e \<le> k"
  shows "(2::real) powi k / 2 powi e = of_int (2 ^ nat (k - e))"
proof -
  have "(2::real) powi k / 2 powi e = 2 powi (k - e)" by (simp add: power_int_diff)
  also have "\<dots> = 2 ^ nat (k - e)" using assms by (simp add: power_int_def)
  finally show ?thesis by simp
qed

lemma fl_pos_same:
  assumes "0 < x" "x \<le> y" "ulp_exp x = ulp_exp y"
  shows "fl_pos x \<le> fl_pos y"
  using assms by (auto simp: fl_pos_def intro!: mult_right_mono rne_mono divide_right_mono)

lemma fl_pos_ge:
  assumes "0 < y"
  shows "2 powi \<lfloor>log 2 y\<rfloor> \<le> fl_pos y"
proof -
  let ?e = "ulp_exp y" and ?k = "\<lfloor>log 2 y\<rfloor>"
  have "of_int (2 ^ nat (?k - ?e)) \<le> y / 2 powi ?e"
    using binade[OF assms] by (subst grid_int[symmetric]) (auto simp: ulp_exp_def intro!: divide_right_mono)
  from rne_mono[OF this] have "2 ^ nat (?k - ?e) \<le> rne (y / 2 powi ?e)" by (simp only: rne_int)
  then have "of_int (2 ^ nat (?k - ?e)) \<le> (of_int (rne (y / 2 powi ?e)) :: real)" by (simp only: of_int_le_iff)
  then have "(2::real) powi ?k / 2 powi ?e \<le> of_int (rne (y / 2 powi ?e))"
    by (subst grid_int) (auto simp: ulp_exp_def)
  then show ?thesis by (simp add: fl_pos_def field_simps)
qed

lemma fl_pos_le:
  assumes "0 < x" "x \<le> 2 powi k" "ulp_exp x \<le> k"
  shows "fl_pos x \<le> 2 powi k"
proof -
  let ?e = "ulp_exp x"
  have "x / 2 powi ?e \<le> of_int (2 ^ nat (k - ?e))"
    by (subst grid_int[OF assms(3), symmetric]) (use assms(2) in \<open>auto intro!: divide_right_mono\<close>)
  from rne_mono[OF this] have "rne (x / 2 powi ?e) \<le> 2 ^ nat (k - ?e)" by (simp only: rne_int)
  then have "(of_int (rne (x / 2 powi ?e)) :: real) \<le> of_int (2 ^ nat (k - ?e))" by (simp only: of_int_le_iff)
  then have "of_int (rne (x / 2 powi ?e)) \<le> (2::real) powi k / 2 powi ?e"
    by (subst grid_int[OF assms(3)])
  then show ?thesis by (simp add: fl_pos_def field_simps)
qed

lemma fl_pos_mono: "0 < x \<Longrightarrow> x \<le> y \<Longrightarrow> fl_pos x \<le> fl_pos y"
proof -
  assume x: "0 < x" and xy: "x \<le> y"
  then have k: "\<lfloor>log 2 x\<rfloor> \<le> \<lfloor>log 2 y\<rfloor>" by (intro floor_mono) simp
  show ?thesis
  proof (cases "\<lfloor>log 2 x\<rfloor> = \<lfloor>log 2 y\<rfloor>")
    case True
    then show ?thesis using fl_pos_same[OF x xy] by (simp add: ulp_exp_def)
  next
    case False
    with k have "\<lfloor>log 2 x\<rfloor> + 1 \<le> \<lfloor>log 2 y\<rfloor>" by simp
    then have "x \<le> 2 powi \<lfloor>log 2 y\<rfloor>"
      using binade[OF x] by (smt (verit) power_int_increasing)
    then have "fl_pos x \<le> 2 powi \<lfloor>log 2 y\<rfloor>" using k by (intro fl_pos_le[OF x]) (auto simp: ulp_exp_def)
    with fl_pos_ge[of y] x xy show ?thesis by simp
  qed
qed

lemma fl_pos_nonneg: "0 < x \<Longrightarrow> 0 \<le> fl_pos x"
  using fl_pos_ge[of x] by (smt (verit) zero_le_power_int)

lemma fl_pos_int:
  assumes "0 < n" "n \<le> 2 ^ 53"
  shows "fl_pos (of_int n) = of_int n"
proof -
  let ?x = "of_int n :: real" and ?e = "ulp_exp (of_int n)"
  show ?thesis
  proof (cases "n = 2 ^ 53")
    case True
    have "log 2 ?x = log 2 (2 powr 53)" unfolding True by simp
    also have "\<dots> = 53" by (rule log_powr_cancel) auto
    finally have "log 2 ?x = 53" .
    then have "?e = 1" by (simp add: ulp_exp_def)
    then have "?x / 2 powi ?e = of_int (2 ^ 52)" by (simp add: True)
    then show ?thesis unfolding fl_pos_def using \<open>?e = 1\<close> by (simp only: rne_int) (simp add: True)
  next
    case False
    with assms have "n < 2 ^ 53" by simp
    then have "?x < of_int (2 ^ 53)" by (simp only: of_int_less_iff)
    then have "?x < 2 ^ 53" by simp
    then have "log 2 ?x < 53" using assms by (simp add: log_less_iff powr_realpow[symmetric])
    then have e: "?e \<le> 0" by (simp add: ulp_exp_def floor_less_iff) 
    then have "?x / 2 powi ?e = of_int (n * 2 ^ nat (- ?e))"
      by (simp add: power_int_def field_simps)
    then show ?thesis unfolding fl_pos_def by (simp only: rne_int) (use e in \<open>simp add: power_int_def field_simps\<close>)
  qed
qed

lemma rne_le: "of_int (rne x) \<le> x + 1 / 2"
  by (auto simp: rne_def Let_def) linarith+

lemma fl_pos_err:
  assumes "0 < x"
  shows "fl_pos x \<le> x * (1 + 1 / 2 ^ 53)"
proof -
  let ?e = "ulp_exp x"
  have "2 powi (?e + 52) \<le> x" using binade[OF assms] by (simp add: ulp_exp_def)
  then have s: "2 powi ?e * 2 ^ 52 \<le> x" by (simp add: power_int_add)
  have "fl_pos x \<le> (x / 2 powi ?e + 1 / 2) * 2 powi ?e"
    unfolding fl_pos_def by (intro mult_right_mono rne_le) simp
  also have "\<dots> = x + 2 powi ?e / 2" by (simp add: field_simps)
  also have "\<dots> \<le> x + x / 2 ^ 53" using s by simp
  finally show ?thesis by (simp add: algebra_simps)
qed

interpretation ieee: float_rounding fl64
proof
  show "fl64 x \<le> fl64 y" if "x \<le> y" for x y
    using that fl_pos_mono[of x y] fl_pos_mono[of "- y" "- x"] fl_pos_nonneg[of y] fl_pos_nonneg[of "- x"]
    by (auto simp: fl64_def)
  show "fl64 (of_int n) = of_int n" if "\<bar>n\<bar> \<le> 2 ^ 53" for n
    using that fl_pos_int[of n] fl_pos_int[of "- n"] by (auto simp: fl64_def)
  show "fl64 x \<le> x * (1 + 1 / 2 ^ 53)" if "0 \<le> x" for x
    using that fl_pos_err[of x] by (auto simp: fl64_def)
qed

end
