(* ===== verification/RateLimit.thy ===== *)
theory RateLimit
  imports AuthMiddleware Float64
begin

text \<open>
  Per-key rate limiting (\<^verbatim>\<open>internal/httpapi/middleware.go\<close>): the token bucket, the
  bounded table of buckets and the middleware.

  \<^verbatim>\<open>float64\<close> values are reals, and \<open>fl\<close> is the rounding applied to the result
  of every floating-point operation.  The LRU holds pointers: buckets live
  in an explicit heap, and the LRU maps a key to an address.
\<close>

section \<open>Token bucket\<close>

record tokenBucket =
  tb_tokens :: real
  tb_max :: real
  tb_rate :: real
  tb_lastTime :: instant

definition newTokenBucket :: "(real \<Rightarrow> real) \<Rightarrow> instant \<Rightarrow> real \<Rightarrow> int \<Rightarrow> tokenBucket" where
  "newTokenBucket fl now rps burst = \<lparr> tb_tokens = fl (of_int burst), tb_max = fl (of_int burst),
     tb_rate = rps, tb_lastTime = now \<rparr>"

text \<open>\<^verbatim>\<open>Duration.Seconds\<close> of a duration that is not negative: whole seconds plus the rest.\<close>

definition Seconds :: "(real \<Rightarrow> real) \<Rightarrow> duration \<Rightarrow> real" where
  "Seconds fl d = fl (fl (of_int (d div 1000000000)) + fl (fl (of_int (d mod 1000000000)) / 1000000000))"

definition refill :: "(real \<Rightarrow> real) \<Rightarrow> instant \<Rightarrow> tokenBucket \<Rightarrow> tokenBucket" where
  "refill fl now b =
    (let elapsed = Seconds fl (now - tb_lastTime b)
     in b\<lparr>tb_lastTime := now, tb_tokens := min (fl (tb_tokens b + fl (elapsed * tb_rate b))) (tb_max b)\<rparr>)"

definition Allow :: "(real \<Rightarrow> real) \<Rightarrow> instant \<Rightarrow> tokenBucket \<Rightarrow> bool \<times> tokenBucket" where
  "Allow fl now b =
    (let b1 = refill fl now b in
     if tb_tokens b1 < 1 then (False, b1) else (True, b1\<lparr>tb_tokens := fl (tb_tokens b1 - 1)\<rparr>))"

definition Tokens :: "(real \<Rightarrow> real) \<Rightarrow> instant \<Rightarrow> tokenBucket \<Rightarrow> real \<times> tokenBucket" where
  "Tokens fl now b = (let b1 = refill fl now b in (tb_tokens b1, b1))"

definition Rate :: "tokenBucket \<Rightarrow> real" where
  "Rate b = tb_rate b"

section \<open>Table of buckets\<close>

record 'm RateLimit =
  rl_limiters :: 'm
  rl_heap :: "tokenBucket list"
  rl_rps :: real
  rl_burst :: int

definition NewRateLimit :: "'m \<Rightarrow> real \<Rightarrow> int \<Rightarrow> 'm RateLimit" where
  "NewRateLimit cache rps0 burst0 =
    \<lparr> rl_limiters = cache, rl_heap = [], rl_rps = (if rps0 \<le> 0 then 60 else rps0),
      rl_burst = (if burst0 \<le> 0 then 120 else burst0) \<rparr>"

text \<open>The address of the bucket of a key; a new bucket is allocated on a miss.\<close>

definition limiterFor ::
  "('m, nat) lru_ops \<Rightarrow> (real \<Rightarrow> real) \<Rightarrow> instant \<Rightarrow> string \<Rightarrow> 'm RateLimit \<Rightarrow> nat \<times> 'm RateLimit" where
  "limiterFor ops fl now key r =
    (case lru_get ops (rl_limiters r) key of
       (Some l, c) \<Rightarrow> (l, r\<lparr>rl_limiters := c\<rparr>)
     | (None, c) \<Rightarrow>
        let l = length (rl_heap r)
        in (l, r\<lparr>rl_heap := rl_heap r @ [newTokenBucket fl now (rl_rps r) (rl_burst r)],
                 rl_limiters := lru_add ops c key l\<rparr>))"

text \<open>\<^verbatim>\<open>int(f)\<close> truncates towards zero.\<close>

definition trunc :: "real \<Rightarrow> int" where
  "trunc x = (if x < 0 then - \<lfloor>- x\<rfloor> else \<lfloor>x\<rfloor>)"

text \<open>The clock readings of one request: creating a bucket, Allow, Tokens.\<close>

record rate_env =
  rv_new :: instant
  rv_allow :: instant
  rv_tokens :: instant

definition rate_key :: "request \<Rightarrow> string" where
  "rate_key req = (case FromContext req of None \<Rightarrow> ''anon'' | Some ws \<Rightarrow> ws_KeyDBID ws)"

text \<open>The dash of the source's message, in UTF-8.\<close>

definition em_dash :: string where "em_dash = [CHR 0xE2, CHR 0x80, CHR 0x94]"

definition too_fast :: Problem where
  "too_fast = problem ''rate_limited'' 429
     (''this key is sending requests too fast '' @ em_dash @ '' slow down or raise the limit'')"

text \<open>The decision and the headers of one request; then the rest of the chain runs or not.\<close>

definition rate_decide ::
  "('m, nat) lru_ops \<Rightarrow> (real \<Rightarrow> real) \<Rightarrow> rate_env \<Rightarrow> request \<Rightarrow> response_writer \<Rightarrow> 'm RateLimit
    \<Rightarrow> bool \<times> response_writer \<times> 'm RateLimit" where
  "rate_decide ops fl env req w r =
    (let (l, r1) = limiterFor ops fl (rv_new env) (rate_key req) r;
         w1 = set_header ''X-Ratelimit-Limit'' (Itoa (trunc (Rate (rl_heap r1 ! l)))) w;
         (good, b1) = Allow fl (rv_allow env) (rl_heap r1 ! l);
         r2 = r1\<lparr>rl_heap := (rl_heap r1)[l := b1]\<rparr>
     in if \<not> good then
          (False,
           WriteProblem too_fast
             (set_header ''Retry-After'' ''1'' (set_header ''X-Ratelimit-Remaining'' ''0'' w1)), r2)
        else
          let (n, b2) = Tokens fl (rv_tokens env) (rl_heap r2 ! l)
          in (True, set_header ''X-Ratelimit-Remaining'' (Itoa (trunc n)) w1,
              r2\<lparr>rl_heap := (rl_heap r2)[l := b2]\<rparr>))"

record ('l, 'm) limit_world = "'l auth_world" +
  lw_limit :: "'m RateLimit"

definition RateLimit_Middleware ::
  "('m, nat) lru_ops \<Rightarrow> (real \<Rightarrow> real) \<Rightarrow> rate_env \<Rightarrow> ('l, 'm, 'x) limit_world_scheme handler
    \<Rightarrow> ('l, 'm, 'x) limit_world_scheme handler" where
  "RateLimit_Middleware ops fl env nxt req w s =
    (case rate_decide ops fl env req w (lw_limit s) of
       (False, w1, r1) \<Rightarrow> Returned w1 (s\<lparr>lw_limit := r1\<rparr>)
     | (True, w1, r1) \<Rightarrow> nxt req w1 (s\<lparr>lw_limit := r1\<rparr>))"

section \<open>The bucket under rounding\<close>

text \<open>One unit of rounding error, and the bucket's well-formedness.\<close>

definition uround :: real where "uround = 1 / 2 ^ 53"

definition bucket_ok :: "tokenBucket \<Rightarrow> bool" where
  "bucket_ok b \<longleftrightarrow> 0 \<le> tb_tokens b \<and> tb_tokens b \<le> tb_max b \<and> 0 \<le> tb_rate b
    \<and> (\<exists>n. tb_max b = of_int n \<and> 0 \<le> n \<and> n \<le> 2 ^ 53)"

datatype bucket_op = AtAllow instant | AtTokens instant

fun op_time :: "bucket_op \<Rightarrow> instant" where
  "op_time (AtAllow t) = t"
| "op_time (AtTokens t) = t"

fun bucket_step :: "(real \<Rightarrow> real) \<Rightarrow> tokenBucket \<Rightarrow> bucket_op \<Rightarrow> bool \<times> tokenBucket" where
  "bucket_step fl b (AtAllow t) = Allow fl t b"
| "bucket_step fl b (AtTokens t) = (False, snd (Tokens fl t b))"

text \<open>The number of admitted calls in a run, and the bucket afterwards.\<close>

fun bucket_run :: "(real \<Rightarrow> real) \<Rightarrow> tokenBucket \<Rightarrow> bucket_op list \<Rightarrow> nat \<times> tokenBucket" where
  "bucket_run fl b [] = (0, b)"
| "bucket_run fl b (x # xs) =
    (let (a, b1) = bucket_step fl b x; (n, b2) = bucket_run fl b1 xs in ((if a then 1 else 0) + n, b2))"

context float_rounding
begin

lemma uround_pos: "0 < uround" by (simp add: uround_def)

lemma fl_le': "0 \<le> x \<Longrightarrow> fl x \<le> x * (1 + uround)"
  using fl_le by (simp add: uround_def)

lemma Seconds_bounds:
  assumes "0 \<le> d"
  shows "0 \<le> Seconds fl d" "Seconds fl d \<le> of_int d / 1000000000 * (1 + uround) ^ 3"
proof -
  let ?u = "1 + uround" and ?a = "of_int (d div 1000000000) :: real" and ?b = "of_int (d mod 1000000000) :: real"
  have u: "1 \<le> ?u" using uround_pos by simp
  have ab: "0 \<le> ?a" "0 \<le> ?b" using assms by (auto simp: pos_imp_zdiv_nonneg_iff)
  have a: "0 \<le> fl ?a" "fl ?a \<le> ?a * ?u" using ab fl_nonneg fl_le' by auto
  have b: "0 \<le> fl ?b" "fl ?b \<le> ?b * ?u" using ab fl_nonneg fl_le' by auto
  have c: "0 \<le> fl (fl ?b / 1000000000)" using b by (intro fl_nonneg) simp
  have "fl (fl ?b / 1000000000) \<le> fl ?b / 1000000000 * ?u" using b by (intro fl_le') simp
  also have "\<dots> \<le> ?b * ?u / 1000000000 * ?u" using b u by (intro mult_right_mono divide_right_mono) auto
  also have "\<dots> = ?b / 1000000000 * ?u * ?u" by simp
  finally have c': "fl (fl ?b / 1000000000) \<le> ?b / 1000000000 * ?u * ?u" .
  show "0 \<le> Seconds fl d" unfolding Seconds_def using a c by (intro fl_nonneg) simp
  have "?a * ?u * 1 \<le> ?a * ?u * ?u" using ab u by (intro mult_left_mono) auto
  with a c' have "fl ?a + fl (fl ?b / 1000000000) \<le> ?a * ?u * ?u + ?b / 1000000000 * ?u * ?u" by linarith
  also have "\<dots> = (?a + ?b / 1000000000) * ?u * ?u" by (simp only: distrib_right)
  finally have s: "fl ?a + fl (fl ?b / 1000000000) \<le> (?a + ?b / 1000000000) * ?u * ?u" .
  have "?a + ?b / 1000000000 = of_int d / 1000000000"
  proof -
    have "of_int d = ?a * 1000000000 + ?b" by (metis div_mult_mod_eq of_int_add of_int_mult of_int_numeral)
    then show ?thesis by (simp add: field_simps)
  qed
  moreover have "Seconds fl d \<le> (fl ?a + fl (fl ?b / 1000000000)) * ?u"
    unfolding Seconds_def using a c by (intro fl_le') simp
  ultimately have "Seconds fl d \<le> of_int d / 1000000000 * ?u * ?u * ?u"
    using s u by (smt (verit) mult_right_mono)
  then show "Seconds fl d \<le> of_int d / 1000000000 * (1 + uround) ^ 3" by (simp add: eval_nat_numeral algebra_simps)
qed

lemma refill_ok:
  assumes "bucket_ok b" "tb_lastTime b \<le> t"
  shows "bucket_ok (refill fl t b)" "tb_lastTime (refill fl t b) = t" "tb_max (refill fl t b) = tb_max b"
    "tb_rate (refill fl t b) = tb_rate b"
    "tb_tokens (refill fl t b) \<le> tb_tokens b
       + tb_rate b * (of_int (t - tb_lastTime b) / 1000000000) * (1 + uround) ^ 4 + uround * tb_max b"
proof -
  let ?d = "t - tb_lastTime b"
  let ?s = "Seconds fl ?d" and ?g = "fl (Seconds fl ?d * tb_rate b)"
  from assms have b: "0 \<le> tb_tokens b" "tb_tokens b \<le> tb_max b" "0 \<le> tb_rate b" "0 \<le> tb_max b"
    by (auto simp: bucket_ok_def)
  have s: "0 \<le> ?s" "?s \<le> of_int ?d / 1000000000 * (1 + uround) ^ 3" using Seconds_bounds[of ?d] assms(2) by auto
  have g: "0 \<le> ?g" using s b by (intro fl_nonneg) simp
  have f: "0 \<le> fl (tb_tokens b + ?g)" using g b by (intro fl_nonneg) simp
  show "tb_lastTime (refill fl t b) = t" "tb_max (refill fl t b) = tb_max b" "tb_rate (refill fl t b) = tb_rate b"
    by (simp_all add: refill_def Let_def)
  show "bucket_ok (refill fl t b)"
    using assms(1) f by (auto simp: bucket_ok_def refill_def Let_def min_def)
  have "?g \<le> ?s * tb_rate b * (1 + uround)" using s b by (intro fl_le') simp
  also have "\<dots> \<le> (of_int ?d / 1000000000 * (1 + uround) ^ 3) * tb_rate b * (1 + uround)"
    using s b uround_pos by (intro mult_right_mono) auto
  also have "\<dots> = tb_rate b * (of_int ?d / 1000000000) * (1 + uround) ^ 4" by (simp add: eval_nat_numeral)
  finally have g': "?g \<le> tb_rate b * (of_int ?d / 1000000000) * (1 + uround) ^ 4" .
  have "min (fl (tb_tokens b + ?g)) (tb_max b) \<le> tb_tokens b + ?g + uround * tb_max b"
  proof (cases "tb_tokens b + ?g \<le> tb_max b")
    case True
    have "fl (tb_tokens b + ?g) \<le> (tb_tokens b + ?g) * (1 + uround)" using b g by (intro fl_le') simp
    also have "\<dots> \<le> tb_tokens b + ?g + uround * tb_max b"
      using True uround_pos by (simp add: algebra_simps mult_left_mono flip: distrib_left)
    finally show ?thesis by simp
  next
    case False
    have "0 \<le> uround * tb_max b" using uround_pos b by simp
    with False show ?thesis by linarith
  qed
  with g' show "tb_tokens (refill fl t b) \<le> tb_tokens b
       + tb_rate b * (of_int ?d / 1000000000) * (1 + uround) ^ 4 + uround * tb_max b"
    by (simp add: refill_def Let_def)
qed

text \<open>One call: what it admits is paid for by the tokens, the refill and the rounding.\<close>

lemma bucket_step_ok:
  assumes "bucket_ok b" "tb_lastTime b \<le> op_time x" "bucket_step fl b x = (a, b')"
  shows "bucket_ok b'" "tb_lastTime b' = op_time x" "tb_max b' = tb_max b" "tb_rate b' = tb_rate b"
    "(if a then 1 else 0) + tb_tokens b' \<le> tb_tokens b
       + tb_rate b * (of_int (op_time x - tb_lastTime b) / 1000000000) * (1 + uround) ^ 4 + 2 * uround * tb_max b"
proof -
  define r where "r = refill fl (op_time x) b"
  note R = refill_ok[OF assms(1,2), folded r_def]
  have m: "0 \<le> uround * tb_max b" using assms(1) uround_pos by (auto simp: bucket_ok_def)
  have "bucket_ok b' \<and> tb_lastTime b' = op_time x \<and> tb_max b' = tb_max b \<and> tb_rate b' = tb_rate b
    \<and> (if a then 1 else 0) + tb_tokens b' \<le> tb_tokens r + uround * tb_max b"
  proof (cases "a")
    case True
    then have b': "1 \<le> tb_tokens r" "b' = r\<lparr>tb_tokens := fl (tb_tokens r - 1)\<rparr>"
      using assms(3) by (cases x; auto simp: Allow_def Let_def r_def split: if_splits)+
    from R(1,3) obtain n where n: "tb_max r = of_int n" "0 \<le> n" "n \<le> 2 ^ 53" "tb_tokens r \<le> tb_max r"
      by (auto simp: bucket_ok_def)
    have lo: "0 \<le> fl (tb_tokens r - 1)" using b'(1) by (intro fl_nonneg) simp
    have "fl (tb_tokens r - 1) \<le> fl (of_int n)" using n by (intro fl_mono) simp
    then have hi: "fl (tb_tokens r - 1) \<le> tb_max r" using n fl_int[of n] by simp
    have "fl (tb_tokens r - 1) \<le> (tb_tokens r - 1) * (1 + uround)" using b'(1) by (intro fl_le') simp
    also have "\<dots> = tb_tokens r - 1 + uround * (tb_tokens r - 1)" by (simp add: algebra_simps)
    also have "\<dots> \<le> tb_tokens r - 1 + uround * tb_max b"
      using uround_pos n(4) R(3) by (intro add_left_mono mult_left_mono) auto
    finally show ?thesis using True b' lo hi R n by (auto simp: bucket_ok_def)
  next
    case False
    then have "b' = r" using assms(3) by (cases x) (auto simp: Allow_def Tokens_def Let_def r_def split: if_splits)
    with False R m show ?thesis by simp
  qed
  with R(5) m show "bucket_ok b'" "tb_lastTime b' = op_time x" "tb_max b' = tb_max b" "tb_rate b' = tb_rate b"
    "(if a then 1 else 0) + tb_tokens b' \<le> tb_tokens b
       + tb_rate b * (of_int (op_time x - tb_lastTime b) / 1000000000) * (1 + uround) ^ 4 + 2 * uround * tb_max b"
    by auto
qed

lemma bucket_run_ok:
  assumes "bucket_ok b" "sorted (tb_lastTime b # map op_time xs)" "bucket_run fl b xs = (n, b')"
  shows "bucket_ok b' \<and> tb_max b' = tb_max b \<and> tb_rate b' = tb_rate b
    \<and> real n + tb_tokens b' \<le> tb_tokens b
       + tb_rate b * (of_int (tb_lastTime b' - tb_lastTime b) / 1000000000) * (1 + uround) ^ 4
       + real (length xs) * (2 * uround * tb_max b)"
  using assms
proof (induction xs arbitrary: b n)
  case (Cons x xs)
  obtain a b1 where s: "bucket_step fl b x = (a, b1)" by fastforce
  obtain k where r: "bucket_run fl b1 xs = (k, b')" "n = (if a then 1 else 0) + k"
    using Cons.prems(3) s by (auto simp: Let_def split: prod.splits)
  have t: "tb_lastTime b \<le> op_time x" using Cons.prems(2) by simp
  note S = bucket_step_ok[OF Cons.prems(1) t s]
  have "sorted (tb_lastTime b1 # map op_time xs)" using Cons.prems(2) S(2) by simp
  note IH = Cons.IH[OF S(1) this r(1)]
  let ?c = "tb_rate b * (1 + uround) ^ 4 / 1000000000"
  have "real n + tb_tokens b' \<le> tb_tokens b + ?c * of_int (op_time x - tb_lastTime b) + 2 * uround * tb_max b
      + ?c * of_int (tb_lastTime b' - op_time x) + real (length xs) * (2 * uround * tb_max b)"
    using IH S r(2) by (auto simp: algebra_simps)
  also have "\<dots> = tb_tokens b + ?c * of_int (tb_lastTime b' - tb_lastTime b) + real (length (x # xs)) * (2 * uround * tb_max b)"
    by (simp add: field_simps)
  finally show ?case using IH S(3,4) by (simp add: algebra_simps)
qed simp

end

section \<open>The table of buckets\<close>

text \<open>
  The reachable states of the limiter: requests at times that do not go
  back, from the limiter \<open>NewRateLimit\<close> makes.
\<close>

definition rate_env_ok :: "instant \<Rightarrow> rate_env \<Rightarrow> bool" where
  "rate_env_ok t env \<longleftrightarrow> t \<le> rv_new env \<and> rv_new env \<le> rv_allow env \<and> rv_allow env \<le> rv_tokens env"

inductive rate_reach :: "('m, nat) lru_ops \<Rightarrow> 'm RateLimit \<Rightarrow> instant \<Rightarrow> 'm RateLimit \<Rightarrow> bool"
  for ops r0 where
  rate_start: "rate_reach ops r0 t r0"
| rate_request: "rate_reach ops r0 t r \<Longrightarrow> rate_env_ok t env \<Longrightarrow> rate_decide ops fl64 env req w r = (a, w', r')
    \<Longrightarrow> rate_reach ops r0 (rv_tokens env) r'"

text \<open>Every bucket is well-formed, has the configured rate and burst and was last
  refilled in the past; no two keys share a bucket.\<close>

definition lim_inv :: "('m \<Rightarrow> string \<Rightarrow> nat option) \<Rightarrow> instant \<Rightarrow> 'm RateLimit \<Rightarrow> bool" where
  "lim_inv view t r \<longleftrightarrow> 0 \<le> rl_rps r \<and> 1 \<le> rl_burst r \<and> rl_burst r \<le> 2 ^ 53
    \<and> (\<forall>b\<in>set (rl_heap r). bucket_ok b \<and> tb_rate b = rl_rps r \<and> tb_max b = of_int (rl_burst r) \<and> tb_lastTime b \<le> t)
    \<and> (\<forall>k l. view (rl_limiters r) k = Some l \<longrightarrow> l < length (rl_heap r))
    \<and> (\<forall>k k' l. view (rl_limiters r) k = Some l \<and> view (rl_limiters r) k' = Some l \<longrightarrow> k = k')"

text \<open>What one request leaves of the table: its own bucket, last refilled at \<open>t\<close>, and
  those of other keys, untouched unless they were evicted.\<close>

definition others_kept :: "('m \<Rightarrow> string \<Rightarrow> nat option) \<Rightarrow> string \<Rightarrow> 'm RateLimit \<Rightarrow> 'm RateLimit \<Rightarrow> bool" where
  "others_kept view key r r' \<longleftrightarrow> (\<forall>k l. k \<noteq> key \<and> view (rl_limiters r') k = Some l
     \<longrightarrow> view (rl_limiters r) k = Some l \<and> rl_heap r' ! l = rl_heap r ! l)"

lemma new_bucket_ok:
  assumes "0 \<le> rps" "1 \<le> burst" "burst \<le> 2 ^ 53"
  shows "bucket_ok (newTokenBucket fl64 t rps burst)" "tb_rate (newTokenBucket fl64 t rps burst) = rps"
    "tb_max (newTokenBucket fl64 t rps burst) = of_int burst" "tb_tokens (newTokenBucket fl64 t rps burst) = of_int burst"
    "tb_lastTime (newTokenBucket fl64 t rps burst) = t"
proof -
  have f: "fl64 (of_int burst) = of_int burst" using assms by (intro ieee.fl_int) simp
  then show "bucket_ok (newTokenBucket fl64 t rps burst)"
    using assms by (auto simp: bucket_ok_def newTokenBucket_def)
  show "tb_rate (newTokenBucket fl64 t rps burst) = rps" "tb_max (newTokenBucket fl64 t rps burst) = of_int burst"
    "tb_tokens (newTokenBucket fl64 t rps burst) = of_int burst" "tb_lastTime (newTokenBucket fl64 t rps burst) = t"
    using f by (simp_all add: newTokenBucket_def)
qed

lemma limiterFor_inv:
  assumes "lru_cache ops view ok cap" "lim_inv view t r" "t \<le> now" "limiterFor ops fl64 now key r = (l, r')"
  shows "lim_inv view now r'" "view (rl_limiters r') key = Some l" "others_kept view key r r'"
    "rl_rps r' = rl_rps r" "rl_burst r' = rl_burst r"
proof -
  note add_sub = lru_cache.add_sub[OF assms(1)] and add_same = lru_cache.add_same[OF assms(1)]
  obtain c where g: "lru_get ops (rl_limiters r) key = (view (rl_limiters r) key, c)" and c: "view c = view (rl_limiters r)"
    using lru_cache.get_cases[OF assms(1)] lru_cache.get_view[OF assms(1)] by (metis snd_conv)
  let ?n = "length (rl_heap r)" and ?b = "newTokenBucket fl64 now (rl_rps r) (rl_burst r)"
  have b: "bucket_ok ?b" "tb_rate ?b = rl_rps r" "tb_max ?b = of_int (rl_burst r)" "tb_lastTime ?b = now"
    using new_bucket_ok assms(2) by (auto simp: lim_inv_def)
  have "lim_inv view now r' \<and> view (rl_limiters r') key = Some l \<and> others_kept view key r r'
    \<and> rl_rps r' = rl_rps r \<and> rl_burst r' = rl_burst r"
  proof (cases "view (rl_limiters r) key")
    case None
    then have r': "l = ?n" "r' = r\<lparr>rl_heap := rl_heap r @ [?b], rl_limiters := lru_add ops c key ?n\<rparr>"
      using assms(4) g by (auto simp: limiterFor_def Let_def)
    have sub: "k' = key \<and> x = ?n \<or> k' \<noteq> key \<and> view (rl_limiters r) k' = Some x \<and> x < ?n"
      if "view (lru_add ops c key ?n) k' = Some x" for k' x
      using add_sub[OF that] c assms(2) by (auto simp: lim_inv_def)
    have "lim_inv view now r'"
      unfolding lim_inv_def
    proof (intro conjI ballI allI impI; (elim conjE)?)
      show "b \<in> set (rl_heap r') \<Longrightarrow> bucket_ok b" "b \<in> set (rl_heap r') \<Longrightarrow> tb_rate b = rl_rps r'"
        "b \<in> set (rl_heap r') \<Longrightarrow> tb_max b = of_int (rl_burst r')"
        "b \<in> set (rl_heap r') \<Longrightarrow> tb_lastTime b \<le> now" for b
        using assms(2,3) r' b by (auto simp: lim_inv_def)
      show "view (rl_limiters r') k = Some x \<Longrightarrow> x < length (rl_heap r')" for k x
        using sub[of k x] r' by auto
      show "view (rl_limiters r') k = Some x \<Longrightarrow> view (rl_limiters r') k' = Some x \<Longrightarrow> k = k'" for k k' x
        using sub[of k x] sub[of k' x] r' assms(2) by (auto simp: lim_inv_def)
    qed (use assms(2) r' in \<open>auto simp: lim_inv_def\<close>)
    moreover have "others_kept view key r r'"
      unfolding others_kept_def using sub r' by (fastforce simp: nth_append)
    ultimately show ?thesis using r' by (simp add: add_same)
  next
    case (Some x)
    then have r': "l = x" "r' = r\<lparr>rl_limiters := c\<rparr>" using assms(4) g by (auto simp: limiterFor_def)
    with assms(2,3) c Some show ?thesis by (fastforce simp: lim_inv_def others_kept_def)
  qed
  then show "lim_inv view now r'" "view (rl_limiters r') key = Some l" "others_kept view key r r'"
    "rl_rps r' = rl_rps r" "rl_burst r' = rl_burst r" by auto
qed

text \<open>Operating on the bucket of one key.\<close>

lemma lim_inv_upd:
  assumes "lim_inv view t r" "view (rl_limiters r) key = Some l" "t \<le> t'"
    and "bucket_step fl64 (rl_heap r ! l) x = (a, b)" "op_time x = t'"
  shows "lim_inv view t' (r\<lparr>rl_heap := (rl_heap r)[l := b]\<rparr>)"
    "others_kept view key r (r\<lparr>rl_heap := (rl_heap r)[l := b]\<rparr>)"
    "(rl_heap r)[l := b] ! l = b" "tb_lastTime b = t'"
proof -
  have l: "l < length (rl_heap r)" using assms(1,2) by (auto simp: lim_inv_def)
  then have h: "bucket_ok (rl_heap r ! l)" "tb_lastTime (rl_heap r ! l) \<le> t"
    "tb_rate (rl_heap r ! l) = rl_rps r" "tb_max (rl_heap r ! l) = of_int (rl_burst r)"
    using assms(1) by (auto simp: lim_inv_def)
  note S = ieee.bucket_step_ok[OF h(1) _ assms(4)]
  have t: "tb_lastTime (rl_heap r ! l) \<le> op_time x" using h(2) assms(3,5) by simp
  show "tb_lastTime b = t'" using S(2)[OF t] assms(5) by simp
  have old: "c \<in> set ((rl_heap r)[l := b]) \<Longrightarrow> c = b \<or> c \<in> set (rl_heap r)" for c
    using set_update_subset_insert[of "rl_heap r" l b] by auto
  have B: "bucket_ok b \<and> tb_rate b = rl_rps r \<and> tb_max b = of_int (rl_burst r) \<and> tb_lastTime b \<le> t'"
    using S[OF t] h assms(5) by simp
  show "lim_inv view t' (r\<lparr>rl_heap := (rl_heap r)[l := b]\<rparr>)"
    unfolding lim_inv_def
  proof (intro conjI ballI)
    show "bucket_ok c" "tb_rate c = rl_rps (r\<lparr>rl_heap := (rl_heap r)[l := b]\<rparr>)"
      "tb_max c = of_int (rl_burst (r\<lparr>rl_heap := (rl_heap r)[l := b]\<rparr>))" "tb_lastTime c \<le> t'"
      if "c \<in> set (rl_heap (r\<lparr>rl_heap := (rl_heap r)[l := b]\<rparr>))" for c
      using old[of c] that B assms(1,3) by (force simp: lim_inv_def)+
  qed (use assms(1) in \<open>auto simp: lim_inv_def\<close>)
  show "others_kept view key r (r\<lparr>rl_heap := (rl_heap r)[l := b]\<rparr>)"
    using assms(1,2) by (auto simp: others_kept_def lim_inv_def nth_list_update)
  show "(rl_heap r)[l := b] ! l = b" using l by simp
qed

lemma others_kept_trans:
  "others_kept view k r r1 \<Longrightarrow> others_kept view k r1 r2 \<Longrightarrow> others_kept view k r r2"
  unfolding others_kept_def by (metis (no_types, lifting))

lemma rate_decide_inv:
  assumes "lru_cache ops view ok cap" "lim_inv view t r" "rate_env_ok t env"
    and "rate_decide ops fl64 env req w r = (a, w', r')"
  shows "lim_inv view (rv_tokens env) r'" "others_kept view (rate_key req) r r'"
    "rl_rps r' = rl_rps r" "rl_burst r' = rl_burst r"
    "\<exists>l. view (rl_limiters r') (rate_key req) = Some l \<and> (\<not> a \<longrightarrow> tb_lastTime (rl_heap r' ! l) = rv_allow env)"
proof -
  obtain l r1 where L: "limiterFor ops fl64 (rv_new env) (rate_key req) r = (l, r1)" by fastforce
  have e: "t \<le> rv_new env" "rv_new env \<le> rv_allow env" "rv_allow env \<le> rv_tokens env"
    using assms(3) by (auto simp: rate_env_ok_def)
  note I1 = limiterFor_inv[OF assms(1,2) e(1) L]
  obtain g b1 where A: "Allow fl64 (rv_allow env) (rl_heap r1 ! l) = (g, b1)" by fastforce
  define r2 where "r2 = r1\<lparr>rl_heap := (rl_heap r1)[l := b1]\<rparr>"
  note I2 = lim_inv_upd[OF I1(1,2) e(2), of "AtAllow (rv_allow env)" g b1, simplified, OF A, folded r2_def]
  obtain n b2 where T: "Tokens fl64 (rv_tokens env) (rl_heap r2 ! l) = (n, b2)" by fastforce
  define r3 where "r3 = r2\<lparr>rl_heap := (rl_heap r2)[l := b2]\<rparr>"
  have v2: "view (rl_limiters r2) (rate_key req) = Some l" using I1(2) by (simp add: r2_def)
  note I3 = lim_inv_upd[OF I2(1) v2 e(3), of "AtTokens (rv_tokens env)" False b2, simplified, folded r3_def]
  have r': "a = g" "r' = (if g then r3 else r2)"
    using assms(4) L A T by (auto simp: rate_decide_def Let_def r2_def[symmetric] r3_def[symmetric] split: if_splits)
  have t2: "snd (Tokens fl64 (rv_tokens env) (rl_heap r2 ! l)) = b2" using T by simp
  note I3 = I3[OF t2]
  show "others_kept view (rate_key req) r r'"
    using r' others_kept_trans[OF I1(3) I2(2)] others_kept_trans[OF others_kept_trans[OF I1(3) I2(2)] I3(2)] by simp
  have "lim_inv view (rv_tokens env) r2" using I2(1) e(3) by (fastforce simp: lim_inv_def)
  then show "lim_inv view (rv_tokens env) r'" using r' I3(1) by simp
  show "rl_rps r' = rl_rps r" "rl_burst r' = rl_burst r" using r' I1(4,5) by (simp_all add: r3_def r2_def)
  show "\<exists>l. view (rl_limiters r') (rate_key req) = Some l \<and> (\<not> a \<longrightarrow> tb_lastTime (rl_heap r' ! l) = rv_allow env)"
    using r' I1(2) I2(3,4) by (auto simp: r3_def r2_def)
qed

lemma rate_start_inv:
  assumes "\<And>k. view c k = None" "burst \<le> 2 ^ 53"
  shows "lim_inv view t (NewRateLimit c rps burst)"
  using assms by (auto simp: lim_inv_def NewRateLimit_def)

lemma rate_reach_inv:
  assumes "lru_cache ops view ok cap" "lim_inv view t0 r0" "\<And>t. lim_inv view t r0" "rate_reach ops r0 t r"
  shows "lim_inv view t r \<and> rl_rps r = rl_rps r0 \<and> rl_burst r = rl_burst r0"
  using assms(4)
proof induction
  case (rate_request t r env req w a w' r')
  then show ?case using rate_decide_inv[OF assms(1) _ rate_request.hyps(2,3)] by simp
qed (use assms(3) in auto)

text \<open>A full second of refill is enough for one request when the rate is at least one.\<close>

lemma Allow_after_second:
  assumes "bucket_ok b" "1 \<le> tb_rate b" "1 \<le> tb_max b" "tb_lastTime b + 1000000000 \<le> t"
  shows "fst (Allow fl64 t b)"
proof -
  let ?d = "t - tb_lastTime b"
  have d: "1 \<le> ?d div 1000000000" using assms(4) by linarith
  have "fl64 (of_int 1) \<le> fl64 (of_int (?d div 1000000000))" using d by (intro ieee.fl_mono) simp
  then have a: "1 \<le> fl64 (of_int (?d div 1000000000))" using ieee.fl_int[of 1] by simp
  have "0 \<le> fl64 (fl64 (of_int (?d mod 1000000000)) / 1000000000)"
    by (intro ieee.fl_nonneg divide_nonneg_nonneg) simp_all
  with a have "fl64 (of_int 1) \<le> Seconds fl64 ?d" unfolding Seconds_def by (intro ieee.fl_mono) simp
  then have s: "1 \<le> Seconds fl64 ?d" using ieee.fl_int[of 1] by simp
  have "1 * 1 \<le> Seconds fl64 ?d * tb_rate b" using s assms(2) by (intro mult_mono) auto
  then have "fl64 (of_int 1) \<le> fl64 (Seconds fl64 ?d * tb_rate b)" by (intro ieee.fl_mono) simp
  then have "1 \<le> tb_tokens b + fl64 (Seconds fl64 ?d * tb_rate b)"
    using assms(1) ieee.fl_int[of 1] by (simp add: bucket_ok_def)
  then have "fl64 (of_int 1) \<le> fl64 (tb_tokens b + fl64 (Seconds fl64 ?d * tb_rate b))" by (intro ieee.fl_mono) simp
  then have "1 \<le> fl64 (tb_tokens b + fl64 (Seconds fl64 ?d * tb_rate b))" using ieee.fl_int[of 1] by simp
  then show ?thesis using assms(3) by (simp add: Allow_def refill_def Let_def)
qed

lemma Allow_fresh:
  assumes "0 \<le> rps" "1 \<le> burst" "burst \<le> 2 ^ 53" "t \<le> t'"
  shows "fst (Allow fl64 t' (newTokenBucket fl64 t rps burst))"
proof -
  let ?b = "newTokenBucket fl64 t rps burst"
  note B = new_bucket_ok[OF assms(1-3), of t]
  have "0 \<le> fl64 (Seconds fl64 (t' - t) * rps)"
    using ieee.Seconds_bounds(1)[of "t' - t"] assms by (intro ieee.fl_nonneg) simp
  then have "fl64 (of_int 1) \<le> fl64 (tb_tokens ?b + fl64 (Seconds fl64 (t' - t) * rps))"
    using B(4) assms(2) by (intro ieee.fl_mono) simp
  then show ?thesis using B assms(2) ieee.fl_int[of 1] by (simp add: Allow_def refill_def Let_def)
qed

lemma header_WriteProblem:
  "k \<noteq> ''Content-Type'' \<Longrightarrow> header_get (rw_header (WriteProblem p w)) k = header_get (rw_header w) k"
  by (simp add: WriteProblem_def write_body_def write_header_def set_header_def Let_def split: option.split)

lemma too_fast_status: "p_Status too_fast = 429"
  by (simp add: too_fast_def problem_def)

lemma rate_decide_admits:
  assumes "lru_cache ops view ok cap" "lim_inv view t r" "rate_env_ok t env" "1 \<le> rl_rps r"
    and "\<And>l. view (rl_limiters r) (rate_key req) = Some l \<Longrightarrow> tb_lastTime (rl_heap r ! l) + 1000000000 \<le> rv_allow env"
  shows "fst (rate_decide ops fl64 env req w r)"
proof -
  note get_value = lru_cache.get_value[OF assms(1)]
  obtain l r1 where L: "limiterFor ops fl64 (rv_new env) (rate_key req) r = (l, r1)" by fastforce
  have "fst (Allow fl64 (rv_allow env) (rl_heap r1 ! l))"
  proof (cases "view (rl_limiters r) (rate_key req)")
    case None
    then have "rl_heap r1 ! l = newTokenBucket fl64 (rv_new env) (rl_rps r) (rl_burst r)"
      using L get_value[of "rl_limiters r" "rate_key req"] by (auto simp: limiterFor_def Let_def split: prod.splits)
    then show ?thesis using assms(2,3) by (simp add: Allow_fresh lim_inv_def rate_env_ok_def)
  next
    case (Some x)
    then have "rl_heap r1 ! l = rl_heap r ! x"
      using L get_value[of "rl_limiters r" "rate_key req"] by (auto simp: limiterFor_def Let_def split: prod.splits)
    moreover have "bucket_ok (rl_heap r ! x) \<and> 1 \<le> tb_rate (rl_heap r ! x) \<and> 1 \<le> tb_max (rl_heap r ! x)"
      using assms(2,4) Some by (auto simp: lim_inv_def)
    ultimately show ?thesis using assms(5)[OF Some] Allow_after_second by simp
  qed
  then show ?thesis using L by (auto simp: rate_decide_def Let_def split: prod.splits)
qed

text \<open>Requests of keys other than \<open>key\<close>, in time.\<close>

inductive rate_others :: "('m, nat) lru_ops \<Rightarrow> string \<Rightarrow> instant \<Rightarrow> 'm RateLimit \<Rightarrow> instant \<Rightarrow> 'm RateLimit \<Rightarrow> bool"
  for ops key t0 r0 where
  others_none: "rate_others ops key t0 r0 t0 r0"
| others_request: "rate_others ops key t0 r0 t r \<Longrightarrow> rate_env_ok t env \<Longrightarrow> rate_key req \<noteq> key
    \<Longrightarrow> rate_decide ops fl64 env req w r = (a, w', r') \<Longrightarrow> rate_others ops key t0 r0 (rv_tokens env) r'"

lemma rate_others_inv:
  assumes "lru_cache ops view ok cap" "rate_others ops key t0 r0 t r" "lim_inv view t0 r0"
  shows "lim_inv view t r \<and> rl_rps r = rl_rps r0
    \<and> (\<forall>l. view (rl_limiters r) key = Some l \<longrightarrow> view (rl_limiters r0) key = Some l \<and> rl_heap r ! l = rl_heap r0 ! l)"
  using assms(2)
proof induction
  case (others_request t r env req w a w' r')
  have i: "lim_inv view t r" using others_request.IH by simp
  note D = rate_decide_inv[OF assms(1) i others_request.hyps(2,4)]
  have "view (rl_limiters r) key = Some l \<and> rl_heap r' ! l = rl_heap r ! l" if "view (rl_limiters r') key = Some l" for l
    using D(2) that others_request.hyps(3) unfolding others_kept_def by metis
  then show ?case using others_request.IH D(1,3) by simp
qed (use assms(3) in auto)

section \<open>Properties\<close>

text \<open>
  (C20) The limiter bounds the request rate: for a bucket created with a burst
  of at most 2^53, over any sequence of Allow and Tokens calls at
  non-decreasing times, with IEEE rounding in every operation, the number
  of admitted calls is at most the burst plus the rate times the elapsed
  seconds, up to relative rounding error (a factor of at most
  (1 + 2^-53)^4 on the refill and two units of rounding of the burst per
  call); and the tokens always stay between zero and the burst.
\<close>

theorem bucket_admission_bound:
  assumes "0 \<le> rps" "0 \<le> burst" "burst \<le> 2 ^ 53" "sorted (t0 # map op_time xs)"
    and "bucket_run fl64 (newTokenBucket fl64 t0 rps burst) xs = (n, b)"
  shows "real n \<le> of_int burst
      + rps * (of_int (tb_lastTime b - t0) / 1000000000) * (1 + uround) ^ 4
      + real (length xs) * (2 * uround * of_int burst)
    \<and> 0 \<le> tb_tokens b \<and> tb_tokens b \<le> of_int burst"
proof -
  have f: "fl64 (of_int burst) = of_int burst" using assms(2,3) by (intro ieee.fl_int) simp
  then have "bucket_ok (newTokenBucket fl64 t0 rps burst)"
    using assms(1-3) by (auto simp: bucket_ok_def newTokenBucket_def)
  from ieee.bucket_run_ok[OF this _ assms(5)] assms(4) f
  show ?thesis by (auto simp: newTokenBucket_def bucket_ok_def)
qed

theorem bucket_admission_bound_witness:
  "real (fst (bucket_run fl64 (newTokenBucket fl64 0 2 3) [AtAllow 5, AtTokens 6, AtAllow 2000000000]))
    \<le> 3 + 2 * 2 * (1 + uround) ^ 4 + 3 * (2 * uround * 3)"
proof -
  obtain n b where r: "bucket_run fl64 (newTokenBucket fl64 0 2 3) [AtAllow 5, AtTokens 6, AtAllow 2000000000] = (n, b)"
    by fastforce
  have "tb_lastTime b = 2000000000"
    using r by (auto simp: Allow_def Tokens_def refill_def Let_def newTokenBucket_def split: if_splits prod.splits)
  with bucket_admission_bound[OF _ _ _ _ r] r show ?thesis by simp
qed

text \<open>
  (C23) Keys do not interfere: in every reachable state of the limiter, a
  request uses and changes only the bucket of its own key.  The bucket of
  any other key is the same bucket with the same tokens afterwards, unless
  the table evicted it; no bucket is ever shared by two keys, and every
  bucket is well-formed with the configured rate and burst.
\<close>

theorem rate_limit_isolates_keys:
  assumes "lru_cache ops view ok cap" "\<And>k. view c k = None" "burst \<le> 2 ^ 53"
    and "rate_reach ops (NewRateLimit c rps burst) t r" "rate_env_ok t env"
    and "rate_decide ops fl64 env req w r = (a, w', r')"
  shows "(\<forall>k l. k \<noteq> rate_key req \<and> view (rl_limiters r') k = Some l
        \<longrightarrow> view (rl_limiters r) k = Some l \<and> rl_heap r' ! l = rl_heap r ! l)
    \<and> (\<forall>k k' l. view (rl_limiters r') k = Some l \<and> view (rl_limiters r') k' = Some l \<longrightarrow> k = k')
    \<and> (\<forall>b\<in>set (rl_heap r'). bucket_ok b \<and> tb_rate b = (if rps \<le> 0 then 60 else rps)
        \<and> tb_max b = of_int (if burst \<le> 0 then 120 else burst))"
proof -
  note S = rate_start_inv[of view c, OF assms(2,3)]
  have R: "lim_inv view t r" "rl_rps r = rl_rps (NewRateLimit c rps burst)" "rl_burst r = rl_burst (NewRateLimit c rps burst)"
    using rate_reach_inv[OF assms(1) S S assms(4)] by auto
  note D = rate_decide_inv[OF assms(1) R(1) assms(5,6)]
  show ?thesis
    using D R(2,3) by (auto simp: lim_inv_def others_kept_def NewRateLimit_def)
qed

text \<open>Two keys at a fresh limiter.\<close>

definition sample_req :: "string \<Rightarrow> request" where
  "sample_req k = \<lparr> rq_Method = ''GET'', rq_Path = ''/me'', rq_Header = [], rq_Body = ([], None), rq_RemoteAddr = [],
     rq_ctx_ws = Some \<lparr> ws_WorkspaceID = ''w'', ws_KeyID = k, ws_KeyDBID = k, ws_PgRole = ''dbuser'', ws_Env = ''dev'' \<rparr>,
     rq_ctx_request_id = None \<rparr>"

definition instant_env :: "instant \<Rightarrow> rate_env" where
  "instant_env t = \<lparr> rv_new = t, rv_allow = t, rv_tokens = t \<rparr>"

definition sample_rate :: "((string \<times> nat) list) RateLimit" where
  "sample_rate = \<lparr> rl_limiters = [(''a'', 0)],
     rl_heap = [\<lparr> tb_tokens = 0, tb_max = 1, tb_rate = 2, tb_lastTime = 0 \<rparr>], rl_rps = 2, rl_burst = 1 \<rparr>"

lemma sample_env_ok [simp]: "rate_env_ok t (instant_env t') \<longleftrightarrow> t \<le> t'" "rv_allow (instant_env t) = t" "rv_tokens (instant_env t) = t" "rv_new (instant_env t) = t"
  by (auto simp: rate_env_ok_def instant_env_def)

lemma sample_key [simp]: "rate_key (sample_req k) = k"
  by (simp add: rate_key_def FromContext_def sample_req_def)

lemma fl64_01 [simp]: "fl64 0 = 0" "fl64 1 = 1"
  using ieee.fl_int[of 0] ieee.fl_int[of 1] by simp_all

lemma sample_first:
  "\<exists>w'. rate_decide (list_lru (Suc 4095)) fl64 (instant_env 0) (sample_req ''a'') w (NewRateLimit [] 2 1) = (True, w', sample_rate)"
  by (simp add: rate_decide_def limiterFor_def NewRateLimit_def list_lru_def newTokenBucket_def Allow_def Tokens_def
      refill_def Seconds_def sample_rate_def Let_def)

lemma sample_rate_reach: "rate_reach (list_lru (Suc 4095)) (NewRateLimit [] 2 1) 0 sample_rate"
  using rate_request[OF rate_start[of _ _ 0], of "instant_env 0"] sample_first by fastforce

lemma sample_rejected:
  "\<exists>w1. rate_decide (list_lru (Suc 4095)) fl64 (instant_env 0) (sample_req ''a'') w sample_rate = (False, w1, sample_rate)"
  by (simp add: rate_decide_def limiterFor_def list_lru_def Allow_def refill_def Seconds_def sample_rate_def Let_def)

theorem rate_limit_isolates_keys_witness:
  "list_all (\<lambda>b. bucket_ok b \<and> tb_rate b = 2) (rl_heap (snd (snd (rate_decide (list_lru (Suc 4095)) fl64 (instant_env 3)
      (sample_req ''b'') new_writer sample_rate))))"
proof -
  obtain a w' r' where d: "rate_decide (list_lru (Suc 4095)) fl64 (instant_env 3) (sample_req ''b'') new_writer sample_rate = (a, w', r')"
    by (metis prod.collapse)
  from rate_limit_isolates_keys[OF list_lru.lru_cache_axioms _ _ sample_rate_reach _ d] d show ?thesis
    by (simp add: list_all_iff)
qed

text \<open>
  (C24) A rejection is a 429 with a Retry-After of one second, and the header
  is honest: when the configured rate is at least one per second, then
  whatever requests other keys make in between, the next request of the
  rejected key at least one second later is admitted.  A key never seen
  before, or whose bucket was evicted, is always admitted.
\<close>

theorem retry_after_is_honest:
  assumes "lru_cache ops view ok cap" "\<And>k. view c k = None" "burst \<le> 2 ^ 53" "1 \<le> rps"
    and "rate_reach ops (NewRateLimit c rps burst) t r" "rate_env_ok t env" "rw_sent w = None"
    and "rate_decide ops fl64 env req w r = (False, w1, r1)"
    and "rate_others ops (rate_key req) (rv_tokens env) r1 t2 r2"
    and "rate_env_ok t2 env2" "rate_key req2 = rate_key req" "rv_allow env + 1000000000 \<le> rv_allow env2"
  shows "status_of w1 = 429 \<and> header_get (rw_header w1) ''Retry-After'' = ''1''
    \<and> fst (rate_decide ops fl64 env2 req2 w2 r2)"
proof -
  note S = rate_start_inv[of view c, OF assms(2,3)]
  have R: "lim_inv view t r" "rl_rps r = rl_rps (NewRateLimit c rps burst)"
    using rate_reach_inv[OF assms(1) S S assms(5)] by auto
  note D = rate_decide_inv[OF assms(1) R(1) assms(6,8)]
  note O = rate_others_inv[OF assms(1) assms(9) D(1)]
  have "tb_lastTime (rl_heap r2 ! l) = rv_allow env" if "view (rl_limiters r2) (rate_key req2) = Some l" for l
    using D(5) O that assms(11) by auto
  moreover have "1 \<le> rl_rps r2" using O D(3) R(2) assms(4) by (simp add: NewRateLimit_def)
  ultimately have "fst (rate_decide ops fl64 env2 req2 w2 r2)"
    using O assms(10,12) by (intro rate_decide_admits[OF assms(1)]) auto
  moreover have "status_of w1 = 429 \<and> header_get (rw_header w1) ''Retry-After'' = ''1''"
    using assms(7,8) by (auto simp: rate_decide_def Let_def header_WriteProblem too_fast_status set_header_def
        split: prod.splits if_splits)
  ultimately show ?thesis by simp
qed


theorem retry_after_is_honest_witness:
  "fst (rate_decide (list_lru (Suc 4095)) fl64 (instant_env 1000000000) (sample_req ''a'') new_writer sample_rate)"
proof -
  obtain w1 where d: "rate_decide (list_lru (Suc 4095)) fl64 (instant_env 0) (sample_req ''a'') new_writer sample_rate = (False, w1, sample_rate)"
    using sample_rejected by blast
  from retry_after_is_honest[OF list_lru.lru_cache_axioms _ _ _ sample_rate_reach _ _ d others_none] show ?thesis
    by (simp add: new_writer_def)
qed

end
