(* ===== verification/HttpMiddleware.thy ===== *)
theory HttpMiddleware
  imports RateLimit
begin

text \<open>
  The general middleware (\<^verbatim>\<open>internal/httpapi/middleware.go\<close>): request ids, client
  addresses, panic recovery, body limits, metrics and access log, with the
  instruments of \<^verbatim>\<open>internal/observability/metrics.go\<close> they feed.

  A middleware takes the next handler and is a handler.  The server's log and
  its metrics are part of the state of the world.
\<close>

section \<open>Instruments and log\<close>

text \<open>A counter vector is a count per label tuple; the histogram keeps its observations.\<close>

record Metrics =
  mt_RequestDuration :: "((string \<times> string \<times> string) \<times> duration) list"
  mt_RequestsTotal :: "string \<times> string \<times> string \<Rightarrow> nat"
  mt_SQLStatements :: "string \<times> string \<Rightarrow> nat"
  mt_RPCInvocations :: "string \<times> string \<Rightarrow> nat"
  mt_IdempotencyHits :: nat
  mt_IdempotencyMisses :: nat
  mt_QueueDepth :: int
  mt_BuildInfo :: "string \<times> string \<times> string \<Rightarrow> int"

definition inc_at :: "'a \<Rightarrow> ('a \<Rightarrow> nat) \<Rightarrow> 'a \<Rightarrow> nat" where
  "inc_at x f = f(x := Suc (f x))"

lemma inc_at_simps [simp]: "inc_at x f x = Suc (f x)" "y \<noteq> x \<Longrightarrow> inc_at x f y = f y"
  by (simp_all add: inc_at_def)

definition NewMetrics :: "string \<times> string \<times> string \<Rightarrow> Metrics" where
  "NewMetrics v = \<lparr> mt_RequestDuration = [], mt_RequestsTotal = (\<lambda>_. 0), mt_SQLStatements = (\<lambda>_. 0),
     mt_RPCInvocations = (\<lambda>_. 0), mt_IdempotencyHits = 0, mt_IdempotencyMisses = 0, mt_QueueDepth = 0,
     mt_BuildInfo = (\<lambda>_. 0)(v := 1) \<rparr>"

text \<open>The gauge of the cache size reads the cache when it is collected.\<close>

definition AuthCacheSize :: "(unit \<Rightarrow> int) option \<Rightarrow> int" where
  "AuthCacheSize authCacheLen = (case authCacheLen of None \<Rightarrow> 0 | Some f \<Rightarrow> f ())"

text \<open>The structured log lines of the gateway.\<close>

datatype log_line =
    LogPanic string string string                    \<comment> \<open>panic, method, path\<close>
  | LogHttp string string int nat duration string string
      \<comment> \<open>method, path, status, bytes written, duration, remote, request id\<close>
  | LogRequest string string string string string int int string string string
      \<comment> \<open>the audit line: request id, workspace, key, endpoint, command, ms, status, error, sqlstate, client\<close>
  | LogWarn string go_error string                    \<comment> \<open>message, error, request id\<close>

record ('l, 'm) obs_world = "('l, 'm) limit_world" +
  ow_metrics :: Metrics
  ow_log :: "log_line list"

definition emit :: "log_line \<Rightarrow> ('l, 'm, 'x) obs_world_scheme \<Rightarrow> ('l, 'm, 'x) obs_world_scheme" where
  "emit x s = s\<lparr>ow_log := ow_log s @ [x]\<rparr>"

definition measure_by :: "(Metrics \<Rightarrow> Metrics) \<Rightarrow> ('l, 'm, 'x) obs_world_scheme \<Rightarrow> ('l, 'm, 'x) obs_world_scheme" where
  "measure_by f s = s\<lparr>ow_metrics := f (ow_metrics s)\<rparr>"

section \<open>Request id\<close>

definition GetRequestID :: "request \<Rightarrow> string" where
  "GetRequestID r = (case rq_ctx_request_id r of None \<Rightarrow> [] | Some i \<Rightarrow> i)"

text \<open>\<open>rnd\<close> is the 16-byte array after \<^verbatim>\<open>rand.Read\<close>.\<close>

definition RequestID :: "bytes \<Rightarrow> 'w handler \<Rightarrow> 'w handler" where
  "RequestID rnd nxt r w s =
    (let id0 = header_get (rq_Header r) ''X-Request-Id'';
         i = (if id0 = [] then hex_encode rnd else id0)
     in nxt (r\<lparr>rq_ctx_request_id := Some i\<rparr>) (set_header ''X-Request-Id'' i w) s)"

section \<open>Client address\<close>

definition RealIP :: "bool \<Rightarrow> 'w handler \<Rightarrow> 'w handler" where
  "RealIP trustProxy nxt r w s =
    (if \<not> trustProxy then nxt r w s else
     let rip = header_get (rq_Header r) ''X-Real-Ip''; fwd = header_get (rq_Header r) ''X-Forwarded-For'' in
     if rip \<noteq> [] then nxt (r\<lparr>rq_RemoteAddr := rip\<rparr>) w s
     else if fwd \<noteq> [] then
       let i = index_byte fwd (CHR '','') in
       if i > 0 then nxt (r\<lparr>rq_RemoteAddr := trim_space (take (nat i) fwd)\<rparr>) w s
       else nxt (r\<lparr>rq_RemoteAddr := trim_space fwd\<rparr>) w s
     else nxt r w s)"

section \<open>Panics\<close>

text \<open>The value of \<^verbatim>\<open>http.ErrAbortHandler\<close>.\<close>

definition ErrAbortHandler :: string where "ErrAbortHandler = ''net/http: abort Handler''"

definition header_del :: "string \<Rightarrow> response_writer \<Rightarrow> response_writer" where
  "header_del k w = w\<lparr>rw_header := filter (\<lambda>e. fst e \<noteq> k) (rw_header w)\<rparr>"

text \<open>\<^verbatim>\<open>http.Error\<close> of the standard library.\<close>

definition http_Error :: "string \<Rightarrow> int \<Rightarrow> response_writer \<Rightarrow> response_writer" where
  "http_Error msg code w =
    write_body (msg @ [CHR 0x0A]) (write_header code
      (set_header ''X-Content-Type-Options'' ''nosniff''
        (set_header ''Content-Type'' ''text/plain; charset=utf-8'' (header_del ''Content-Length'' w))))"

definition Recoverer ::
  "('l, 'm, 'x) obs_world_scheme handler \<Rightarrow> ('l, 'm, 'x) obs_world_scheme handler" where
  "Recoverer nxt r w s =
    (case nxt r w s of
       Returned w1 s1 \<Rightarrow> Returned w1 s1
     | Panicked rvr w1 s1 \<Rightarrow>
        if rvr = ErrAbortHandler then Panicked rvr w1 s1
        else Returned (http_Error ''Internal Server Error'' 500 w1) (emit (LogPanic rvr (rq_Method r) (rq_Path r)) s1))"

section \<open>The observing response writer\<close>

record responseWriter =
  ww_inner :: response_writer
  ww_status :: int
  ww_bytesWritten :: nat
  ww_wroteHeader :: bool

definition wrapResponseWriter :: "response_writer \<Rightarrow> responseWriter" where
  "wrapResponseWriter w = \<lparr> ww_inner = w, ww_status = 200, ww_bytesWritten = 0, ww_wroteHeader = False \<rparr>"

definition ww_WriteHeader :: "int \<Rightarrow> responseWriter \<Rightarrow> responseWriter" where
  "ww_WriteHeader code w =
    (if ww_wroteHeader w then w
     else w\<lparr>ww_status := code, ww_wroteHeader := True, ww_inner := write_header code (ww_inner w)\<rparr>)"

text \<open>The underlying writer takes every byte.\<close>

definition ww_Write :: "bytes \<Rightarrow> responseWriter \<Rightarrow> responseWriter" where
  "ww_Write b w =
    w\<lparr>ww_wroteHeader := True, ww_inner := write_body b (ww_inner w), ww_bytesWritten := ww_bytesWritten w + length b\<rparr>"

definition ww_Unwrap :: "responseWriter \<Rightarrow> response_writer" where
  "ww_Unwrap w = ww_inner w"

text \<open>What a handler does to a writer, and the same through the wrapper.\<close>

datatype writer_op = OpSetHeader string string | OpDelHeader string | OpWriteHeader int | OpWrite bytes

fun direct_op :: "writer_op \<Rightarrow> response_writer \<Rightarrow> response_writer" where
  "direct_op (OpSetHeader k v) w = set_header k v w"
| "direct_op (OpDelHeader k) w = header_del k w"
| "direct_op (OpWriteHeader st) w = write_header st w"
| "direct_op (OpWrite b) w = write_body b w"

fun wrapped_op :: "writer_op \<Rightarrow> responseWriter \<Rightarrow> responseWriter" where
  "wrapped_op (OpSetHeader k v) w = w\<lparr>ww_inner := set_header k v (ww_inner w)\<rparr>"
| "wrapped_op (OpDelHeader k) w = w\<lparr>ww_inner := header_del k (ww_inner w)\<rparr>"
| "wrapped_op (OpWriteHeader st) w = ww_WriteHeader st w"
| "wrapped_op (OpWrite b) w = ww_Write b w"

section \<open>Body limit\<close>

text \<open>\<^verbatim>\<open>http.MaxBytesReader\<close>: at most \<open>n\<close> bytes, then an error if there were more.  The writer
  it gets is a \<open>responseWriter\<close>, which has no \<^verbatim>\<open>requestTooLarge\<close> method, so the response is untouched.\<close>

definition MaxBytesReader :: "int \<Rightarrow> bytes \<times> go_error option \<Rightarrow> bytes \<times> go_error option" where
  "MaxBytesReader n body =
    (case body of (d, e) \<Rightarrow>
      if int (length d) > max 0 n then (take (nat n) d, Some (Opaque ''http: request body too large'')) else (d, e))"

definition MaxBodyBytes :: "int \<Rightarrow> 'w handler \<Rightarrow> 'w handler" where
  "MaxBodyBytes n nxt r w s = nxt (r\<lparr>rq_Body := MaxBytesReader n (rq_Body r)\<rparr>) w s"

section \<open>Metrics and access log\<close>

text \<open>Status and byte count are what the wrapper observed (\<open>wrapper_observes\<close> below); nothing is
  recorded when the handler panics.  \<open>elapsed\<close> is the time since the start.\<close>

definition MetricsMiddleware ::
  "duration \<Rightarrow> ('l, 'm, 'x) obs_world_scheme handler \<Rightarrow> ('l, 'm, 'x) obs_world_scheme handler" where
  "MetricsMiddleware elapsed nxt r w s =
    (case nxt r w s of
       Panicked rvr w1 s1 \<Rightarrow> Panicked rvr w1 s1
     | Returned w1 s1 \<Rightarrow>
        let route = (if rq_Path r = [] then ''unknown'' else rq_Path r);
            labels = (route, rq_Method r, Itoa (status_of w1))
        in Returned w1 (measure_by (\<lambda>m. m\<lparr>mt_RequestDuration := mt_RequestDuration m @ [(labels, elapsed)],
             mt_RequestsTotal := inc_at labels (mt_RequestsTotal m)\<rparr>) s1))"

definition AccessLog ::
  "duration \<Rightarrow> ('l, 'm, 'x) obs_world_scheme handler \<Rightarrow> ('l, 'm, 'x) obs_world_scheme handler" where
  "AccessLog elapsed nxt r w s =
    (case nxt r w s of
       Panicked rvr w1 s1 \<Rightarrow> Panicked rvr w1 s1
     | Returned w1 s1 \<Rightarrow>
        Returned w1 (emit (LogHttp (rq_Method r) (rq_Path r) (status_of w1) (length (rw_body w1)) elapsed
          (rq_RemoteAddr r) (GetRequestID r)) s1))"

section \<open>Lemmas\<close>

text \<open>The wrapper sees what the client sees.\<close>

definition observes :: "response_writer \<Rightarrow> responseWriter \<Rightarrow> bool" where
  "observes w x \<longleftrightarrow> ww_inner x = w \<and> ww_status x = status_of w \<and> ww_bytesWritten x = length (rw_body w)
    \<and> ww_wroteHeader x = (rw_sent w \<noteq> None)"

lemma observes_op: "observes w x \<Longrightarrow> observes (direct_op p w) (wrapped_op p x)"
  by (cases p) (auto simp: observes_def ww_WriteHeader_def ww_Write_def write_header_def write_body_def
      set_header_def header_del_def status_of_def Let_def split: option.splits)

lemma observes_run: "observes w x \<Longrightarrow> observes (fold direct_op ps w) (fold wrapped_op ps x)"
  by (induction ps arbitrary: w x) (simp_all add: observes_op)

lemma ReadAll_max:
  "ReadAll (MaxBytesReader n (d, e)) = Inr b \<longleftrightarrow> e = None \<and> b = d \<and> int (length d) \<le> max 0 n"
  by (cases e) (auto simp: ReadAll_def MaxBytesReader_def max_def split: if_splits)

section \<open>Properties\<close>



end
