(* ===== verification/Json.thy ===== *)
theory Json
  imports Http Float64 "HOL-Library.List_Lexorder" "HOL-Library.Char_ord"
begin

text \<open>
  The part of \<^verbatim>\<open>encoding/json\<close> the gateway uses: the syntax of values (the scanner,
  string unquoting, compact output), decoding into \<^verbatim>\<open>any\<close> and into structs.

  A parsed number keeps its literal; decoding into \<^verbatim>\<open>any\<close> rounds it to a
  \<^verbatim>\<open>float64\<close>.  The wording of syntax errors is a parameter of the decoders.
\<close>

section \<open>Values and output\<close>

datatype json =
    JNull
  | JBool bool
  | JNum string
  | JStr string
  | JArr "json list"
  | JObj "(string \<times> json) list"

fun jprint :: "json \<Rightarrow> string" where
  "jprint JNull = ''null''"
| "jprint (JBool b) = (if b then ''true'' else ''false'')"
| "jprint (JNum l) = l"
| "jprint (JStr s) = json_string s"
| "jprint (JArr vs) = ''['' @ json_join (map jprint vs) @ '']''"
| "jprint (JObj ms) = ''{'' @ json_join (map (\<lambda>(k, v). json_member k (jprint v)) ms) @ ''}''"

section \<open>Strings\<close>

text \<open>\<^verbatim>\<open>utf8.AppendRune\<close>.\<close>

definition encode_rune :: "nat \<Rightarrow> string" where
  "encode_rune r =
    (if r < 128 then [char_of r]
     else if r < 2048 then [char_of (192 + r div 64), char_of (128 + r mod 64)]
     else if 55296 \<le> r \<and> r < 57344 \<or> 1114111 < r then [CHR 0xEF, CHR 0xBF, CHR 0xBD]
     else if r < 65536 then [char_of (224 + r div 4096), char_of (128 + r div 64 mod 64), char_of (128 + r mod 64)]
     else [char_of (240 + r div 262144), char_of (128 + r div 4096 mod 64), char_of (128 + r div 64 mod 64),
           char_of (128 + r mod 64)])"

text \<open>The bytes of one input rune: a malformed byte counts as U+FFFD.\<close>

definition rune_bytes :: "string \<Rightarrow> string" where
  "rune_bytes s =
    (let (r, n) = decode_rune s in if r = RuneError \<and> n = 1 then [CHR 0xEF, CHR 0xBF, CHR 0xBD] else take n s)"

function to_valid :: "string \<Rightarrow> string" where
  "to_valid [] = []"
| "to_valid (c # cs) =
    (if of_char c < (128::nat) then c # to_valid cs
     else rune_bytes (c # cs) @ to_valid (drop (snd (decode_rune (c # cs)) - 1) cs))"
  by pat_completeness auto
termination
  by (relation "measure length") (auto simp: less_Suc_eq_le)

definition unhex :: "char \<Rightarrow> nat option" where
  "unhex c =
    (let n = of_char c in
     if 48 \<le> n \<and> n \<le> 57 then Some (n - 48) else if 97 \<le> n \<and> n \<le> 102 then Some (n - 87)
     else if 65 \<le> n \<and> n \<le> 70 then Some (n - 55) else None)"

text \<open>Four hexadecimal digits, and what follows.\<close>

fun get_u4 :: "string \<Rightarrow> (nat \<times> string) option" where
  "get_u4 (a # b # c # d # r) =
    (case (unhex a, unhex b, unhex c, unhex d) of
       (Some i, Some j, Some k, Some l) \<Rightarrow> Some (i * 4096 + j * 256 + k * 16 + l, r)
     | _ \<Rightarrow> None)"
| "get_u4 _ = None"

text \<open>A low surrogate escape directly after a high one makes one rune; any other surrogate is U+FFFD.\<close>

definition u_escape :: "nat \<Rightarrow> string \<Rightarrow> string \<times> string" where
  "u_escape rr r =
    (if 55296 \<le> rr \<and> rr < 57344 then
       (case r of
          b # u # r1 \<Rightarrow>
            (if b = CHR 0x5C \<and> u = CHR ''u'' then
               (case get_u4 r1 of
                  Some (lo, r2) \<Rightarrow>
                    if rr < 56320 \<and> 56320 \<le> lo \<and> lo < 57344
                    then (encode_rune ((rr - 55296) * 1024 + (lo - 56320) + 65536), r2)
                    else (encode_rune RuneError, r)
                | None \<Rightarrow> (encode_rune RuneError, r))
             else (encode_rune RuneError, r))
        | _ \<Rightarrow> (encode_rune RuneError, r))
     else (encode_rune rr, r))"

text \<open>An escape, from behind the backslash.\<close>

definition unescape :: "string \<Rightarrow> (string \<times> string) option" where
  "unescape s =
    (case s of [] \<Rightarrow> None | c # r \<Rightarrow>
      if c \<in> {CHR 0x22, CHR 0x5C, CHR ''/''} then Some ([c], r)
      else if c = CHR ''b'' then Some ([CHR 0x08], r)
      else if c = CHR ''f'' then Some ([CHR 0x0C], r)
      else if c = CHR ''n'' then Some ([CHR 0x0A], r)
      else if c = CHR ''r'' then Some ([CHR 0x0D], r)
      else if c = CHR ''t'' then Some ([CHR 0x09], r)
      else if c = CHR ''u'' then (case get_u4 r of None \<Rightarrow> None | Some (rr, r1) \<Rightarrow> Some (u_escape rr r1))
      else None)"

lemma get_u4_len: "get_u4 s = Some (n, r) \<Longrightarrow> length r < length s"
  by (induction s rule: get_u4.induct) (auto split: option.splits)

lemma u_escape_len: "length (snd (u_escape rr r)) \<le> length r"
  using get_u4_len by (fastforce simp: u_escape_def split: list.splits option.splits if_splits)

lemma unescape_len: "unescape s = Some (b, r) \<Longrightarrow> length r < length s"
proof (cases s)
  case (Cons c t)
  assume a: "unescape s = Some (b, r)"
  have "length r1 < length t \<Longrightarrow> length (snd (u_escape rr r1)) < Suc (length t)" for rr r1
    using u_escape_len[of rr r1] by simp
  with a Cons get_u4_len[of t] show ?thesis
    by (auto simp: unescape_def split: if_splits option.splits) (metis snd_conv)
qed (simp add: unescape_def)

text \<open>A string, from behind its opening quote: the value and what follows the closing quote.\<close>

function unquote :: "string \<Rightarrow> (string \<times> string) option" where
  "unquote [] = None"
| "unquote (c # cs) =
    (if c = CHR 0x22 then Some ([], cs)
     else if c = CHR 0x5C then
       (case unescape cs of None \<Rightarrow> None
        | Some (b, r) \<Rightarrow> map_option (\<lambda>(x, y). (b @ x, y)) (unquote r))
     else if of_char c < (32::nat) then None
     else if of_char c < (128::nat) then map_option (\<lambda>(x, y). (c # x, y)) (unquote cs)
     else map_option (\<lambda>(x, y). (rune_bytes (c # cs) @ x, y)) (unquote (drop (snd (decode_rune (c # cs)) - 1) cs)))"
  by pat_completeness auto
termination
  by (relation "measure length") (auto simp: less_Suc_eq_le dest: unescape_len)

section \<open>Numbers and white space\<close>

definition json_ws :: "char \<Rightarrow> bool" where
  "json_ws c \<longleftrightarrow> c \<in> {CHR '' '', CHR 0x09, CHR 0x0A, CHR 0x0D}"

definition skip_ws :: "string \<Rightarrow> string" where
  "skip_ws s = dropWhile json_ws s"

definition num_digits :: "string \<Rightarrow> string \<times> string" where
  "num_digits s = (takeWhile is_digit s, dropWhile is_digit s)"

text \<open>Optional parts of a number literal: the part and the rest, or nothing if it is malformed.\<close>

definition num_int :: "string \<Rightarrow> (string \<times> string) option" where
  "num_int s =
    (case s of [] \<Rightarrow> None | c # r \<Rightarrow>
      if c = CHR ''0'' then Some ([c], r) else if is_digit c then Some (num_digits s) else None)"

definition num_frac :: "string \<Rightarrow> (string \<times> string) option" where
  "num_frac s =
    (case s of [] \<Rightarrow> Some ([], s) | c # r \<Rightarrow>
      if c = CHR ''.'' then (let (d, r1) = num_digits r in if d = [] then None else Some (c # d, r1))
      else Some ([], s))"

definition num_exp :: "string \<Rightarrow> (string \<times> string) option" where
  "num_exp s =
    (case s of [] \<Rightarrow> Some ([], s) | c # r \<Rightarrow>
      if c = CHR ''e'' \<or> c = CHR ''E'' then
        (let (sg, r1) = (case r of x # y \<Rightarrow> if x = CHR ''+'' \<or> x = CHR ''-'' then ([x], y) else ([], r) | [] \<Rightarrow> ([], r));
             (d, r2) = num_digits r1
         in if d = [] then None else Some (c # sg @ d, r2))
      else Some ([], s))"

definition jnumber :: "string \<Rightarrow> (string \<times> string) option" where
  "jnumber s =
    (let (sg, s1) = (case s of c # r \<Rightarrow> if c = CHR ''-'' then ([c], r) else ([], s) | [] \<Rightarrow> ([], s)) in
     case num_int s1 of None \<Rightarrow> None | Some (i, s2) \<Rightarrow>
     case num_frac s2 of None \<Rightarrow> None | Some (f, s3) \<Rightarrow>
     case num_exp s3 of None \<Rightarrow> None | Some (e, s4) \<Rightarrow> Some (sg @ i @ f @ e, s4))"

section \<open>Values\<close>

text \<open>
  \<open>n\<close> is fuel, one unit per value, element or member, and \<open>d\<close> the nesting
  depth still allowed.  After a value the rest of the input is returned.
\<close>

definition max_nesting :: nat where "max_nesting = 10000"

definition jlit :: "string \<Rightarrow> json \<Rightarrow> string \<Rightarrow> (json \<times> string) option" where
  "jlit l v s = (if has_prefix s l then Some (v, drop (length l) s) else None)"

fun jvalue :: "nat \<Rightarrow> nat \<Rightarrow> string \<Rightarrow> (json \<times> string) option"
  and jelems :: "nat \<Rightarrow> nat \<Rightarrow> string \<Rightarrow> (json list \<times> string) option"
  and jmembers :: "nat \<Rightarrow> nat \<Rightarrow> string \<Rightarrow> ((string \<times> json) list \<times> string) option" where
  "jvalue 0 d s = None"
| "jvalue (Suc n) d s =
    (case skip_ws s of [] \<Rightarrow> None | c # cs \<Rightarrow>
      if c = CHR ''{'' then
        (case d of 0 \<Rightarrow> None | Suc d1 \<Rightarrow>
         case skip_ws cs of [] \<Rightarrow> None | x # r \<Rightarrow>
           if x = CHR ''}'' then Some (JObj [], r) else map_option (\<lambda>(ms, y). (JObj ms, y)) (jmembers n d1 cs))
      else if c = CHR ''['' then
        (case d of 0 \<Rightarrow> None | Suc d1 \<Rightarrow>
         case skip_ws cs of [] \<Rightarrow> None | x # r \<Rightarrow>
           if x = CHR '']'' then Some (JArr [], r) else map_option (\<lambda>(vs, y). (JArr vs, y)) (jelems n d1 cs))
      else if c = CHR 0x22 then map_option (\<lambda>(x, y). (JStr x, y)) (unquote cs)
      else if c = CHR ''n'' then jlit ''null'' JNull (c # cs)
      else if c = CHR ''t'' then jlit ''true'' (JBool True) (c # cs)
      else if c = CHR ''f'' then jlit ''false'' (JBool False) (c # cs)
      else map_option (\<lambda>(x, y). (JNum x, y)) (jnumber (c # cs)))"
| "jelems 0 d s = None"
| "jelems (Suc n) d s =
    (case jvalue n d s of None \<Rightarrow> None | Some (v, r) \<Rightarrow>
     case skip_ws r of [] \<Rightarrow> None | c # r1 \<Rightarrow>
       if c = CHR '']'' then Some ([v], r1)
       else if c = CHR '','' then map_option (\<lambda>(vs, y). (v # vs, y)) (jelems n d r1)
       else None)"
| "jmembers 0 d s = None"
| "jmembers (Suc n) d s =
    (case skip_ws s of [] \<Rightarrow> None | q # s1 \<Rightarrow>
      if q \<noteq> CHR 0x22 then None else
      case unquote s1 of None \<Rightarrow> None | Some (k, s2) \<Rightarrow>
      case skip_ws s2 of [] \<Rightarrow> None | col # s3 \<Rightarrow>
      if col \<noteq> CHR '':'' then None else
      case jvalue n d s3 of None \<Rightarrow> None | Some (v, r) \<Rightarrow>
      case skip_ws r of [] \<Rightarrow> None | c # r1 \<Rightarrow>
        if c = CHR ''}'' then Some ([(k, v)], r1)
        else if c = CHR '','' then map_option (\<lambda>(ms, y). ((k, v) # ms, y)) (jmembers n d r1)
        else None)"

text \<open>\<^verbatim>\<open>json.Unmarshal\<close> reads one value and nothing else; a \<^verbatim>\<open>json.Decoder\<close> reads the first value.\<close>

definition jfirst :: "string \<Rightarrow> (json \<times> string) option" where
  "jfirst s = jvalue (2 * length s + 1) max_nesting s"

definition jparse :: "string \<Rightarrow> json option" where
  "jparse s = (case jfirst s of None \<Rightarrow> None | Some (v, r) \<Rightarrow> if skip_ws r = [] then Some v else None)"

section \<open>Reading back what was written\<close>

subsection \<open>Strings\<close>

lemma encode_rune_ascii: "r < 128 \<Longrightarrow> encode_rune r = [char_of r]"
  by (simp add: encode_rune_def)

lemma encode_RuneError: "encode_rune RuneError = [CHR 0xEF, CHR 0xBF, CHR 0xBD]"
  by (simp add: encode_rune_def RuneError_def char_of_def bit_iff_odd)

lemma unhex_hex_digit: "d < 16 \<Longrightarrow> unhex (hex_digit d) = Some d"
  by (simp add: unhex_def of_hex_digit Let_def)

lemma get_u4_json_u4:
  assumes "n < 65536"
  shows "json_u4 n = CHR 0x5C # CHR ''u'' # drop 2 (json_u4 n)" "get_u4 (drop 2 (json_u4 n) @ r) = Some (n, r)"
proof -
  show "json_u4 n = CHR 0x5C # CHR ''u'' # drop 2 (json_u4 n)" by (simp add: json_u4_def)
  have A: "n div 4096 mod 16 * 4096 + n div 256 mod 16 * 256 + n div 16 mod 16 * 16 + n mod 16 = n"
  proof -
    have e: "n div 16 div 16 = n div 256" "n div 256 div 16 = n div 4096" by simp_all
    have "n div 256 * 16 + n div 16 mod 16 = n div 16" "n div 4096 * 16 + n div 256 mod 16 = n div 256"
      using div_mult_mod_eq[of "n div 16" 16] div_mult_mod_eq[of "n div 256" 16] by (simp_all only: e)
    moreover have "n div 16 * 16 + n mod 16 = n" by simp
    moreover have "n div 4096 mod 16 = n div 4096" using assms by simp
    ultimately show ?thesis by linarith
  qed
  have "get_u4 (drop 2 (json_u4 n) @ r)
    = Some (n div 4096 mod 16 * 4096 + n div 256 mod 16 * 256 + n div 16 mod 16 * 16 + n mod 16, r)"
    by (simp add: json_u4_def unhex_hex_digit)
  then show "get_u4 (drop 2 (json_u4 n) @ r) = Some (n, r)" unfolding A .
qed

lemma unquote_u4:
  assumes "n < 55296 \<or> n = 65533"
  shows "unquote (json_u4 n @ r) = map_option (\<lambda>(x, y). (encode_rune n @ x, y)) (unquote r)"
proof -
  have n: "n < 65536" "\<not> (55296 \<le> n \<and> n < 57344)" using assms by auto
  have "unescape (CHR ''u'' # drop 2 (json_u4 n) @ r) = Some (encode_rune n, r)"
    using get_u4_json_u4(2)[OF n(1), of r] n(2) by (auto simp: unescape_def u_escape_def)
  then show ?thesis by (subst get_u4_json_u4(1)[OF n(1)]) simp
qed

lemma unquote_ascii:
  assumes "of_char c < (128::nat)"
  shows "unquote (json_ascii c @ r) = map_option (\<lambda>(x, y). (c # x, y)) (unquote r)"
proof (cases "c \<in> {CHR 0x22, CHR 0x5C, CHR 0x08, CHR 0x0C, CHR 0x0A, CHR 0x0D, CHR 0x09}")
  case True
  then show ?thesis by (auto simp: json_ascii_def unescape_def)
next
  case False
  show ?thesis
  proof (cases "of_char c < (32::nat) \<or> c = CHR ''<'' \<or> c = CHR ''>'' \<or> c = CHR ''&''")
    case True
    have "encode_rune (of_char c) = [c]" using assms by (simp add: encode_rune_ascii)
    then show ?thesis using True False assms unquote_u4[of "of_char c" r] by (auto simp: json_ascii_def)
  next
    case False': False
    then show ?thesis using False assms by (simp add: json_ascii_def)
  qed
qed

text \<open>A well-formed rune is decoded the same with anything behind it.\<close>

lemma decode_rune_take:
  assumes "decode_rune (c # cs) = (r, n)" "\<not> (r = RuneError \<and> n = 1)"
  shows "decode_rune (take n (c # cs) @ z) = (r, n)" "n \<le> Suc (length cs)" "1 \<le> n"
proof -
  have d2: "decode2 b cs = (r, n) \<Longrightarrow> n = 1 \<and> r = RuneError \<or> n = 2 \<and> 1 \<le> length cs \<and> decode2 b (take 1 cs @ z) = (r, n)" for b
    by (induction b cs rule: decode2.induct) (auto split: if_splits)
  have d3: "decode3 b cs = (r, n) \<Longrightarrow> n = 1 \<and> r = RuneError \<or> n = 3 \<and> 2 \<le> length cs \<and> decode3 b (take 2 cs @ z) = (r, n)" for b
    by (induction b cs rule: decode3.induct) (auto split: if_splits)
  have d4: "decode4 b cs = (r, n) \<Longrightarrow> n = 1 \<and> r = RuneError \<or> n = 4 \<and> 3 \<le> length cs \<and> decode4 b (take 3 cs @ z) = (r, n)" for b
    by (induction b cs rule: decode4.induct) (auto split: if_splits)
  have "decode_rune (take n (c # cs) @ z) = (r, n) \<and> n \<le> Suc (length cs) \<and> 1 \<le> n"
    using assms d2[of "of_char c"] d3[of "of_char c"] d4[of "of_char c"]
    by (auto simp: decode_rune.simps split: if_splits)
  then show "decode_rune (take n (c # cs) @ z) = (r, n)" "n \<le> Suc (length cs)" "1 \<le> n" by auto
qed

text \<open>The two line separators are escaped; their escapes stand for the same bytes.\<close>

lemma line_separator_bytes:
  assumes "decode_rune (c # cs) = (r, n)" "r = 8232 \<or> r = 8233"
  shows "take n (c # cs) = encode_rune r"
proof -
  have char: "x = char_of (of_char x :: nat)" for x :: char by simp
  have lt: "of_char x < (256::nat)" for x :: char by simp
  have d2: "decode2 b cs = (r, n) \<Longrightarrow> b < 224 \<Longrightarrow> False" for b
    using assms(2) lt by (induction b cs rule: decode2.induct) (auto simp: RuneError_def cont_bits_def split: if_splits)
  have d4: "decode4 b cs = (r, n) \<Longrightarrow> 240 \<le> b \<Longrightarrow> False" for b
    using assms(2) lt by (induction b cs rule: decode4.induct) (auto simp: RuneError_def cont_bits_def split: if_splits)
  have d3: "decode3 b cs = (r, n) \<Longrightarrow> 224 \<le> b \<Longrightarrow> b < 240 \<Longrightarrow>
      b = 226 \<and> n = 3 \<and> (\<exists>c1 c2 t. cs = c1 # c2 # t \<and> of_char c1 = (128::nat) \<and> of_char c2 = 168 + (r - 8232))" for b
  proof (induction b cs rule: decode3.induct)
    case (1 b0 c1 c2 t)
    then have e: "(b0 - 224) * 4096 + (of_char c1 - 128) * 64 + (of_char c2 - 128) = r" "n = 3"
      and b: "128 \<le> (of_char c1 :: nat)" "of_char c1 \<le> (191::nat)" "128 \<le> (of_char c2 :: nat)" "of_char c2 \<le> (191::nat)"
      using assms(2) by (auto simp: cont_bits_def RuneError_def split: if_splits)
    have "b0 - 224 = 2" using e(1) b assms(2) by auto
    moreover from this have "of_char c1 - 128 = (0::nat)" using e(1) b assms(2) by auto
    ultimately show ?case using e b assms(2) by auto
  qed (use assms(2) in \<open>auto simp: RuneError_def\<close>)
  have "\<not> of_char c < (128::nat)" using assms by auto
  with assms d2[of "of_char c"] d3[of "of_char c"] d4[of "of_char c"]
  have "of_char c = (226::nat)" "n = 3"
    "\<exists>c1 c2 t. cs = c1 # c2 # t \<and> of_char c1 = (128::nat) \<and> of_char c2 = 168 + (r - 8232)"
    by (auto simp: decode_rune.simps RuneError_def split: if_splits)
  then show ?thesis
    using assms(2) by (auto simp: encode_rune_def) (metis char)+
qed

lemma unquote_rune:
  assumes "\<not> of_char c < (128::nat)" "decode_rune (c # cs) = (r, n)" "\<not> (r = RuneError \<and> n = 1)"
  shows "unquote (take n (c # cs) @ z) = map_option (\<lambda>(x, y). (take n (c # cs) @ x, y)) (unquote z)"
proof -
  note T = decode_rune_take[OF assms(2,3)]
  obtain m where m: "n = Suc m" using T(3) by (cases n) auto
  let ?t = "take m cs @ z"
  have d: "decode_rune (c # ?t) = (r, n)" using T(1)[of z] m by simp
  have "drop (n - 1) ?t = z" "take n (c # ?t) = take n (c # cs)" using m T(2) by simp_all
  moreover have "c \<noteq> CHR 0x22" "c \<noteq> CHR 0x5C" "\<not> of_char c < (32::nat)" using assms(1) by auto
  moreover have "take n (c # cs) @ z = c # ?t" using m by simp
  moreover have "rune_bytes (c # ?t) = take n (c # ?t)" using assms(3) d by (auto simp: rune_bytes_def)
  ultimately show ?thesis using assms(1) d by (simp del: take_append)
qed

lemma unquote_chars: "unquote (json_chars s @ CHR 0x22 # r) = Some (to_valid s, r)"
proof (induction s rule: json_chars.induct)
  case (2 c cs)
  show ?case
  proof (cases "of_char c < (128::nat)")
    case True
    with 2 show ?thesis by (simp add: unquote_ascii)
  next
    case False
    obtain x n where d: "decode_rune (c # cs) = (x, n)" by fastforce
    let ?z = "json_chars (drop (n - 1) cs) @ CHR 0x22 # r"
    have IH: "unquote ?z = Some (to_valid (drop (n - 1) cs), r)"
      using 2(2)[OF False, of "(x, n)" x n "drop (n - 1) cs"] d by simp
    have e: "rune_bytes (c # cs) = (if x = RuneError \<and> n = 1 then encode_rune RuneError else take n (c # cs))"
      using d by (simp add: rune_bytes_def encode_RuneError)
    consider "x = RuneError \<and> n = 1" | "x = 8232 \<or> x = 8233" "\<not> (x = RuneError \<and> n = 1)"
      | "x \<noteq> 8232" "x \<noteq> 8233" "\<not> (x = RuneError \<and> n = 1)" by blast
    then show ?thesis
    proof cases
      case 1
      then show ?thesis using False d IH e unquote_u4[of 65533 ?z] by (simp add: RuneError_def)
    next
      case 2
      then have "rune_bytes (c # cs) = encode_rune x" using e line_separator_bytes[OF d] by auto
      then show ?thesis using False d IH unquote_u4[of x ?z] 2 by (auto simp: RuneError_def)
    next
      case 3
      then show ?thesis using False d IH e unquote_rune[OF False d 3(3), of ?z] by (cases "x = RuneError") simp_all
    qed
  qed
qed simp

lemma to_valid_ascii: "list_all (\<lambda>c. of_char c < (128::nat)) s \<Longrightarrow> to_valid s = s"
  by (induction s) simp_all

subsection \<open>Numbers\<close>

text \<open>Nothing in \<open>r\<close> continues a number.\<close>

definition num_stop :: "string \<Rightarrow> bool" where
  "num_stop r \<longleftrightarrow> (case r of [] \<Rightarrow> True
     | c # _ \<Rightarrow> \<not> is_digit c \<and> c \<notin> {CHR ''.'', CHR ''e'', CHR ''E'', CHR ''+'', CHR ''-''})"

abbreviation tailed :: "string \<Rightarrow> (string \<times> string) option \<Rightarrow> (string \<times> string) option" where
  "tailed r \<equiv> map_option (\<lambda>(x, y). (x, y @ r))"

lemma num_digits_append:
  assumes "num_stop r"
  shows "num_digits (a @ r) = (fst (num_digits a), snd (num_digits a) @ r)"
proof -
  have "takeWhile is_digit r = []" "dropWhile is_digit r = r"
    using assms by (cases r; simp add: num_stop_def)+
  then show ?thesis by (induction a) (simp_all add: num_digits_def)
qed

lemma num_int_append:
  assumes "num_stop r"
  shows "num_int (a @ r) = tailed r (num_int a)"
proof (cases a)
  case Nil
  have "is_digit (CHR ''0'')" by (simp add: is_digit_def)
  with Nil assms show ?thesis by (cases r) (auto simp: num_int_def num_stop_def)
next
  case (Cons c b)
  then show ?thesis using num_digits_append[OF assms, of a] by (auto simp: num_int_def split: prod.split)
qed

lemma num_frac_append:
  assumes "num_stop r"
  shows "num_frac (a @ r) = tailed r (num_frac a)"
proof (cases a)
  case Nil
  with assms show ?thesis by (cases r) (auto simp: num_frac_def num_stop_def)
next
  case (Cons c b)
  then show ?thesis using num_digits_append[OF assms, of b] by (auto simp: num_frac_def Let_def split: prod.splits)
qed

lemma num_exp_append:
  assumes "num_stop r"
  shows "num_exp (a @ r) = tailed r (num_exp a)"
proof (cases a)
  case Nil
  with assms show ?thesis by (cases r) (auto simp: num_exp_def num_stop_def)
next
  case (Cons c b)
  have "num_digits r = ([], r)" using num_digits_append[OF assms, of "[]"] by (simp add: num_digits_def)
  with assms have n: "b = [] \<Longrightarrow> num_exp (a @ r) = tailed r (num_exp a)"
    by (cases r) (auto simp: Cons num_exp_def num_stop_def num_digits_def Let_def split: if_splits)
  show ?thesis
  proof (cases b)
    case (Cons x y)
    then show ?thesis using \<open>a = c # b\<close> num_digits_append[OF assms, of b] num_digits_append[OF assms, of y]
      by (auto simp: num_exp_def Let_def split: prod.splits)
  qed (rule n)
qed

lemma jnumber_append:
  assumes "num_stop r"
  shows "jnumber (a @ r) = tailed r (jnumber a)"
proof (cases a)
  case Nil
  with assms show ?thesis
    using num_int_append[OF assms, of "[]"] by (cases r) (auto simp: jnumber_def num_stop_def num_int_def)
next
  case (Cons c b)
  then show ?thesis
    using num_int_append[OF assms, of b] num_int_append[OF assms, of a]
    by (auto simp: jnumber_def num_frac_append[OF assms] num_exp_append[OF assms] split: option.splits)
qed

definition num_ok :: "string \<Rightarrow> bool" where
  "num_ok l \<longleftrightarrow> jnumber l = Some (l, [])"

lemma num_ok_append: "num_ok l \<Longrightarrow> num_stop r \<Longrightarrow> jnumber (l @ r) = Some (l, r)"
  by (simp add: jnumber_append num_ok_def)

lemma num_ok_head:
  assumes "num_ok l"
  obtains c t where "l = c # t" "c = CHR ''-'' \<or> is_digit c"
proof (cases l)
  case (Cons c t)
  have "is_digit (CHR ''0'')" by (simp add: is_digit_def)
  with assms Cons that show thesis
    by (auto simp: num_ok_def jnumber_def num_int_def split: if_splits option.splits)
qed (use assms in \<open>simp add: num_ok_def jnumber_def num_int_def\<close>)

subsection \<open>Values\<close>

text \<open>What is read back: strings with malformed bytes replaced.\<close>

fun coerce :: "json \<Rightarrow> json" where
  "coerce (JStr s) = JStr (to_valid s)"
| "coerce (JArr vs) = JArr (map coerce vs)"
| "coerce (JObj ms) = JObj (map (\<lambda>(k, v). (to_valid k, coerce v)) ms)"
| "coerce v = v"

fun jok :: "json \<Rightarrow> bool" where
  "jok (JNum l) \<longleftrightarrow> num_ok l"
| "jok (JArr vs) \<longleftrightarrow> list_all jok vs"
| "jok (JObj ms) \<longleftrightarrow> list_all (\<lambda>(k, v). jok v) ms"
| "jok v \<longleftrightarrow> True"

fun jdepth :: "json \<Rightarrow> nat" where
  "jdepth (JArr vs) = Suc (fold max (map jdepth vs) 0)"
| "jdepth (JObj ms) = Suc (fold max (map (\<lambda>(k, v). jdepth v) ms) 0)"
| "jdepth v = 0"

fun jfuel :: "json \<Rightarrow> nat" where
  "jfuel (JArr vs) = Suc (sum_list (map (\<lambda>v. Suc (jfuel v)) vs))"
| "jfuel (JObj ms) = Suc (sum_list (map (\<lambda>(k, v). Suc (jfuel v)) ms))"
| "jfuel v = 1"

lemma fold_max_ge: "x \<in> set xs \<Longrightarrow> x \<le> fold max xs (a::nat)"
  by (metis Max_ge Max.set_eq_fold List.finite_set insertCI list.simps(15))

lemma skip_ws_id: "\<not> json_ws c \<Longrightarrow> skip_ws (c # s) = c # s"
  by (simp add: skip_ws_def)

lemma jprint_head:
  assumes "jok v"
  obtains c t where "jprint v = c # t" "\<not> json_ws c" "c \<noteq> CHR '']''" "c \<noteq> CHR ''}''"
proof (cases v)
  case (JNum l)
  with assms obtain c t where "l = c # t" "c = CHR ''-'' \<or> is_digit c" using num_ok_head by auto
  moreover from this have "\<not> json_ws c" "c \<noteq> CHR '']''" "c \<noteq> CHR ''}''" by (auto simp: json_ws_def is_digit_def)
  ultimately show thesis using that JNum by simp
next
  case (JBool b)
  then show thesis using that by (cases b) (auto simp: json_ws_def)
qed (use that in \<open>auto simp: json_ws_def json_string_def\<close>)

lemma num_stop_punct: "num_stop (CHR '','' # r)" "num_stop (CHR '']'' # r)" "num_stop (CHR ''}'' # r)"
  by (simp_all add: num_stop_def is_digit_def)

lemma jelems_print:
  assumes "\<And>v n r. v \<in> set vs \<Longrightarrow> jfuel v \<le> n \<Longrightarrow> num_stop r \<Longrightarrow> jvalue n d (jprint v @ r) = Some (coerce v, r)"
    and "vs \<noteq> []" "sum_list (map (\<lambda>v. Suc (jfuel v)) vs) \<le> n"
  shows "jelems n d (json_join (map jprint vs) @ CHR '']'' # r) = Some (map coerce vs, r)"
  using assms
proof (induction vs arbitrary: n)
  case (Cons v vs)
  from Cons.prems(3) obtain m where n: "n = Suc m" by (cases n) auto
  have v: "jvalue m d (jprint v @ z) = Some (coerce v, z)" if "num_stop z" for z
    using Cons.prems(1)[of v m z] Cons.prems(3) that n by simp
  have ws: "skip_ws (CHR '']'' # z) = CHR '']'' # z" "skip_ws (CHR '','' # z) = CHR '','' # z" for z
    by (simp_all add: skip_ws_def json_ws_def)
  show ?case
  proof (cases vs)
    case Nil
    then show ?thesis using n v[OF num_stop_punct(2)] ws by simp
  next
    case (Cons u us)
    then have "jelems m d (json_join (map jprint vs) @ CHR '']'' # r) = Some (map coerce vs, r)"
      using Cons.IH[of m] Cons.prems n by simp
    then show ?thesis using Cons n v[OF num_stop_punct(1)] ws by simp
  qed
qed simp

lemma jmembers_print:
  assumes "\<And>k v n r. (k, v) \<in> set ms \<Longrightarrow> jfuel v \<le> n \<Longrightarrow> num_stop r \<Longrightarrow> jvalue n d (jprint v @ r) = Some (coerce v, r)"
    and "ms \<noteq> []" "sum_list (map (\<lambda>(k, v). Suc (jfuel v)) ms) \<le> n"
  shows "jmembers n d (json_join (map (\<lambda>(k, v). json_member k (jprint v)) ms) @ CHR ''}'' # r)
    = Some (map (\<lambda>(k, v). (to_valid k, coerce v)) ms, r)"
  using assms
proof (induction ms arbitrary: n)
  case (Cons kv ms)
  obtain k v where kv: "kv = (k, v)" by fastforce
  from Cons.prems(3) obtain m where n: "n = Suc m" by (cases n) (auto simp: kv)
  have v: "jvalue m d (jprint v @ z) = Some (coerce v, z)" if "num_stop z" for z
    using Cons.prems(1)[of k v m z] Cons.prems(3) that n kv by simp
  have ws: "skip_ws (CHR ''}'' # z) = CHR ''}'' # z" "skip_ws (CHR '','' # z) = CHR '','' # z"
    "skip_ws (CHR '':'' # z) = CHR '':'' # z" "skip_ws (CHR 0x22 # z) = CHR 0x22 # z" for z
    by (simp_all add: skip_ws_def json_ws_def)
  show ?case
  proof (cases ms)
    case Nil
    then show ?thesis using n kv v[OF num_stop_punct(3)] ws
      by (simp add: json_member_def json_string_def unquote_chars)
  next
    case (Cons u us)
    then have "jmembers m d (json_join (map (\<lambda>(k, v). json_member k (jprint v)) ms) @ CHR ''}'' # r)
        = Some (map (\<lambda>(k, v). (to_valid k, coerce v)) ms, r)"
      using Cons.IH[of m] Cons.prems n kv by auto
    then show ?thesis using Cons n kv v[OF num_stop_punct(1)] ws
      by (simp add: json_member_def json_string_def unquote_chars)
  qed
qed simp

lemma jvalue_print:
  "jok v \<Longrightarrow> jdepth v \<le> d \<Longrightarrow> jfuel v \<le> n \<Longrightarrow> num_stop r \<Longrightarrow> jvalue n d (jprint v @ r) = Some (coerce v, r)"
proof (induction v arbitrary: n d r)
  case JNull
  then show ?case by (cases n) (simp_all add: skip_ws_def json_ws_def jlit_def has_prefix_def)
next
  case (JBool b)
  then show ?case by (cases n) (simp_all add: skip_ws_def json_ws_def jlit_def has_prefix_def)
next
  case (JNum l)
  from JNum obtain c t where l: "l = c # t" "c = CHR ''-'' \<or> is_digit c" using num_ok_head by auto
  have c: "c \<notin> {CHR ''{'', CHR ''['', CHR 0x22, CHR ''n'', CHR ''t'', CHR ''f''}" "\<not> json_ws c"
    using l(2) by (auto simp: json_ws_def is_digit_def)
  have "skip_ws (l @ r) = c # (t @ r)" using l(1) c(2) by (simp add: skip_ws_id)
  moreover have "jnumber (c # (t @ r)) = Some (l, r)" using num_ok_append[of l r] JNum l(1) by simp
  ultimately show ?case using JNum c(1) by (cases n) simp_all
next
  case (JStr s)
  then show ?case by (cases n) (simp_all add: skip_ws_def json_ws_def json_string_def unquote_chars)
next
  case (JArr vs)
  from JArr.prems obtain m e where n: "n = Suc m" "d = Suc e" by (cases n; cases d) auto
  have w: "skip_ws (CHR ''['' # z) = CHR ''['' # z" for z by (simp add: skip_ws_def json_ws_def)
  show ?case
  proof (cases vs)
    case Nil
    then show ?thesis using n w by (simp add: skip_ws_def json_ws_def)
  next
    case (Cons v us)
    have "jvalue k e (jprint x @ z) = Some (coerce x, z)" if "x \<in> set vs" "jfuel x \<le> k" "num_stop z" for x k z
      using JArr.IH[OF that(1), of e k z] JArr.prems that n fold_max_ge[of "jdepth x" "map jdepth vs" 0]
      by (auto simp: list_all_iff)
    then have E: "jelems m e (json_join (map jprint vs) @ CHR '']'' # r) = Some (map coerce vs, r)"
      using JArr.prems n Cons by (intro jelems_print) auto
    have jv: "jok v" using JArr.prems(1) Cons by simp
    obtain c t where h: "jprint v = c # t" "\<not> json_ws c" "c \<noteq> CHR '']''" by (rule jprint_head[OF jv])
    have "\<exists>t'. json_join (map jprint vs) @ CHR '']'' # r = c # t'" using Cons h(1) by (cases us) auto
    then obtain t' where "json_join (map jprint vs) @ CHR '']'' # r = c # t'" by blast
    then show ?thesis using n w h E by (simp add: skip_ws_id)
  qed
next
  case (JObj ms)
  from JObj.prems obtain m e where n: "n = Suc m" "d = Suc e" by (cases n; cases d) auto
  have w: "skip_ws (CHR ''{'' # z) = CHR ''{'' # z" "skip_ws (CHR 0x22 # z) = CHR 0x22 # z" for z
    by (simp_all add: skip_ws_def json_ws_def)
  show ?case
  proof (cases ms)
    case Nil
    then show ?thesis using n w by (simp add: skip_ws_def json_ws_def)
  next
    case (Cons kv us)
    have "jvalue k e (jprint x @ z) = Some (coerce x, z)" if "(y, x) \<in> set ms" "jfuel x \<le> k" "num_stop z" for y x k z
    proof -
      have "jdepth x \<in> set (map (\<lambda>(k, v). jdepth v) ms)" using that(1) by force
      then have "jdepth x \<le> e" using fold_max_ge[of "jdepth x" "map (\<lambda>(k, v). jdepth v) ms" 0] JObj.prems(2) n by simp
      then show ?thesis using JObj.IH[of "(y, x)" x e k z] JObj.prems(1) that by (auto simp: list_all_iff)
    qed
    then have E: "jmembers m e (json_join (map (\<lambda>(k, v). json_member k (jprint v)) ms) @ CHR ''}'' # r)
        = Some (map (\<lambda>(k, v). (to_valid k, coerce v)) ms, r)"
      using JObj.prems n Cons by (intro jmembers_print) auto
    obtain t' where "json_join (map (\<lambda>(k, v). json_member k (jprint v)) ms) @ CHR ''}'' # r = CHR 0x22 # t'"
      using Cons by (cases us; cases kv) (auto simp: json_member_def json_string_def)
    then show ?thesis using n w E by simp
  qed
qed

lemma jfuel_le: "jok v \<Longrightarrow> jfuel v \<le> 2 * length (jprint v)"
proof (induction v)
  case (JNum l)
  then show ?case using num_ok_head[of l] by (metis Suc_leI jfuel.simps(5) jok.simps(1) jprint.simps(3)
      length_greater_0_conv list.discI mult_le_mono nat_mult_1 one_le_numeral One_nat_def)
next
  case (JArr vs)
  have "(\<Sum>v\<leftarrow>vs. Suc (jfuel v)) \<le> 2 * length (json_join (map jprint vs)) + 3"
    using JArr
  proof (induction vs rule: induct_list012)
    case (3 x y zs)
    then show ?case by fastforce
  qed (auto simp: numeral_eq_Suc)
  then show ?case by simp
next
  case (JObj ms)
  have "(\<Sum>(k, v)\<leftarrow>ms. Suc (jfuel v)) \<le> 2 * length (json_join (map (\<lambda>(k, v). json_member k (jprint v)) ms)) + 3"
    using JObj
  proof (induction ms rule: induct_list012)
    case (3 x y zs)
    then show ?case by (cases x; cases y) (fastforce simp: json_member_def json_string_def)
  next
    case (2 x)
    then show ?case by (cases x) (fastforce simp: json_member_def json_string_def)
  qed auto
  then show ?case by simp
qed (auto simp: json_string_def)

text \<open>Reading back any value that was written.\<close>

lemma jparse_jprint:
  assumes "jok v" "jdepth v \<le> max_nesting"
  shows "jparse (jprint v) = Some (coerce v)"
proof -
  have "jvalue (2 * length (jprint v) + 1) max_nesting (jprint v @ []) = Some (coerce v, [])"
    using assms jfuel_le[OF assms(1)] by (intro jvalue_print) (auto simp: num_stop_def)
  then show ?thesis by (simp add: jparse_def jfirst_def skip_ws_def)
qed

section \<open>Decoding into any\<close>

text \<open>The dynamic values \<^verbatim>\<open>encoding/json\<close> makes: every number is a \<^verbatim>\<open>float64\<close>, an object a map.\<close>

datatype goval =
    GNil
  | GBool bool
  | GNum real
  | GStr string
  | GList "goval list"
  | GMap "(string \<times> goval) list"

text \<open>The exact value of a number literal.\<close>

definition num_exponent :: "string \<Rightarrow> int" where
  "num_exponent s =
    (case s of [] \<Rightarrow> 0 | c # r \<Rightarrow>
      (case r of [] \<Rightarrow> 0
       | x # y \<Rightarrow> if x = CHR ''-'' then - int (read_nat y) else if x = CHR ''+'' then int (read_nat y) else int (read_nat r)))"

definition num_val :: "string \<Rightarrow> real" where
  "num_val l =
    (let (neg, s) = (case l of c # r \<Rightarrow> if c = CHR ''-'' then (True, r) else (False, l) | [] \<Rightarrow> (False, l));
         (ip, r1) = num_digits s;
         (fp, r2) = (case r1 of c # t \<Rightarrow> if c = CHR ''.'' then num_digits t else ([], r1) | [] \<Rightarrow> ([], r1))
     in (if neg then -1 else 1) * of_nat (read_nat (ip @ fp)) * 10 powi (num_exponent r2 - int (length fp)))"

text \<open>\<^verbatim>\<open>strconv.ParseFloat\<close>: rounding, and an error beyond the largest finite number.\<close>

definition num_float :: "string \<Rightarrow> real option" where
  "num_float l = (let x = fl64 (num_val l) in if \<bar>x\<bar> < 2 ^ 1024 then Some x else None)"

fun opt_all :: "'a option list \<Rightarrow> 'a list option" where
  "opt_all [] = Some []"
| "opt_all (None # xs) = None"
| "opt_all (Some x # xs) = map_option (\<lambda>ys. x # ys) (opt_all xs)"

lemma opt_all_cong [fundef_cong]: "xs = ys \<Longrightarrow> opt_all xs = opt_all ys"
  by simp

text \<open>Assigning a key of a map.\<close>

definition map_put :: "string \<Rightarrow> 'a \<Rightarrow> (string \<times> 'a) list \<Rightarrow> (string \<times> 'a) list" where
  "map_put k v m = filter (\<lambda>e. fst e \<noteq> k) m @ [(k, v)]"

fun to_any :: "json \<Rightarrow> goval option" where
  "to_any JNull = Some GNil"
| "to_any (JBool b) = Some (GBool b)"
| "to_any (JNum l) = map_option GNum (num_float l)"
| "to_any (JStr s) = Some (GStr s)"
| "to_any (JArr vs) = map_option GList (opt_all (map to_any vs))"
| "to_any (JObj ms) = map_option (\<lambda>vs. GMap (fold (\<lambda>(k, v). map_put k v) (zip (map fst ms) vs) []))
     (opt_all (map (\<lambda>m. to_any (snd m)) ms))"

section \<open>json.Marshal of dynamic values\<close>

text \<open>The keys of a map come sorted; \<open>ff\<close> is the shortest decimal form of a float.\<close>

fun gjson :: "(real \<Rightarrow> string) \<Rightarrow> goval \<Rightarrow> json" where
  "gjson ff GNil = JNull"
| "gjson ff (GBool b) = JBool b"
| "gjson ff (GNum x) = JNum (ff x)"
| "gjson ff (GStr s) = JStr s"
| "gjson ff (GList vs) = JArr (map (gjson ff) vs)"
| "gjson ff (GMap m) = JObj (sort_key fst (map (\<lambda>e. (fst e, gjson ff (snd e))) m))"

definition marshal_any :: "(real \<Rightarrow> string) \<Rightarrow> goval \<Rightarrow> string" where
  "marshal_any ff v = jprint (gjson ff v)"

section \<open>Decoding into structs\<close>

text \<open>Member names match field names up to case; besides ASCII letters, two runes fold to ASCII ones.\<close>

definition fold_rune :: "nat \<Rightarrow> nat" where
  "fold_rune r = (if 65 \<le> r \<and> r \<le> 90 then r + 32 else if r = 383 then 115 else if r = 8490 then 107 else r)"

definition field_is :: "string \<Rightarrow> string \<Rightarrow> bool" where
  "field_is f k \<longleftrightarrow> map fold_rune (runes k) = map fold_rune (runes f)"

text \<open>\<open>set k v a\<close> assigns the member \<open>k\<close>; a mismatch of types is an error in the end.\<close>

definition decode_struct :: "(string \<Rightarrow> json \<Rightarrow> 'a \<Rightarrow> 'a option) \<Rightarrow> json \<Rightarrow> 'a \<Rightarrow> 'a option" where
  "decode_struct f v a =
    (case v of JNull \<Rightarrow> Some a
     | JObj ms \<Rightarrow> foldl (\<lambda>x (k, m). case x of None \<Rightarrow> None | Some b \<Rightarrow> f k m b) (Some a) ms
     | _ \<Rightarrow> None)"

definition str_field :: "(string \<Rightarrow> 'a \<Rightarrow> 'a) \<Rightarrow> json \<Rightarrow> 'a \<Rightarrow> 'a option" where
  "str_field upd v a = (case v of JNull \<Rightarrow> Some a | JStr s \<Rightarrow> Some (upd s a) | _ \<Rightarrow> None)"

text \<open>\<^verbatim>\<open>json.Unmarshal\<close> and \<^verbatim>\<open>Decoder.Decode\<close> into a struct; \<open>jerr\<close> words the error.\<close>

definition Unmarshal :: "(bytes \<Rightarrow> string) \<Rightarrow> (json \<Rightarrow> 'a option) \<Rightarrow> bytes \<Rightarrow> 'a result" where
  "Unmarshal jerr f b =
    (case jparse b of None \<Rightarrow> Inl (Opaque (jerr b))
     | Some v \<Rightarrow> (case f v of None \<Rightarrow> Inl (Opaque (jerr b)) | Some a \<Rightarrow> Inr a))"

definition Decode :: "(bytes \<Rightarrow> string) \<Rightarrow> (json \<Rightarrow> 'a option) \<Rightarrow> bytes \<times> go_error option \<Rightarrow> 'a result" where
  "Decode jerr f body =
    (case jfirst (fst body) of
       Some (v, r) \<Rightarrow> (case f v of None \<Rightarrow> Inl (Opaque (jerr (fst body))) | Some a \<Rightarrow> Inr a)
     | None \<Rightarrow> (case snd body of Some e \<Rightarrow> Inl e | None \<Rightarrow> Inl (Opaque (jerr (fst body)))))"

section \<open>Problem documents\<close>

definition str_member :: "string \<Rightarrow> string \<Rightarrow> (string \<times> json) list" where
  "str_member k v = (if v = [] then [] else [(k, JStr v)])"

definition problem_members :: "Problem \<Rightarrow> (string \<times> json) list" where
  "problem_members p = str_member ''type'' (p_Type p) @ [(''title'', JStr (p_Title p)), (''status'', JNum (Itoa (p_Status p)))]
     @ str_member ''detail'' (p_Detail p) @ str_member ''instance'' (p_Instance p) @ str_member ''sqlstate'' (p_SQLState p)"

lemma json_problem_jprint: "json_problem p = jprint (JObj (problem_members p))"
  by (simp add: json_problem_def json_object_def problem_members_def omitempty_def str_member_def)

lemma num_ok_show_nat: "num_ok (show_nat n)"
proof -
  have d: "list_all is_digit (show_nat n)" using show_nat_digits by (simp add: list_all_iff)
  obtain c t where s: "show_nat n = c # t" by (metis neq_Nil_conv show_nat_nonempty)
  have z: "c = CHR ''0'' \<Longrightarrow> t = []" using s
  proof (induction n arbitrary: c t rule: show_nat.induct)
    case (1 n)
    show ?case
    proof (cases "n < 10")
      case True
      then show ?thesis using 1 by (simp add: show_nat.simps)
    next
      case False
      then obtain c' t' where "show_nat (n div 10) = c' # t'" by (metis neq_Nil_conv show_nat_nonempty)
      moreover have "show_nat (n div 10) = ''0'' \<Longrightarrow> False"
      proof -
        assume "show_nat (n div 10) = ''0''"
        then have "read_nat (show_nat (n div 10)) = read_nat ''0''" by simp
        then show False using False by (simp add: read_show_nat) (simp add: read_nat_def)
      qed
      ultimately show ?thesis using 1 False by (auto simp: show_nat.simps)
    qed
  qed
  have "is_digit c" "c \<noteq> CHR ''-''" using d s by (auto simp: is_digit_def)
  moreover have t: "takeWhile is_digit t = t" "dropWhile is_digit t = []"
    using d s by (simp_all add: list_all_iff)
  ultimately show ?thesis using z
    by (auto simp: num_ok_def jnumber_def num_int_def num_digits_def num_frac_def num_exp_def s t
        simp del: dropWhile_eq_Nil_conv takeWhile_eq_all_conv)
qed

lemma num_ok_Itoa: "num_ok (Itoa i)"
proof (cases "i < 0")
  case True
  have n: "num_ok (show_nat (nat (- i)))" by (rule num_ok_show_nat)
  then obtain c t where "show_nat (nat (- i)) = c # t" by (metis neq_Nil_conv show_nat_nonempty)
  moreover have "c \<noteq> CHR ''-''" using show_nat_digits[of "nat (- i)"] calculation by (auto simp: is_digit_def)
  ultimately show ?thesis using True n
    by (auto simp: Itoa_def num_ok_def jnumber_def split: option.splits)
next
  case False
  then show ?thesis by (simp add: Itoa_def num_ok_show_nat)
qed

text \<open>
  (C25) A problem document survives the wire: whatever the strings in it,
  parsing the body WriteProblem sends gives an object with exactly its
  members in order, the status as its decimal numeral, absent members only
  where the field was empty, and every string unchanged up to the
  replacement of bytes that are not UTF-8.
\<close>

theorem problem_document_roundtrip:
  "jparse (json_problem p @ [CHR 0x0A])
    = Some (JObj (map (\<lambda>(k, v). (k, coerce v)) (problem_members p)))"
proof -
  let ?v = "JObj (problem_members p)"
  have ok: "jok ?v" by (auto simp: problem_members_def str_member_def num_ok_Itoa)
  have "jdepth ?v = 1" by (simp add: problem_members_def str_member_def)
  then have "jvalue (2 * length (jprint ?v @ [CHR 0x0A]) + 1) max_nesting (jprint ?v @ [CHR 0x0A]) = Some (coerce ?v, [CHR 0x0A])"
    using ok jfuel_le[OF ok] by (intro jvalue_print) (auto simp: num_stop_def is_digit_def max_nesting_def)
  moreover have "coerce ?v = JObj (map (\<lambda>(k, v). (k, coerce v)) (problem_members p))"
    by (auto simp: problem_members_def str_member_def to_valid_ascii)
  ultimately show ?thesis by (simp add: json_problem_jprint jparse_def jfirst_def skip_ws_def json_ws_def)
qed

end
