(* ===== verification/Net.thy ===== *)
theory Net
  imports Json
begin

text \<open>
  The functions of \<^verbatim>\<open>net\<close> the gateway uses on client addresses:
  \<^verbatim>\<open>SplitHostPort\<close> and \<^verbatim>\<open>ParseIP\<close>.
\<close>

section \<open>Host and port\<close>

text \<open>The index of the last occurrence, or nothing.\<close>

definition last_index_byte :: "string \<Rightarrow> char \<Rightarrow> nat option" where
  "last_index_byte s c =
    (if c \<in> set s then Some (length s - 1 - length (takeWhile (\<lambda>x. x \<noteq> c) (rev s))) else None)"

definition has_byte :: "string \<Rightarrow> char \<Rightarrow> bool" where
  "has_byte s c \<longleftrightarrow> c \<in> set s"

definition SplitHostPort :: "string \<Rightarrow> (string \<times> string) option" where
  "SplitHostPort s =
    (case last_index_byte s (CHR '':'') of None \<Rightarrow> None
     | Some i \<Rightarrow>
        if hd s = CHR ''['' then
          (let end = index_byte s (CHR '']'') in
           if end < 0 then None
           else if nat end + 1 \<noteq> i then None
           else if has_byte (drop 1 s) (CHR ''['') then None
           else if has_byte (drop (nat end + 1) s) (CHR '']'') then None
           else Some (take (nat end - 1) (drop 1 s), drop (i + 1) s))
        else
          (let host = take i s in
           if has_byte host (CHR '':'') then None
           else if has_byte s (CHR ''['') then None
           else if has_byte s (CHR '']'') then None
           else Some (host, drop (i + 1) s)))"

section \<open>IP addresses\<close>

definition v4_octet :: "string \<Rightarrow> nat option" where
  "v4_octet s =
    (if s = [] \<or> \<not> list_all is_digit s \<or> (length s > 1 \<and> hd s = CHR ''0'') \<or> read_nat s > 255
     then None else Some (read_nat s))"

definition parse_v4 :: "string \<Rightarrow> nat list option" where
  "parse_v4 s =
    (let parts = split_byte (CHR ''.'') s in if length parts \<noteq> 4 then None else opt_all (map v4_octet parts))"

text \<open>A group: the leading hexadecimal digits, their value and the rest; more than four are refused.\<close>

definition hex_prefix :: "string \<Rightarrow> string" where
  "hex_prefix s = takeWhile (\<lambda>c. unhex c \<noteq> None) s"

definition hex_val :: "string \<Rightarrow> nat" where
  "hex_val s = foldl (\<lambda>n c. 16 * n + (case unhex c of None \<Rightarrow> 0 | Some d \<Rightarrow> d)) 0 s"

text \<open>The loop of the IPv6 parser: the bytes so far, the position of the ellipsis, the rest of the
  input; the result is the bytes, the ellipsis and what is left.\<close>

function v6_loop :: "nat list \<Rightarrow> nat option \<Rightarrow> string \<Rightarrow> (nat list \<times> nat option \<times> string) option" where
  "v6_loop ip el s =
    (if length ip \<ge> 16 then Some (ip, el, s) else
     let g = hex_prefix s; r = drop (length g) s in
     if g = [] \<or> length g > 4 then None else
     if r \<noteq> [] \<and> hd r = CHR ''.'' then
       (if (el = None \<and> length ip \<noteq> 12) \<or> length ip + 4 > 16 then None
        else case parse_v4 s of None \<Rightarrow> None | Some q \<Rightarrow> Some (ip @ q, el, []))
     else
       let ip1 = ip @ [hex_val g div 256, hex_val g mod 256] in
       if r = [] then Some (ip1, el, [])
       else if hd r \<noteq> CHR '':'' \<or> length r = 1 then None
       else let s1 = drop 1 r in
         if hd s1 = CHR '':'' then
           (if el \<noteq> None then None
            else if drop 1 s1 = [] then Some (ip1, Some (length ip1), [])
            else v6_loop ip1 (Some (length ip1)) (drop 1 s1))
         else v6_loop ip1 el s1)"
  by pat_completeness auto
termination
  by (relation "measure (\<lambda>(ip, el, s). 16 - length ip)") auto

definition parse_v6 :: "string \<Rightarrow> nat list option" where
  "parse_v6 s =
    (if has_byte s (CHR ''%'') then None else
     let (el, s1) = (if has_prefix s ''::'' then (Some 0, drop 2 s) else (None, s)) in
     if el \<noteq> None \<and> s1 = [] then Some (replicate 16 0) else
     case v6_loop [] el s1 of None \<Rightarrow> None
     | Some (ip, e, r) \<Rightarrow>
        if r \<noteq> [] then None
        else if length ip < 16 then
          (case e of None \<Rightarrow> None
           | Some k \<Rightarrow> Some (take k ip @ replicate (16 - length ip) 0 @ drop k ip))
        else if e \<noteq> None then None else Some ip)"

text \<open>The first of the three characters decides; the result has 16 bytes.\<close>

definition ParseIP :: "string \<Rightarrow> nat list option" where
  "ParseIP s =
    (case filter (\<lambda>c. c = CHR ''.'' \<or> c = CHR '':'' \<or> c = CHR ''%'') s of
       [] \<Rightarrow> None
     | c # _ \<Rightarrow>
        if c = CHR ''.'' then map_option (\<lambda>q. replicate 10 0 @ [255, 255] @ q) (parse_v4 s)
        else if c = CHR '':'' then parse_v6 s
        else None)"

section \<open>Lemmas\<close>

declare v6_loop.simps [simp del]

lemma last_index_append:
  assumes "c \<notin> set t"
  shows "last_index_byte (s @ c # t) c = Some (length s)"
proof -
  have "takeWhile (\<lambda>x. x \<noteq> c) (rev t @ c # rev s) = rev t"
    using assms by (subst takeWhile_append2) auto
  then show ?thesis by (simp add: last_index_byte_def)
qed

text \<open>A plain host and a bracketed one, each with a port, are taken apart.\<close>

lemma SplitHostPort_plain:
  assumes "set host \<inter> {CHR '':'', CHR ''['', CHR '']''} = {}" "set port \<inter> {CHR '':'', CHR ''['', CHR '']''} = {}"
  shows "SplitHostPort (host @ CHR '':'' # port) = Some (host, port)"
proof -
  have "last_index_byte (host @ CHR '':'' # port) (CHR '':'') = Some (length host)"
    using assms(2) by (intro last_index_append) auto
  moreover have "hd (host @ CHR '':'' # port) \<noteq> CHR ''[''" using assms(1) by (cases host) auto
  ultimately show ?thesis using assms by (auto simp: SplitHostPort_def has_byte_def Let_def)
qed

lemma SplitHostPort_brackets:
  assumes "set host \<inter> {CHR ''['', CHR '']''} = {}" "set port \<inter> {CHR '':'', CHR ''['', CHR '']''} = {}"
  shows "SplitHostPort (CHR ''['' # host @ CHR '']'' # CHR '':'' # port) = Some (host, port)"
proof -
  have "last_index_byte ((CHR ''['' # host @ [CHR '']'']) @ CHR '':'' # port) (CHR '':'') = Some (length (CHR ''['' # host @ [CHR '']'']))"
    using assms by (intro last_index_append) auto
  moreover have "index_byte ((CHR ''['' # host) @ CHR '']'' # CHR '':'' # port) (CHR '']'') = int (length (CHR ''['' # host))"
    using assms(1) by (intro index_byte_append) auto
  ultimately show ?thesis using assms by (auto simp: SplitHostPort_def has_byte_def Let_def nat_add_distrib)
qed

end
