(* ===== verification/AuditLog.thy ===== *)
theory AuditLog
  imports HttpMiddleware Net KeyStore
begin

text \<open>
  The audit trail (\<^verbatim>\<open>internal/audit/audit.go\<close>): one log line per entry and, unless
  disabled, one row of the \<^verbatim>\<open>audit_logs\<close> table of migration 0001.  Writing is
  best-effort: its failures are logged and nothing else.
\<close>

section \<open>Types\<close>

text \<open>\<open>au_Params\<close> is \<open>None\<close> for a nil slice.\<close>

record Entry =
  au_RequestID :: string
  au_WorkspaceID :: string
  au_KeyDBID :: string
  au_Endpoint :: string
  au_Command :: string
  au_SQL :: string
  au_Params :: "goval list option"
  au_DurationMS :: int
  au_StatusCode :: int
  au_ErrorCode :: string
  au_SQLState :: string
  au_ClientIP :: string

record Writer =
  wr_pool :: bool          \<comment> \<open>a pool is attached\<close>
  wr_disabled :: bool
  wr_includeSQL :: bool

definition NewWriter :: "bool \<Rightarrow> bool \<Rightarrow> bool \<Rightarrow> Writer" where
  "NewWriter pool disabled includeSQL = \<lparr> wr_pool = pool, wr_disabled = disabled, wr_includeSQL = includeSQL \<rparr>"

record audit_row =
  al_id :: string
  al_request_id :: string
  al_workspace_id :: "string option"
  al_key_id :: "string option"
  al_endpoint :: string
  al_command :: string
  al_sql_hash :: string
  al_params_hash :: string
  al_sql_text :: "string option"
  al_params_json :: "bytes option"
  al_duration_ms :: int
  al_status_code :: int
  al_error_code :: string
  al_sqlstate :: string
  al_client_ip :: "nat list option"

section \<open>Writing\<close>

definition hashOrEmpty :: "string \<Rightarrow> string" where
  "hashOrEmpty s = (if s = [] then [] else hex_encode (sha256 s))"

text \<open>Marshalling decoded JSON values does not fail.\<close>

definition paramsHash :: "(real \<Rightarrow> string) \<Rightarrow> goval list option \<Rightarrow> string" where
  "paramsHash ff params =
    (case params of None \<Rightarrow> []
     | Some ps \<Rightarrow> if ps = [] then [] else hex_encode (sha256 (marshal_any ff (GList ps))))"

text \<open>A text that does not parse as a UUID, or is empty, is stored as NULL.\<close>

definition parse_or_null :: "(string \<Rightarrow> string result) \<Rightarrow> string \<Rightarrow> string option" where
  "parse_or_null uuid_parse s =
    (if s = [] then None else case uuid_parse s of Inl e \<Rightarrow> None | Inr u \<Rightarrow> Some u)"

definition audit_row_of ::
  "(string \<Rightarrow> string result) \<Rightarrow> (real \<Rightarrow> string) \<Rightarrow> Writer \<Rightarrow> string \<Rightarrow> Entry \<Rightarrow> audit_row" where
  "audit_row_of uuid_parse ff w i e =
    \<lparr> al_id = i, al_request_id = au_RequestID e,
      al_workspace_id = parse_or_null uuid_parse (au_WorkspaceID e),
      al_key_id = parse_or_null uuid_parse (au_KeyDBID e),
      al_endpoint = au_Endpoint e, al_command = au_Command e,
      al_sql_hash = hashOrEmpty (au_SQL e), al_params_hash = paramsHash ff (au_Params e),
      al_sql_text = (if wr_includeSQL w then Some (au_SQL e) else None),
      al_params_json = (if wr_includeSQL w then map_option (\<lambda>ps. marshal_any ff (GList ps)) (au_Params e) else None),
      al_duration_ms = au_DurationMS e, al_status_code = au_StatusCode e,
      al_error_code = au_ErrorCode e, al_sqlstate = au_SQLState e,
      al_client_ip = (if au_ClientIP e = [] then None else ParseIP (au_ClientIP e)) \<rparr>"

text \<open>The table's primary key and its two foreign keys.\<close>

definition insert_audit :: "key_db \<Rightarrow> audit_row \<Rightarrow> audit_row list \<Rightarrow> audit_row list result" where
  "insert_audit kd r rows =
    (if al_id r \<in> set (map al_id rows) then pg_fail ''23505'' ''duplicate key'' else
     if (case al_workspace_id r of None \<Rightarrow> False | Some w \<Rightarrow> w \<notin> set (kd_workspaces kd)) then pg_fail ''23503'' ''foreign key'' else
     if (case al_key_id r of None \<Rightarrow> False | Some k \<Rightarrow> k \<notin> set (map ak_id (kd_api_keys kd))) then pg_fail ''23503'' ''foreign key'' else
     Inr (rows @ [r]))"

definition request_line :: "Entry \<Rightarrow> log_line" where
  "request_line e = LogRequest (au_RequestID e) (au_WorkspaceID e) (au_KeyDBID e) (au_Endpoint e) (au_Command e)
     (au_DurationMS e) (au_StatusCode e) (au_ErrorCode e) (au_SQLState e) (au_ClientIP e)"

text \<open>The rows and the log lines of one call; \<open>i\<close> is the fresh UUID.\<close>

definition audit_Write ::
  "(string \<Rightarrow> string result) \<Rightarrow> (real \<Rightarrow> string) \<Rightarrow> pg_env \<Rightarrow> string \<Rightarrow> Writer \<Rightarrow> key_db \<Rightarrow> Entry
    \<Rightarrow> audit_row list \<Rightarrow> audit_row list \<times> log_line list" where
  "audit_Write uuid_parse ff env i w kd e rows =
    (if wr_disabled w \<or> \<not> wr_pool w then (rows, [request_line e])
     else case pool_exec env 0 (insert_audit kd (audit_row_of uuid_parse ff w i e)) rows of
       (None, rows') \<Rightarrow> (rows', [request_line e])
     | (Some err, rows') \<Rightarrow> (rows', [request_line e, LogWarn ''audit write failed'' err (au_RequestID e)]))"

section \<open>Properties\<close>


definition sample_entry :: Entry where
  "sample_entry = \<lparr> au_RequestID = ''r1'', au_WorkspaceID = ''w'', au_KeyDBID = ''k'', au_Endpoint = ''POST /v1/sql/execute'',
     au_Command = ''SELECT'', au_SQL = ''SELECT 1'', au_Params = None, au_DurationMS = 3, au_StatusCode = 200,
     au_ErrorCode = [], au_SQLState = [], au_ClientIP = ''10.0.0.1'' \<rparr>"


end
