(* ===== verification/Tenant.thy ===== *)
theory Tenant
  imports Pg
begin

text \<open>
  Per-request database session setup (\<^verbatim>\<open>internal/tenant/tenant.go\<close>): the statements
  that give a transaction its timeouts, workspace, role and search path.

  A transaction is modelled by the statements it has run so far, texts with
  their arguments; the n-th statement may fail (\<open>pg_stmt\<close>).
\<close>

datatype 'v arg = StrArg string | AnyArg 'v

type_synonym 'v stmt_log = "(string \<times> 'v arg list) list"

section \<open>Setup\<close>

definition tenant_exec ::
  "pg_env \<Rightarrow> string \<Rightarrow> 'v arg list \<Rightarrow> 'v stmt_log \<Rightarrow> 'v stmt_log result" where
  "tenant_exec env sql args log =
    (case pg_stmt env (length log) of Some e \<Rightarrow> Inl e | None \<Rightarrow> Inr (log @ [(sql, args)]))"

definition safe_role_rune :: "nat \<Rightarrow> bool" where
  "safe_role_rune r \<longleftrightarrow> 97 \<le> r \<and> r \<le> 122 \<or> 48 \<le> r \<and> r \<le> 57 \<or> r = 95"

definition isSafeRoleName :: "string \<Rightarrow> bool" where
  "isSafeRoleName s = (if s = [] \<or> length s > 63 then False else list_all safe_role_rune (runes s))"

text \<open>\<^verbatim>\<open>Duration.Milliseconds\<close>: nanoseconds, truncated towards zero.\<close>

definition Milliseconds :: "duration \<Rightarrow> int" where
  "Milliseconds d = (if d < 0 then - ((- d) div 1000000) else d div 1000000)"

definition timeout_stmt :: "string \<Rightarrow> duration \<Rightarrow> string" where
  "timeout_stmt name d = ''SET LOCAL '' @ name @ '' = '' @ [CHR 0x27] @ Itoa (Milliseconds d) @ ''ms'' @ [CHR 0x27]"

definition workspace_stmt :: string where
  "workspace_stmt = ''SELECT set_config('' @ [CHR 0x27] @ ''app.workspace_id'' @ [CHR 0x27] @ '', $1, true)''"

definition role_stmt :: "string \<Rightarrow> string" where
  "role_stmt pgRole = ''SET LOCAL ROLE '' @ [CHR 0x22] @ pgRole @ [CHR 0x22]"

definition search_path_stmt :: string where
  "search_path_stmt = ''SET LOCAL search_path TO public''"

definition Setup ::
  "pg_env \<Rightarrow> string \<Rightarrow> string \<Rightarrow> duration \<Rightarrow> duration \<Rightarrow> 'v stmt_log \<Rightarrow> 'v stmt_log result" where
  "Setup env workspaceID pgRole stmtTimeout idleTimeout log0 =
    (if workspaceID = [] then Inl (Opaque ''tenant.Setup: empty workspace_id'') else
     if pgRole = [] then Inl (Opaque ''tenant.Setup: empty pg_role'') else
     case tenant_exec env (timeout_stmt ''statement_timeout'' stmtTimeout) [] log0 of
       Inl e \<Rightarrow> Inl (Errorf ''set statement_timeout: '' e '''') | Inr log1 \<Rightarrow>
     case tenant_exec env (timeout_stmt ''idle_in_transaction_session_timeout'' idleTimeout) [] log1 of
       Inl e \<Rightarrow> Inl (Errorf ''set idle_in_transaction_session_timeout: '' e '''') | Inr log2 \<Rightarrow>
     case tenant_exec env workspace_stmt [StrArg workspaceID] log2 of
       Inl e \<Rightarrow> Inl (Errorf ''set app.workspace_id: '' e '''') | Inr log3 \<Rightarrow>
     if \<not> isSafeRoleName pgRole then Inl (Opaque (''unsafe pg_role identifier: '' @ go_quote pgRole)) else
     case tenant_exec env (role_stmt pgRole) [] log3 of
       Inl e \<Rightarrow> Inl (Errorf ''set local role: '' e '''') | Inr log4 \<Rightarrow>
     case tenant_exec env search_path_stmt [] log4 of
       Inl e \<Rightarrow> Inl (Errorf ''set search_path: '' e '''') | Inr log5 \<Rightarrow>
     Inr log5)"

section \<open>What the session statements mean\<close>

text \<open>How Postgres reads a quoted identifier, from behind the opening quote: a
  doubled quote stands for one, a single quote ends it.  The result is the
  identifier and the rest of the statement.\<close>

fun quoted_ident :: "string \<Rightarrow> (string \<times> string) option" where
  "quoted_ident [] = None"
| "quoted_ident [c] = (if c = CHR 0x22 then Some ([], []) else None)"
| "quoted_ident (c # d # cs) =
    (if c = CHR 0x22 \<and> d = CHR 0x22 then map_option (\<lambda>(i, r). (c # i, r)) (quoted_ident cs)
     else if c = CHR 0x22 then Some ([], d # cs)
     else map_option (\<lambda>(i, r). (c # i, r)) (quoted_ident (d # cs)))"

text \<open>The session settings a transaction's statements leave in force.\<close>

record session =
  se_role :: "string option"
  se_workspace :: "string option"
  se_public_only :: bool

definition session_step :: "session \<Rightarrow> string \<times> 'v arg list \<Rightarrow> session" where
  "session_step s st =
    (case st of (sql, args) \<Rightarrow>
      if sql = workspace_stmt then (case args of [StrArg w] \<Rightarrow> s\<lparr>se_workspace := Some w\<rparr> | _ \<Rightarrow> s)
      else if sql = search_path_stmt then s\<lparr>se_public_only := True\<rparr>
      else if has_prefix sql (''SET LOCAL ROLE '' @ [CHR 0x22]) then
        (case quoted_ident (drop 16 sql) of Some (i, []) \<Rightarrow> s\<lparr>se_role := Some i\<rparr> | _ \<Rightarrow> s)
      else s)"

definition session_of :: "'v stmt_log \<Rightarrow> session" where
  "session_of log = foldl session_step \<lparr> se_role = None, se_workspace = None, se_public_only = False \<rparr> log"

section \<open>Lemmas\<close>

lemma isSafeRoleName_iff:
  "isSafeRoleName s \<longleftrightarrow> s \<noteq> [] \<and> length s \<le> 63 \<and> list_all (\<lambda>c. safe_role_rune (of_char c)) s"
proof -
  have "r < 128" if "safe_role_rune r" for r using that by (auto simp: safe_role_rune_def)
  then show ?thesis unfolding isSafeRoleName_def using runes_ascii_iff[of safe_role_rune s] by auto
qed

lemma quoted_ident_plain:
  "CHR 0x22 \<notin> set s \<Longrightarrow> quoted_ident (s @ [CHR 0x22]) = Some (s, [])"
proof (induction s)
  case (Cons c s)
  then show ?case by (cases s) auto
qed simp

lemma tenant_exec_ok [ok_iff]:
  "tenant_exec env sql args log = Inr log' \<longleftrightarrow> pg_stmt env (length log) = None \<and> log' = log @ [(sql, args)]"
  by (auto simp: tenant_exec_def split: option.splits)

lemma Setup_ok:
  "Setup env w role st idl [] = Inr log \<longleftrightarrow>
    w \<noteq> [] \<and> isSafeRoleName role \<and> (\<forall>n<5. pg_stmt env n = None)
    \<and> log = [(timeout_stmt ''statement_timeout'' st, []),
             (timeout_stmt ''idle_in_transaction_session_timeout'' idl, []),
             (workspace_stmt, [StrArg w]), (role_stmt role, []), (search_path_stmt, [])]"
proof -
  have five: "(\<forall>n<5. P n) \<longleftrightarrow> P 0 \<and> P 1 \<and> P 2 \<and> P 3 \<and> P (4::nat)" for P
    by (auto simp: eval_nat_numeral less_Suc_eq)
  have "isSafeRoleName role \<Longrightarrow> role \<noteq> []" by (auto simp: isSafeRoleName_def)
  then show ?thesis
    unfolding Setup_def five if_Inl_eq_Inr case_sum_eq_Inr tenant_exec_ok by (auto simp: eval_nat_numeral)
qed

lemma session_of_setup:
  assumes "isSafeRoleName role"
  shows "session_of [(timeout_stmt ''statement_timeout'' st, []),
             (timeout_stmt ''idle_in_transaction_session_timeout'' idl, []),
             (workspace_stmt, [StrArg w]), (role_stmt role, []), (search_path_stmt, [])]
    = \<lparr> se_role = Some role, se_workspace = Some w, se_public_only = True \<rparr>"
proof -
  have "CHR 0x22 \<notin> set role"
    using assms by (auto simp: isSafeRoleName_iff list_all_iff safe_role_rune_def)
  then have "quoted_ident (drop 16 (role_stmt role)) = Some (role, [])"
    by (simp add: role_stmt_def quoted_ident_plain)
  then show ?thesis
    by (simp add: session_of_def session_step_def timeout_stmt_def workspace_stmt_def role_stmt_def
        search_path_stmt_def has_prefix_def)
qed

section \<open>Properties\<close>



end
