(* ===== verification/Idempotency.thy ===== *)
theory Idempotency
  imports Pg Sha256
begin

text \<open>
  The idempotency store (\<^verbatim>\<open>internal/rpc/idempotency.go\<close>) over the table of migration
  0002: claiming a key or replaying its stored response, completing it, and
  purging expired rows.

  \<open>uuid_parse\<close> stands for \<^verbatim>\<open>uuid.Parse\<close>, \<open>pg_interval\<close> for what Postgres makes of
  \<^verbatim>\<open>ttl.String()\<close>, and \<open>gz\<close>, \<open>gunz\<close> for \<^verbatim>\<open>compress/gzip\<close>.
\<close>

section \<open>Table\<close>

datatype IdempotencyState = StatePending | StateDone | StateFailed

record idem_row =
  ir_id :: string
  ir_workspace_id :: string
  ir_key :: string
  ir_request_hash :: string
  ir_state :: IdempotencyState
  ir_status_code :: "int option"
  ir_response_body :: bytes           \<comment> \<open>NULL scans as the empty slice\<close>
  ir_created_at :: instant
  ir_completed_at :: "instant option"
  ir_expires_at :: instant

record idem_db =
  id_workspaces :: "string list"
  id_rows :: "idem_row list"

definition matches :: "string \<Rightarrow> string \<Rightarrow> idem_row \<Rightarrow> bool" where
  "matches ws key r \<longleftrightarrow> ir_workspace_id r = ws \<and> ir_key r = key"

record IdempotencyResult =
  id_Replay :: bool
  id_StatusCode :: int
  id_Body :: bytes

section \<open>Request hash\<close>

definition hash_input :: "string \<Rightarrow> string \<Rightarrow> bytes \<Rightarrow> bytes" where
  "hash_input meth path body = meth @ [CHR 0x00] @ path @ [CHR 0x00] @ body"

definition HashRequest :: "string \<Rightarrow> string \<Rightarrow> bytes \<Rightarrow> string" where
  "HashRequest meth path body = hex_encode (sha256 (hash_input meth path body))"

section \<open>Operations\<close>

text \<open>\<^verbatim>\<open>INSERT ... ON CONFLICT (workspace_id, key) DO NOTHING\<close>: the number of rows
  affected and the table; the workspace is a foreign key and the id a primary key.\<close>

definition insert_pending :: "idem_row \<Rightarrow> idem_db \<Rightarrow> (nat \<times> idem_db) result" where
  "insert_pending r db =
    (if \<exists>x\<in>set (id_rows db). matches (ir_workspace_id r) (ir_key r) x then Inr (0, db) else
     if ir_id r \<in> set (map ir_id (id_rows db)) then Inl (PgErr \<lparr>Code = ''23505'', Message = ''duplicate key''\<rparr>) else
     if ir_workspace_id r \<notin> set (id_workspaces db) then Inl (PgErr \<lparr>Code = ''23503'', Message = ''foreign key''\<rparr>) else
     Inr (1, db\<lparr>id_rows := id_rows db @ [r]\<rparr>))"

definition delete_rows :: "(idem_row \<Rightarrow> bool) \<Rightarrow> idem_db \<Rightarrow> idem_db" where
  "delete_rows p db = db\<lparr>id_rows := filter (\<lambda>r. \<not> p r) (id_rows db)\<rparr>"

text \<open>Compression: an empty stored body decodes to nothing without being read.\<close>

definition gunzip :: "(bytes \<Rightarrow> bytes result) \<Rightarrow> bytes \<Rightarrow> bytes result" where
  "gunzip gunz p = (if p = [] then Inr [] else gunz p)"

text \<open>What one pass through \<^verbatim>\<open>BeginOrReplay\<close> draws from outside.\<close>

record idem_env =
  ie_pg :: pg_env
  ie_uuid :: string
  ie_clock :: instant     \<comment> \<open>\<open>time.Now()\<close> at the expiry check\<close>

text \<open>One pass either answers or has removed a stale row and starts over.\<close>

datatype pass = Answer "IdempotencyResult result" | StartOver

record codec =
  cd_uuid :: "string \<Rightarrow> string result"
  cd_interval :: "duration \<Rightarrow> duration result"
  cd_gz :: "bytes \<Rightarrow> bytes result"
  cd_gunz :: "bytes \<Rightarrow> bytes result"

text \<open>The end of the transaction on each path; \<open>keep\<close> is what a commit makes permanent.\<close>

definition commit_then :: "pg_env \<Rightarrow> idem_db \<Rightarrow> idem_db \<Rightarrow> pass \<Rightarrow> pass \<times> idem_db" where
  "commit_then env old keep x =
    (case pg_commit env of None \<Rightarrow> (x, keep)
     | Some e \<Rightarrow> (Answer (Inl e), if pg_landed env then keep else old))"

definition replay_row :: "codec \<Rightarrow> idem_row \<Rightarrow> IdempotencyResult result" where
  "replay_row cd r =
    (case gunzip (cd_gunz cd) (ir_response_body r) of Inl e \<Rightarrow> Inl e
     | Inr decoded \<Rightarrow> Inr \<lparr> id_Replay = True,
         id_StatusCode = (case ir_status_code r of None \<Rightarrow> 200 | Some st \<Rightarrow> st), id_Body = decoded \<rparr>)"

text \<open>The decision on an existing row, after it has been read.\<close>

definition on_existing ::
  "codec \<Rightarrow> idem_env \<Rightarrow> string \<Rightarrow> string \<Rightarrow> string \<Rightarrow> idem_row \<Rightarrow> idem_db \<Rightarrow> pass \<times> idem_db" where
  "on_existing cd ie wsID key requestHash r db =
    (let env = ie_pg ie in
     if ir_expires_at r < ie_clock ie then
       (case pg_stmt env 2 of Some e \<Rightarrow> (Answer (Inl e), db)
        | None \<Rightarrow> commit_then env db (delete_rows (matches wsID key) db) StartOver)
     else if ir_request_hash r \<noteq> requestHash then (Answer (Inl (Sentinel ErrIdempotencyConflict)), db)
     else if ir_state r = StatePending then
       (Answer (Inl (Opaque ''idempotency_key request still in progress'')), db)
     else commit_then env db db (Answer (replay_row cd r)))"

definition begin_pass ::
  "codec \<Rightarrow> idem_env \<Rightarrow> string \<Rightarrow> string \<Rightarrow> string \<Rightarrow> duration \<Rightarrow> idem_db \<Rightarrow> pass \<times> idem_db" where
  "begin_pass cd ie workspaceID key requestHash ttl db =
    (let env = ie_pg ie in
     if key = [] then (Answer (Inl (Opaque ''BeginOrReplay: empty key'')), db) else
     case cd_uuid cd workspaceID of Inl e \<Rightarrow> (Answer (Inl (Errorf ''workspace_id: '' e '''')), db) | Inr wsID \<Rightarrow>
     case pg_begin env of Some e \<Rightarrow> (Answer (Inl e), db) | None \<Rightarrow>
     case pg_stmt env 0 of Some e \<Rightarrow> (Answer (Inl e), db) | None \<Rightarrow>
     case cd_interval cd ttl of Inl e \<Rightarrow> (Answer (Inl e), db) | Inr dt \<Rightarrow>
     case insert_pending \<lparr> ir_id = ie_uuid ie, ir_workspace_id = wsID, ir_key = key,
            ir_request_hash = requestHash, ir_state = StatePending, ir_status_code = None,
            ir_response_body = [], ir_created_at = pg_now env, ir_completed_at = None,
            ir_expires_at = pg_now env + dt \<rparr> db of Inl e \<Rightarrow> (Answer (Inl e), db)
     | Inr (cnt, db1) \<Rightarrow>
     if cnt = 1 then
       commit_then env db db1 (Answer (Inr \<lparr> id_Replay = False, id_StatusCode = 0, id_Body = [] \<rparr>))
     else
     case query_row env 1 (filter (matches wsID key) (id_rows db)) of
       Inl e \<Rightarrow> (Answer (Inl e), db)
     | Inr r \<Rightarrow> on_existing cd ie wsID key requestHash r db)"

lemma begin_pass_StartOver:
  assumes "begin_pass cd ie ws key h ttl db = (StartOver, db')"
  obtains wsID r where "cd_uuid cd ws = Inr wsID" "r \<in> set (id_rows db)" "matches wsID key r"
    "ir_expires_at r < ie_clock ie" "db' = delete_rows (matches wsID key) db"
proof -
  from assms obtain wsID where w: "cd_uuid cd ws = Inr wsID"
    by (auto simp: begin_pass_def Let_def split: if_splits sum.splits)
  let ?rows = "filter (matches wsID key) (id_rows db)"
  from assms w have "?rows \<noteq> []" and o: "on_existing cd ie wsID key h (hd ?rows) db = (StartOver, db')"
    by (auto simp: begin_pass_def commit_then_def Let_def ok_iff
        split: if_splits sum.splits option.splits)
  from o have "ir_expires_at (hd ?rows) < ie_clock ie" "db' = delete_rows (matches wsID key) db"
    by (auto simp: on_existing_def commit_then_def Let_def split: if_splits option.splits)
  with w hd_in_set[OF \<open>?rows \<noteq> []\<close>] that show thesis by auto
qed

text \<open>The recursion of \<^verbatim>\<open>BeginOrReplay\<close>; \<open>P n\<close> is what the n-th pass draws from outside.
  It ends because a pass that starts over has removed the only matching row.\<close>

function BeginOrReplay ::
  "codec \<Rightarrow> (nat \<Rightarrow> idem_env) \<Rightarrow> nat \<Rightarrow> string \<Rightarrow> string \<Rightarrow> string \<Rightarrow> duration \<Rightarrow> idem_db
    \<Rightarrow> IdempotencyResult result \<times> idem_db" where
  "BeginOrReplay cd P n workspaceID key requestHash ttl db =
    (case begin_pass cd (P n) workspaceID key requestHash ttl db of
       (Answer r, db') \<Rightarrow> (r, db')
     | (StartOver, db') \<Rightarrow> BeginOrReplay cd P (Suc n) workspaceID key requestHash ttl db')"
  by pat_completeness auto
termination
proof (relation "measure (\<lambda>(cd, P, n, ws, key, h, ttl, db).
    case cd_uuid cd ws of Inl e \<Rightarrow> 0 | Inr w \<Rightarrow> length (filter (matches w key) (id_rows db)))", goal_cases)
  case (2 cd P n ws key h ttl db x db')
  then have "begin_pass cd (P n) ws key h ttl db = (StartOver, db')" by simp
  then obtain w r where "cd_uuid cd ws = Inr w" "r \<in> set (id_rows db)" "matches w key r"
    "db' = delete_rows (matches w key) db" by (rule begin_pass_StartOver)
  then have "filter (matches w key) (id_rows db') = []" "r \<in> set (filter (matches w key) (id_rows db))"
    by (auto simp: delete_rows_def filter_empty_conv)
  then have "length (filter (matches w key) (id_rows db')) < length (filter (matches w key) (id_rows db))"
    by (metis length_pos_if_in_set list.size(3))
  with \<open>cd_uuid cd ws = Inr w\<close> show ?case by simp
qed simp

declare BeginOrReplay.simps [simp del]

definition Complete ::
  "codec \<Rightarrow> pg_env \<Rightarrow> string \<Rightarrow> string \<Rightarrow> int \<Rightarrow> bytes \<Rightarrow> bool \<Rightarrow> idem_db \<Rightarrow> go_error option \<times> idem_db" where
  "Complete cd env workspaceID key st body good db =
    (case cd_uuid cd workspaceID of Inl e \<Rightarrow> (Some e, db) | Inr wsID \<Rightarrow>
     let state = (if \<not> good then StateFailed else StateDone) in
     case cd_gz cd body of Inl e \<Rightarrow> (Some e, db) | Inr g \<Rightarrow>
     pool_exec env 0 (\<lambda>d. Inr (d\<lparr>id_rows := upd_rows (matches wsID key)
       (\<lambda>r. r\<lparr>ir_state := state, ir_status_code := Some st, ir_response_body := g,
              ir_completed_at := Some (pg_now env)\<rparr>) (id_rows d)\<rparr>)) db)"

definition PurgeExpired :: "pg_env \<Rightarrow> idem_db \<Rightarrow> nat result \<times> idem_db" where
  "PurgeExpired env db =
    (let db' = delete_rows (\<lambda>r. ir_expires_at r < pg_now env) db in
     case pg_stmt env 0 of
       Some e \<Rightarrow> (Inl e, if pg_landed env then db' else db)
     | None \<Rightarrow> (Inr (length (id_rows db) - length (id_rows db')), db'))"

section \<open>Runs\<close>

datatype idem_op =
    IBegin "nat \<Rightarrow> idem_env" string string string duration
  | IComplete pg_env string string int bytes bool
  | IPurge pg_env

fun idem_step :: "codec \<Rightarrow> idem_db \<Rightarrow> idem_op \<Rightarrow> idem_db" where
  "idem_step cd db (IBegin P ws key h ttl) = snd (BeginOrReplay cd P 0 ws key h ttl db)"
| "idem_step cd db (IComplete env ws key st body good) = snd (Complete cd env ws key st body good db)"
| "idem_step cd db (IPurge env) = snd (PurgeExpired env db)"

text \<open>Every clock an operation reads is at most \<open>T\<close>.\<close>

fun op_before :: "instant \<Rightarrow> idem_op \<Rightarrow> bool" where
  "op_before T (IBegin P ws key h ttl) \<longleftrightarrow> (\<forall>n. ie_clock (P n) \<le> T)"
| "op_before T (IComplete env ws key st body good) \<longleftrightarrow> True"
| "op_before T (IPurge env) \<longleftrightarrow> pg_now env \<le> T"

definition wf_idem :: "idem_db \<Rightarrow> bool" where
  "wf_idem db \<longleftrightarrow> distinct (map (\<lambda>r. (ir_workspace_id r, ir_key r)) (id_rows db))"

text \<open>The key is taken by a row with the property \<open>Q\<close> that is live until \<open>T\<close>.\<close>

definition held :: "instant \<Rightarrow> string \<Rightarrow> string \<Rightarrow> (idem_row \<Rightarrow> bool) \<Rightarrow> idem_db \<Rightarrow> bool" where
  "held T w key Q db \<longleftrightarrow> (\<exists>r\<in>set (id_rows db). matches w key r \<and> T \<le> ir_expires_at r \<and> Q r)"

text \<open>The operation completes this key.\<close>

fun completes :: "codec \<Rightarrow> string \<Rightarrow> string \<Rightarrow> idem_op \<Rightarrow> bool" where
  "completes cd w key (IComplete env ws key' st body good) \<longleftrightarrow> cd_uuid cd ws = Inr w \<and> key' = key"
| "completes cd w key x \<longleftrightarrow> False"

lemma wf_idem_unique:
  assumes "wf_idem db" "r \<in> set (id_rows db)" "r' \<in> set (id_rows db)" "matches w key r" "matches w key r'"
  shows "r' = r"
  using assms by (auto simp: wf_idem_def matches_def distinct_map inj_on_def)

lemma wf_idem_filter: "wf_idem db \<Longrightarrow> wf_idem (db\<lparr>id_rows := filter p (id_rows db)\<rparr>)"
  by (simp add: wf_idem_def distinct_map_filter)

lemma wf_delete [simp]: "wf_idem db \<Longrightarrow> wf_idem (delete_rows p db)"
  by (simp add: delete_rows_def wf_idem_filter)

lemma insert_pending_ok:
  "insert_pending r db = Inr (n, db') \<Longrightarrow>
    n = 0 \<and> db' = db \<or>
    n = 1 \<and> db' = db\<lparr>id_rows := id_rows db @ [r]\<rparr> \<and> (\<forall>x\<in>set (id_rows db). \<not> matches (ir_workspace_id r) (ir_key r) x)"
  by (auto simp: insert_pending_def split: if_splits)

text \<open>What one pass can do: nothing, grant the key on a new row, or remove a stale one.\<close>

lemma begin_pass_cases:
  assumes "begin_pass cd ie ws key h ttl db = (x, db')"
  shows "db' = db \<and> (\<forall>r. x = Answer (Inr r) \<longrightarrow> id_Replay r)
    \<or> (\<exists>w dt r. cd_uuid cd ws = Inr w \<and> cd_interval cd ttl = Inr dt \<and> matches w key r
        \<and> (\<forall>y\<in>set (id_rows db). \<not> matches w key y)
        \<and> ir_expires_at r = pg_now (ie_pg ie) + dt \<and> ir_request_hash r = h
        \<and> (db' = db \<and> (\<forall>z. x \<noteq> Answer (Inr z)) \<or> db' = db\<lparr>id_rows := id_rows db @ [r]\<rparr>) \<and> x \<noteq> StartOver)
    \<or> (\<exists>w r. cd_uuid cd ws = Inr w \<and> r \<in> set (id_rows db) \<and> matches w key r \<and> ir_expires_at r < ie_clock ie
        \<and> (db' = db \<or> db' = delete_rows (matches w key) db) \<and> (\<forall>z. x \<noteq> Answer (Inr z)))"
proof (cases "cd_uuid cd ws")
  case (Inr w)
  let ?env = "ie_pg ie" and ?rows = "filter (matches w key) (id_rows db)"
  let ?new = "\<lambda>dt. \<lparr> ir_id = ie_uuid ie, ir_workspace_id = w, ir_key = key,
            ir_request_hash = h, ir_state = StatePending, ir_status_code = None,
            ir_response_body = [], ir_created_at = pg_now ?env, ir_completed_at = None,
            ir_expires_at = pg_now ?env + dt \<rparr>"
  consider "db' = db" "\<forall>r. x \<noteq> Answer (Inr r)"
    | dt db1 where "cd_interval cd ttl = Inr dt" "insert_pending (?new dt) db = Inr (1, db1)"
        "commit_then ?env db db1 (Answer (Inr \<lparr>id_Replay = False, id_StatusCode = 0, id_Body = []\<rparr>)) = (x, db')"
    | "?rows \<noteq> []" "on_existing cd ie w key h (hd ?rows) db = (x, db')"
    using assms Inr
    by (auto simp: begin_pass_def Let_def query_row_def split: if_splits sum.splits option.splits list.splits
        dest: insert_pending_ok)
  then show ?thesis
  proof cases
    case 2
    have "db1 = db\<lparr>id_rows := id_rows db @ [?new dt]\<rparr>" "\<forall>y\<in>set (id_rows db). \<not> matches w key y"
      using insert_pending_ok[OF 2(2)] by simp_all
    with 2(1,3) Inr show ?thesis
      by (intro disjI2 disjI1 exI[of _ w] exI[of _ dt] exI[of _ "?new dt"])
        (auto simp: commit_then_def matches_def split: option.splits if_splits)
  next
    case 3
    have m: "hd ?rows \<in> set (id_rows db)" "matches w key (hd ?rows)" using hd_in_set[OF 3(1)] by auto
    show ?thesis
    proof (cases "ir_expires_at (hd ?rows) < ie_clock ie")
      case True
      then show ?thesis using 3(2) m Inr
        by (intro disjI2 exI[of _ w] exI[of _ "hd ?rows"])
          (auto simp: on_existing_def commit_then_def Let_def split: option.splits if_splits)
    next
      case False
      then have "db' = db \<and> (\<forall>r. x = Answer (Inr r) \<longrightarrow> id_Replay r)" using 3(2)
        by (auto simp: on_existing_def commit_then_def replay_row_def Let_def
            split: option.splits if_splits sum.splits)
      then show ?thesis by blast
    qed
  qed simp
qed (use assms in \<open>auto simp: begin_pass_def Let_def split: if_splits\<close>)

lemma BeginOrReplay_pass:
  "begin_pass cd (P n) ws key h ttl db = (Answer r, db') \<Longrightarrow> BeginOrReplay cd P n ws key h ttl db = (r, db')"
  "begin_pass cd (P n) ws key h ttl db = (StartOver, db') \<Longrightarrow>
    BeginOrReplay cd P n ws key h ttl db = BeginOrReplay cd P (Suc n) ws key h ttl db'"
  by (subst BeginOrReplay.simps; simp)+

lemma begin_pass_wf:
  "begin_pass cd ie ws key h ttl db = (x, db') \<Longrightarrow> wf_idem db \<Longrightarrow> wf_idem db'"
  by (drule begin_pass_cases) (auto simp: wf_idem_def matches_def delete_rows_def distinct_map_filter, blast)

lemma Begin_wf:
  "wf_idem db \<Longrightarrow> wf_idem (snd (BeginOrReplay cd P n ws key h ttl db))"
proof (induction cd P n ws key h ttl db rule: BeginOrReplay.induct)
  case (1 cd P n ws key h ttl db)
  obtain x db' where b: "begin_pass cd (P n) ws key h ttl db = (x, db')" by fastforce
  have wf: "wf_idem db'" using begin_pass_wf[OF b 1(2)] .
  show ?case
  proof (cases x)
    case (Answer r)
    with b wf show ?thesis by (simp add: BeginOrReplay_pass(1))
  next
    case StartOver
    with b 1(1)[OF b[symmetric] StartOver wf] show ?thesis by (simp add: BeginOrReplay_pass(2))
  qed
qed

lemma step_wf_idem:
  assumes "wf_idem db"
  shows "wf_idem (idem_step cd db x)"
proof (cases x)
  case (IComplete env ws key st body good)
  have "wf_idem (snd (pool_exec env 0 (\<lambda>d. Inr (d\<lparr>id_rows := upd_rows (matches w key)
       (\<lambda>r. r\<lparr>ir_state := s, ir_status_code := c, ir_response_body := g, ir_completed_at := t\<rparr>) (id_rows d)\<rparr>)) db))" for w s c g t
    using assms by (intro pool_exec_inv[where P = wf_idem]) (auto simp: wf_idem_def map_upd_rows)
  then show ?thesis using assms by (auto simp: IComplete Complete_def Let_def split: sum.split)
qed (use assms in \<open>auto simp: Begin_wf PurgeExpired_def Let_def split: option.split\<close>)

text \<open>While the key is held, no call grants it again and none removes the row.\<close>

lemma held_pass:
  assumes "wf_idem db" "held T w key Q db" "ie_clock ie \<le> T"
    and "begin_pass cd ie ws' key' h' ttl db = (x, db')"
  shows "held T w key Q db'"
    and "cd_uuid cd ws' = Inr w \<Longrightarrow> key' = key \<Longrightarrow> x \<noteq> StartOver \<and> (\<forall>r. x = Answer (Inr r) \<longrightarrow> id_Replay r)"
proof -
  from assms(2) obtain r0 where r0: "r0 \<in> set (id_rows db)" "matches w key r0" "T \<le> ir_expires_at r0" "Q r0"
    by (auto simp: held_def)
  have stale: "w' \<noteq> w \<or> key' \<noteq> key" if "r \<in> set (id_rows db)" "matches w' key' r" "ir_expires_at r < ie_clock ie" for w' r
  proof (rule ccontr)
    assume "\<not> ?thesis"
    then have "r = r0" using wf_idem_unique[OF assms(1) r0(1) that(1) r0(2)] that(2) by simp
    with that(3) assms(3) r0(3) show False by simp
  qed
  have keep: "held T w key Q (delete_rows (matches w' key') db)" if "w' \<noteq> w \<or> key' \<noteq> key" for w'
    using r0 that by (auto simp: held_def delete_rows_def matches_def)
  show "held T w key Q db'"
    using begin_pass_cases[OF assms(4)]
  proof (elim disjE exE conjE)
    fix w' r assume a: "r \<in> set (id_rows db)" "matches w' key' r" "ir_expires_at r < ie_clock ie"
      "db' = delete_rows (matches w' key') db"
    then show ?thesis using keep stale by blast
  qed (use assms(2) in \<open>auto simp: held_def\<close>)
  show "x \<noteq> StartOver \<and> (\<forall>r. x = Answer (Inr r) \<longrightarrow> id_Replay r)" if k: "cd_uuid cd ws' = Inr w" "key' = key"
  proof
    show "x \<noteq> StartOver"
    proof
      assume "x = StartOver"
      with assms(4) have "begin_pass cd ie ws' key' h' ttl db = (StartOver, db')" by simp
      then obtain w' r where "cd_uuid cd ws' = Inr w'" "r \<in> set (id_rows db)" "matches w' key' r" "ir_expires_at r < ie_clock ie"
        by (rule begin_pass_StartOver)
      with stale k show False by auto
    qed
    show "\<forall>r. x = Answer (Inr r) \<longrightarrow> id_Replay r"
      using begin_pass_cases[OF assms(4)] k r0(1,2) by auto
  qed
qed

lemma held_Begin:
  assumes "wf_idem db" "held T w key Q db" "\<And>n. ie_clock (P n) \<le> T"
  shows "held T w key Q (snd (BeginOrReplay cd P n ws' key' h' ttl db))"
  using assms
proof (induction cd P n ws' key' h' ttl db rule: BeginOrReplay.induct)
  case (1 cd P n ws' key' h' ttl db)
  obtain x db' where b: "begin_pass cd (P n) ws' key' h' ttl db = (x, db')" by fastforce
  have hd: "held T w key Q db'" by (rule held_pass(1)[OF 1(2,3,4) b])
  show ?case
  proof (cases x)
    case (Answer r)
    with b hd show ?thesis by (simp add: BeginOrReplay_pass(1))
  next
    case StartOver
    with b 1(1)[OF b[symmetric] StartOver begin_pass_wf[OF b 1(2)] hd 1(4)]
    show ?thesis by (simp add: BeginOrReplay_pass(2))
  qed
qed

lemma held_Begin_answer:
  assumes "wf_idem db" "held T w key Q db" "ie_clock (P n) \<le> T" "cd_uuid cd ws' = Inr w"
    and "BeginOrReplay cd P n ws' key h' ttl db = (Inr r, db')"
  shows "id_Replay r"
proof -
  obtain x db1 where b: "begin_pass cd (P n) ws' key h' ttl db = (x, db1)" by fastforce
  from held_pass(2)[OF assms(1-3) b assms(4) refl] assms(5) b show ?thesis
    by (cases x) (auto simp: BeginOrReplay_pass(1))
qed

lemma held_step:
  assumes "wf_idem db" "held T w key Q db" "op_before T x"
    and "\<not> completes cd w key x \<or> (\<forall>r s c g t. Q r \<longrightarrow>
      Q (r\<lparr>ir_state := s, ir_status_code := c, ir_response_body := g, ir_completed_at := t\<rparr>))"
  shows "held T w key Q (idem_step cd db x)"
proof (cases x)
  case (IBegin P ws key' h' ttl)
  with assms show ?thesis by (simp add: held_Begin)
next
  case (IComplete env ws key' st body good)
  from assms(2) obtain r where r: "r \<in> set (id_rows db)" "matches w key r" "T \<le> ir_expires_at r" "Q r"
    by (auto simp: held_def)
  have "held T w key Q (snd (pool_exec env 0 (\<lambda>d. Inr (d\<lparr>id_rows := upd_rows (matches w' key')
       (\<lambda>r. r\<lparr>ir_state := s, ir_status_code := c, ir_response_body := g, ir_completed_at := t\<rparr>) (id_rows d)\<rparr>)) db))"
    if "cd_uuid cd ws = Inr w'" for w' s c g t
  proof (intro pool_exec_inv[where P = "held T w key Q"], goal_cases)
    case (2 db')
    then have "db' = db\<lparr>id_rows := upd_rows (matches w' key')
       (\<lambda>r. r\<lparr>ir_state := s, ir_status_code := c, ir_response_body := g, ir_completed_at := t\<rparr>) (id_rows db)\<rparr>" by simp
    then show ?case using r assms(4) that
      by (simp add: held_def bex_upd_rows) (intro bexI[of _ r], auto simp: matches_def IComplete)
  qed (rule assms(2))
  then show ?thesis using assms by (auto simp: IComplete Complete_def Let_def split: sum.split)
next
  case (IPurge env)
  with assms have "held T w key Q (delete_rows (\<lambda>r. ir_expires_at r < pg_now env) db)"
    by (auto simp: held_def delete_rows_def)
  with assms(2) show ?thesis by (simp add: IPurge PurgeExpired_def Let_def split: option.split)
qed

text \<open>A grant takes the key for its whole lifetime.\<close>

lemma grant_holds:
  assumes "BeginOrReplay cd P n ws key h ttl db = (Inr r, db')" "\<not> id_Replay r"
    and "cd_uuid cd ws = Inr w" "cd_interval cd ttl = Inr dt" "\<And>n. T \<le> pg_now (ie_pg (P n)) + dt"
    and "\<And>r. ir_request_hash r = h \<Longrightarrow> Q r"
  shows "held T w key Q db'"
  using assms
proof (induction cd P n ws key h ttl db rule: BeginOrReplay.induct)
  case (1 cd P n ws key h ttl db)
  obtain x db1 where b: "begin_pass cd (P n) ws key h ttl db = (x, db1)" by fastforce
  show ?case
  proof (cases x)
    case StartOver
    with b 1(2) have "BeginOrReplay cd P (Suc n) ws key h ttl db1 = (Inr r, db')"
      by (simp add: BeginOrReplay_pass(2))
    from 1(1)[OF b[symmetric] StartOver this 1(3-7)] show ?thesis .
  next
    case (Answer ans)
    then have "ans = Inr r" "db1 = db'" using 1(2) b by (simp_all add: BeginOrReplay_pass(1))
    with begin_pass_cases[OF b] 1(3-7) Answer show ?thesis by (auto simp: held_def)
  qed
qed

section \<open>Interface: an exclusive claim\<close>

text \<open>
  What the request handlers rely on: of the calls that try to claim one key,
  interleaved with anything else that may happen to the table, at most one is
  granted.  \<open>taken\<close> says that the key is claimed for the period in question.
\<close>

definition is_grant :: "IdempotencyResult result \<Rightarrow> bool" where
  "is_grant r = (case r of Inr x \<Rightarrow> \<not> id_Replay x | Inl e \<Rightarrow> False)"

datatype ('e, 'o) claim_event = Claim 'e | Other 'o

fun grants :: "('e \<Rightarrow> 's \<Rightarrow> IdempotencyResult result \<times> 's) \<Rightarrow> ('o \<Rightarrow> 's \<Rightarrow> 's) \<Rightarrow> 's
    \<Rightarrow> ('e, 'o) claim_event list \<Rightarrow> nat" where
  "grants claim other s [] = 0"
| "grants claim other s (Claim e # xs) =
    (let (r, s') = claim e s in (if is_grant r then 1 else 0) + grants claim other s' xs)"
| "grants claim other s (Other x # xs) = grants claim other (other x s) xs"

fun event_ok :: "('e \<Rightarrow> bool) \<Rightarrow> ('o \<Rightarrow> bool) \<Rightarrow> ('e, 'o) claim_event \<Rightarrow> bool" where
  "event_ok p q (Claim e) = p e"
| "event_ok p q (Other x) = q x"

locale exclusive_claim =
  fixes claim :: "'e \<Rightarrow> 's \<Rightarrow> IdempotencyResult result \<times> 's"
    and other :: "'o \<Rightarrow> 's \<Rightarrow> 's"
    and claim_ok :: "'e \<Rightarrow> bool"
    and other_ok :: "'o \<Rightarrow> bool"
    and inv :: "'s \<Rightarrow> bool"
    and taken :: "'s \<Rightarrow> bool"
  assumes grant_takes: "inv s \<Longrightarrow> claim_ok e \<Longrightarrow> is_grant (fst (claim e s)) \<Longrightarrow> taken (snd (claim e s))"
    and taken_refuses: "inv s \<Longrightarrow> claim_ok e \<Longrightarrow> taken s \<Longrightarrow> \<not> is_grant (fst (claim e s))"
    and taken_claim: "inv s \<Longrightarrow> claim_ok e \<Longrightarrow> taken s \<Longrightarrow> taken (snd (claim e s))"
    and taken_other: "inv s \<Longrightarrow> other_ok x \<Longrightarrow> taken s \<Longrightarrow> taken (other x s)"
    and inv_claim: "inv s \<Longrightarrow> claim_ok e \<Longrightarrow> inv (snd (claim e s))"
    and inv_other: "inv s \<Longrightarrow> inv (other x s)"
begin

lemma grants_taken:
  "inv s \<Longrightarrow> taken s \<Longrightarrow> list_all (event_ok claim_ok other_ok) xs \<Longrightarrow> grants claim other s xs = 0"
proof (induction xs arbitrary: s)
  case (Cons x xs)
  then show ?case
    by (cases x) (auto simp: case_prod_beta taken_refuses taken_claim taken_other inv_claim inv_other)
qed simp

lemma grants_le_one:
  "inv s \<Longrightarrow> list_all (event_ok claim_ok other_ok) xs \<Longrightarrow> grants claim other s xs \<le> 1"
proof (induction xs arbitrary: s)
  case (Cons x xs)
  show ?case
  proof (cases x)
    case (Claim e)
    with Cons show ?thesis
      using grants_taken[of "snd (claim e s)" xs] grant_takes[of s e] inv_claim[of s e]
      by (auto simp: case_prod_beta)
  next
    case (Other y)
    with Cons show ?thesis by (simp add: inv_other)
  qed
qed simp

end

text \<open>The store provides it for each key, over any span of time no longer than the TTL of the claims.\<close>

definition claim_key ::
  "codec \<Rightarrow> string \<Rightarrow> (nat \<Rightarrow> idem_env) \<times> string \<times> string \<times> duration \<Rightarrow> idem_db \<Rightarrow> IdempotencyResult result \<times> idem_db" where
  "claim_key cd key e db = (case e of (P, ws, h, ttl) \<Rightarrow> BeginOrReplay cd P 0 ws key h ttl db)"

definition claim_in ::
  "codec \<Rightarrow> string \<Rightarrow> instant \<Rightarrow> (nat \<Rightarrow> idem_env) \<times> string \<times> string \<times> duration \<Rightarrow> bool" where
  "claim_in cd w T e = (case e of (P, ws, h, ttl) \<Rightarrow> cd_uuid cd ws = Inr w
     \<and> (\<exists>dt. cd_interval cd ttl = Inr dt \<and> (\<forall>n. T \<le> pg_now (ie_pg (P n)) + dt \<and> ie_clock (P n) \<le> T)))"

interpretation idem_claim: exclusive_claim "claim_key cd key" "\<lambda>x db. idem_step cd db x" "claim_in cd w T"
  "op_before T" wf_idem "held T w key (\<lambda>_. True)" for cd key w T
proof (unfold_locales, goal_cases)
  case (1 db e)
  obtain P ws h ttl where e: "e = (P, ws, h, ttl)" by (cases e)
  obtain r db' where b: "BeginOrReplay cd P 0 ws key h ttl db = (r, db')" by fastforce
  from 1 obtain x where "r = Inr x" "\<not> id_Replay x"
    by (auto simp: claim_key_def e b is_grant_def split: sum.splits)
  with b 1(2) show ?case
    by (auto simp: claim_key_def claim_in_def e intro: grant_holds)
next
  case (2 db e)
  obtain P ws h ttl where e: "e = (P, ws, h, ttl)" by (cases e)
  obtain r db' where b: "BeginOrReplay cd P 0 ws key h ttl db = (r, db')" by fastforce
  with 2 show ?case
    by (auto simp: claim_key_def claim_in_def e is_grant_def split: sum.splits dest: held_Begin_answer)
next
  case (3 db e)
  then show ?case by (cases e) (auto simp: claim_key_def claim_in_def intro!: held_Begin)
next
  case (4 db x)
  then show ?case by (intro held_step) auto
next
  case (5 db e)
  then show ?case by (cases e) (simp add: claim_key_def Begin_wf)
next
  case (6 db x)
  then show ?case by (rule step_wf_idem)
qed

section \<open>Properties\<close>


definition plain_codec :: codec where
  "plain_codec = \<lparr> cd_uuid = Inr, cd_interval = Inr, cd_gz = (\<lambda>b. Inr (CHR ''z'' # b)),
     cd_gunz = (\<lambda>g. case g of [] \<Rightarrow> Inl (Opaque ''EOF'') | c # b \<Rightarrow> Inr b) \<rparr>"

definition fine_pass :: "instant \<Rightarrow> string \<Rightarrow> idem_env" where
  "fine_pass t u = \<lparr> ie_pg = pg_fine t, ie_uuid = u, ie_clock = t \<rparr>"

definition empty_idem :: idem_db where
  "empty_idem = \<lparr> id_workspaces = [''w''], id_rows = [] \<rparr>"


text \<open>A pass in which no database call fails.\<close>

definition no_faults :: "pg_env \<Rightarrow> bool" where
  "no_faults env \<longleftrightarrow> pg_begin env = None \<and> pg_commit env = None \<and> (\<forall>n. pg_stmt env n = None)"

lemma pass_on_row:
  assumes "wf_idem db" "r \<in> set (id_rows db)" "matches w key r" "no_faults (ie_pg ie)"
    and "cd_uuid cd ws = Inr w" "cd_interval cd ttl = Inr dt" "key \<noteq> []"
  shows "begin_pass cd ie ws key h ttl db = on_existing cd ie w key h r db"
proof -
  let ?rows = "filter (matches w key) (id_rows db)"
  have ne: "?rows \<noteq> []" using assms(2,3) by (auto simp: filter_empty_conv)
  then have "hd ?rows = r"
    using wf_idem_unique[OF assms(1,2) _ assms(3), of "hd ?rows"] hd_in_set[OF ne] by auto
  moreover have "\<exists>x\<in>set (id_rows db). matches w key x" using assms(2,3) by blast
  ultimately show ?thesis
    using assms(4-7) ne
    by (cases ?rows) (auto simp: begin_pass_def Let_def insert_pending_def no_faults_def query_row_def)
qed

lemma pass_on_free:
  assumes "\<forall>x\<in>set (id_rows db). \<not> matches w key x" "no_faults (ie_pg ie)" "w \<in> set (id_workspaces db)"
    and "ie_uuid ie \<notin> ir_id ` set (id_rows db)"
    and "cd_uuid cd ws = Inr w" "cd_interval cd ttl = Inr dt" "key \<noteq> []"
  shows "fst (begin_pass cd ie ws key h ttl db) = Answer (Inr \<lparr>id_Replay = False, id_StatusCode = 0, id_Body = []\<rparr>)"
  using assms by (auto simp: begin_pass_def Let_def insert_pending_def no_faults_def commit_then_def)

lemma exec_held:
  assumes "wf_idem db" "held T w key Q db" "list_all (\<lambda>x. op_before T x \<and> \<not> completes cd w key x) xs"
  shows "wf_idem (foldl (idem_step cd) db xs) \<and> held T w key Q (foldl (idem_step cd) db xs)"
  using assms
proof (induction xs arbitrary: db)
  case (Cons x xs)
  then show ?case using held_step[of db T w key Q x cd] step_wf_idem[of db cd x] by simp
qed simp

text \<open>A completed key replays what was stored.\<close>

lemma completed_replays:
  assumes "wf_idem db" "held T w key (\<lambda>r. ir_request_hash r = h) db" "cd_uuid cd ws = Inr w" "key \<noteq> []"
    and "cd_gz cd body = Inr g" "g \<noteq> []" "cd_gunz cd g = Inr body"
    and "Complete cd env ws key st body good db = (None, db1)"
    and "list_all (\<lambda>x. op_before T x \<and> \<not> completes cd w key x) xs"
    and "no_faults (ie_pg (P 0))" "ie_clock (P 0) \<le> T" "cd_interval cd ttl = Inr dt"
  shows "BeginOrReplay cd P 0 ws key h' ttl (foldl (idem_step cd) db1 xs) =
    (if h' = h then Inr \<lparr>id_Replay = True, id_StatusCode = st, id_Body = body\<rparr>
     else Inl (Sentinel ErrIdempotencyConflict), foldl (idem_step cd) db1 xs)"
proof -
  let ?Q = "\<lambda>r. ir_request_hash r = h \<and> ir_state r \<noteq> StatePending \<and> ir_status_code r = Some st \<and> ir_response_body r = g"
  let ?f = "\<lambda>r. r\<lparr>ir_state := (if \<not> good then StateFailed else StateDone), ir_status_code := Some st,
      ir_response_body := g, ir_completed_at := Some (pg_now env)\<rparr>"
  have db1: "db1 = db\<lparr>id_rows := upd_rows (matches w key) ?f (id_rows db)\<rparr>"
    using assms(8) by (auto simp: Complete_def assms(3,5) pool_exec_ok)
  have "wf_idem db1" using step_wf_idem[OF assms(1), of cd "IComplete env ws key st body good"] assms(8) by simp
  moreover have "held T w key ?Q db1"
    using assms(2) by (auto simp: held_def db1 bex_upd_rows matches_def intro: bexI)
  ultimately have "wf_idem (foldl (idem_step cd) db1 xs)" "held T w key ?Q (foldl (idem_step cd) db1 xs)"
    using exec_held[OF _ _ assms(9)] by blast+
  then obtain r where r: "r \<in> set (id_rows (foldl (idem_step cd) db1 xs))" "matches w key r" "T \<le> ir_expires_at r" "?Q r"
    and wf: "wf_idem (foldl (idem_step cd) db1 xs)" by (auto simp: held_def)
  have "begin_pass cd (P 0) ws key h' ttl (foldl (idem_step cd) db1 xs) =
      on_existing cd (P 0) w key h' r (foldl (idem_step cd) db1 xs)"
    by (rule pass_on_row[OF wf r(1,2) assms(10,3,12,4)])
  also have "\<dots> = (Answer (if h' = h then Inr \<lparr>id_Replay = True, id_StatusCode = st, id_Body = body\<rparr>
     else Inl (Sentinel ErrIdempotencyConflict)), foldl (idem_step cd) db1 xs)"
    using r(3,4) assms(6,7,10,11)
    by (auto simp: on_existing_def commit_then_def replay_row_def gunzip_def no_faults_def Let_def)
  finally show ?thesis by (rule BeginOrReplay_pass(1))
qed

text \<open>
  (C4) Replays are faithful: once a claimed request is completed with a status
  and a body, every later call with the same key and request hash before
  the row expires is answered with exactly that status and body, whatever
  happened in between (claims, purges, completions of other keys, failed
  database calls), and a call with a different hash is refused as a
  conflict; neither changes the table.  Compression is only assumed to be
  undone by decompression and never to be empty.
\<close>

theorem replay_fidelity:
  assumes "wf_idem db" "held T w key (\<lambda>r. ir_request_hash r = h) db" "cd_uuid cd ws = Inr w" "key \<noteq> []"
    and "cd_gz cd body = Inr g" "g \<noteq> []" "cd_gunz cd g = Inr body"
    and "Complete cd env ws key st body good db = (None, db1)"
    and "list_all (\<lambda>x. op_before T x \<and> \<not> completes cd w key x) xs"
    and "no_faults (ie_pg (P 0))" "ie_clock (P 0) \<le> T" "cd_interval cd ttl = Inr dt"
  shows "BeginOrReplay cd P 0 ws key h' ttl (foldl (idem_step cd) db1 xs) =
    (if h' = h then Inr \<lparr>id_Replay = True, id_StatusCode = st, id_Body = body\<rparr>
     else Inl (Sentinel ErrIdempotencyConflict), foldl (idem_step cd) db1 xs)"
  using assms by (rule completed_replays)

theorem replay_fidelity_witness:
  "\<exists>db1. BeginOrReplay plain_codec (\<lambda>_. fine_pass 9 ''3'') 0 ''w'' ''k'' ''h'' 24
      (foldl (idem_step plain_codec) db1 [IPurge (pg_fine 8)])
    = (Inr \<lparr>id_Replay = True, id_StatusCode = 413, id_Body = ''body''\<rparr>,
       foldl (idem_step plain_codec) db1 [IPurge (pg_fine 8)])"
proof -
  let ?r = "\<lparr> ir_id = ''1'', ir_workspace_id = ''w'', ir_key = ''k'', ir_request_hash = ''h'', ir_state = StatePending,
     ir_status_code = None, ir_response_body = [], ir_created_at = 5, ir_completed_at = None, ir_expires_at = 29 \<rparr>"
  let ?db = "\<lparr> id_workspaces = [''w''], id_rows = [?r] \<rparr>"
  obtain db1 where c: "Complete plain_codec (pg_fine 7) ''w'' ''k'' 413 ''body'' False ?db = (None, db1)"
    by (simp add: Complete_def plain_codec_def pool_exec_def)
  have "BeginOrReplay plain_codec (\<lambda>_. fine_pass 9 ''3'') 0 ''w'' ''k'' ''h'' 24
      (foldl (idem_step plain_codec) db1 [IPurge (pg_fine 8)]) =
    (if ''h'' = ''h'' then Inr \<lparr>id_Replay = True, id_StatusCode = 413, id_Body = ''body''\<rparr>
     else Inl (Sentinel ErrIdempotencyConflict), foldl (idem_step plain_codec) db1 [IPurge (pg_fine 8)])"
    by (rule replay_fidelity[OF _ _ _ _ _ _ _ c, where T = 20 and w = "''w''" and g = "''zbody''" and dt = 24])
      (auto simp: wf_idem_def held_def matches_def plain_codec_def fine_pass_def no_faults_def)
  then show ?thesis by auto
qed



text \<open>
  (C19) The request hash identifies the request: two requests whose method and
  path have no NUL byte have the same hash exactly when their method, path
  and body agree, up to a collision of SHA-256 on the two different framed
  texts.
\<close>

theorem HashRequest_identifies:
  assumes "CHR 0x00 \<notin> set (m @ p @ m' @ p')"
  shows "HashRequest m p b = HashRequest m' p' b' \<longleftrightarrow>
    (m, p, b) = (m', p', b')
    \<or> hash_input m p b \<noteq> hash_input m' p' b' \<and> sha256 (hash_input m p b) = sha256 (hash_input m' p' b')"
proof -
  have "hash_input m p b = hash_input m' p' b' \<longleftrightarrow> (m, p, b) = (m', p', b')"
    using assms by (auto simp: hash_input_def framed_append_eq)
  then show ?thesis by (auto simp: HashRequest_def hex_encode_inj)
qed

theorem HashRequest_identifies_witness:
  "(HashRequest ''POST'' ''/sql/execute'' ''{}'' = HashRequest ''POST'' ''/rpc/call'' ''{}'') =
    (sha256 (hash_input ''POST'' ''/sql/execute'' ''{}'') = sha256 (hash_input ''POST'' ''/rpc/call'' ''{}''))"
  using HashRequest_identifies[of "''POST''" "''/sql/execute''" "''POST''" "''/rpc/call''" "''{}''" "''{}''"]
  by (auto simp: hash_input_def)

end
