(* ===== verification/Rpc.thy ===== *)
theory Rpc
  imports Tenant Idempotency Json
begin

text \<open>
  Registered procedures (\<^verbatim>\<open>internal/rpc/registry.go\<close>) and their dispatcher
  (\<^verbatim>\<open>internal/rpc/dispatcher.go\<close>).

  JSON schemas belong to a third-party library: \<open>'sc\<close> is its type of compiled
  schemas, \<open>compile\<close> its compiler and \<open>validate\<close> its check.  \<open>rpcq\<close> is what
  Postgres does with a procedure body: given the statements already run, the
  text and the argument, a result or an error, and the tenant database after it.
\<close>

section \<open>Registry\<close>

record 'sc Procedure =
  pr_Name :: string
  pr_Version :: int
  pr_Description :: string
  pr_RequiredRole :: string
  pr_BodyPath :: string
  pr_Body :: string
  pr_Schema :: "'sc option"

type_synonym 'sc Registry = "string \<Rightarrow> 'sc Procedure option"

definition NewRegistry :: "'sc Registry" where
  "NewRegistry = (\<lambda>_. None)"

definition Register :: "'sc Procedure option \<Rightarrow> 'sc Registry \<Rightarrow> go_error option \<times> 'sc Registry" where
  "Register p0 r =
    (case p0 of None \<Rightarrow> (Some (Opaque ''rpc.Register: nil procedure or empty name''), r)
     | Some p \<Rightarrow>
     if pr_Name p = [] then (Some (Opaque ''rpc.Register: nil procedure or empty name''), r) else
     if pr_Schema p = None then (Some (Opaque ''rpc.Register: procedure has nil JSON schema''), r) else
     if pr_Body p = [] then (Some (Opaque ''rpc.Register: procedure has empty body''), r) else
     (None, r(pr_Name p \<mapsto> p)))"

definition registry_Get :: "'sc Registry \<Rightarrow> string \<Rightarrow> 'sc Procedure option" where
  "registry_Get r name = r name"

section \<open>Built-in procedures\<close>

text \<open>What the loader sees of the machine: environment variables, directories, files.\<close>

record machine =
  mc_getenv :: "string \<Rightarrow> string"
  mc_is_dir :: "string \<Rightarrow> bool"
  mc_abs :: "string \<Rightarrow> string result"
  mc_read :: "string \<Rightarrow> bytes option result"     \<comment> \<open>\<open>None\<close>: the file does not exist\<close>
  mc_join :: "string \<Rightarrow> string \<Rightarrow> string"        \<comment> \<open>\<open>filepath.Join\<close>\<close>

definition bodiesRoot :: "machine \<Rightarrow> string result" where
  "bodiesRoot mc =
    (let d = mc_getenv mc ''AGENTCOOPDB_RPC_DIR'' in
     if d \<noteq> [] then Inr d
     else case find (mc_is_dir mc) [''/app/sql/rpc'', ''sql/rpc''] of
       Some c \<Rightarrow> mc_abs mc c
     | None \<Rightarrow> Inl (Opaque ''rpc bodies directory not found''))"

text \<open>The schema of the one built-in procedure, as it stands in the source.\<close>

definition nl :: string where "nl = [CHR 0x0A]"

definition upsert_schema :: string where
  "upsert_schema =
     ''{'' @ nl @
     ''        \"$schema\": \"https://json-schema.org/draft/2020-12/schema\",'' @ nl @
     ''        \"type\": \"object\",'' @ nl @
     ''        \"additionalProperties\": false,'' @ nl @
     ''        \"required\": [\"id\", \"body\"],'' @ nl @
     ''        \"properties\": {'' @ nl @
     ''            \"id\":   {\"type\": \"string\"},'' @ nl @
     ''            \"body\": {\"type\": \"string\"}'' @ nl @
     ''        }'' @ nl @
     ''    }''"

definition compileSchema :: "(json \<Rightarrow> 'sc result) \<Rightarrow> (bytes \<Rightarrow> string) \<Rightarrow> string \<Rightarrow> 'sc result" where
  "compileSchema compile jerr jsonText =
    (case jparse jsonText of
       None \<Rightarrow> Inl (Errorf ''schema decode: '' (Opaque (jerr jsonText)) '''')
     | Some doc \<Rightarrow> compile doc)"

definition LoadBuiltins ::
  "machine \<Rightarrow> (json \<Rightarrow> 'sc result) \<Rightarrow> (bytes \<Rightarrow> string) \<Rightarrow> 'sc Registry \<Rightarrow> go_error option \<times> 'sc Registry" where
  "LoadBuiltins mc compile jerr reg =
    (case bodiesRoot mc of Inl e \<Rightarrow> (Some e, reg) | Inr dir \<Rightarrow>
     case mc_read mc (mc_join mc dir ''upsert_document.sql'') of Inl e \<Rightarrow> (Some e, reg)
     | Inr None \<Rightarrow> (None, reg)
     | Inr (Some body) \<Rightarrow>
     case compileSchema compile jerr upsert_schema of
       Inl e \<Rightarrow> (Some (Errorf ''compile upsert_document schema: '' e ''''), reg)
     | Inr schema \<Rightarrow>
       Register (Some \<lparr> pr_Name = ''upsert_document'', pr_Version = 1,
         pr_Description = ''Insert or update a document by id, returning the new row.'',
         pr_RequiredRole = ''dbuser'', pr_BodyPath = ''upsert_document.sql'', pr_Body = body,
         pr_Schema = Some schema \<rparr>) reg)"

section \<open>Dispatcher\<close>

record CallInput =
  ci_WorkspaceID :: string
  ci_PgRole :: string
  ci_Name :: string
  ci_Args :: "(string \<times> goval) list option"   \<comment> \<open>\<open>None\<close>: the nil map\<close>
  ci_IdempotencyKey :: string
  ci_RequestHash :: string
  ci_StatementTimeout :: duration
  ci_IdleInTxTimeout :: duration

text \<open>A nil \<^verbatim>\<open>json.RawMessage\<close> is \<open>None\<close>.\<close>

record CallResult =
  cr_Procedure :: string
  cr_Result :: "bytes option"
  cr_DurationMS :: int
  cr_Replay :: bool
  cr_CachedStatus :: int
  cr_CachedBody :: "bytes option"

definition marshal_args :: "(real \<Rightarrow> string) \<Rightarrow> (string \<times> goval) list option \<Rightarrow> string" where
  "marshal_args ff args = (case args of None \<Rightarrow> ''null'' | Some m \<Rightarrow> marshal_any ff (GMap m))"

text \<open>The body of the transaction of \<^verbatim>\<open>run\<close>.\<close>

definition run_tx ::
  "(goval stmt_log \<Rightarrow> string \<Rightarrow> string \<Rightarrow> 'db \<Rightarrow> bytes option result \<times> 'db) \<Rightarrow> (real \<Rightarrow> string) \<Rightarrow> pg_env
    \<Rightarrow> 'sc Procedure \<Rightarrow> CallInput \<Rightarrow> 'db \<Rightarrow> (bytes option \<times> 'db) result" where
  "run_tx rpcq ff env proc inp db =
    (case Setup env (ci_WorkspaceID inp) (ci_PgRole inp) (ci_StatementTimeout inp) (ci_IdleInTxTimeout inp) [] of
       Inl e \<Rightarrow> Inl e
     | Inr stmts \<Rightarrow>
     case rpcq stmts (pr_Body proc) (marshal_args ff (ci_Args inp)) db of
       (Inl e, _) \<Rightarrow> Inl e
     | (Inr raw, db') \<Rightarrow> Inr (raw, db'))"

definition rpc_run ::
  "(goval stmt_log \<Rightarrow> string \<Rightarrow> string \<Rightarrow> 'db \<Rightarrow> bytes option result \<times> 'db) \<Rightarrow> (real \<Rightarrow> string) \<Rightarrow> pg_env
    \<Rightarrow> 'sc Procedure \<Rightarrow> CallInput \<Rightarrow> 'db \<Rightarrow> bytes option result \<times> 'db" where
  "rpc_run rpcq ff env proc inp db = in_tx env (run_tx rpcq ff env proc inp) db"

text \<open>\<^verbatim>\<open>json.Compact\<close> with HTML escaping, which \<^verbatim>\<open>json.Marshal\<close> applies to a \<^verbatim>\<open>RawMessage\<close>:
  white space outside strings goes, and some characters inside them are escaped.\<close>

fun compact_chars :: "bool \<Rightarrow> string \<Rightarrow> string" where
  "compact_chars ins [] = []"
| "compact_chars False (c # cs) =
    (if json_ws c then compact_chars False cs else c # compact_chars (c = CHR 0x22) cs)"
| "compact_chars True (c # cs) =
    (if c = CHR 0x5C then (case cs of [] \<Rightarrow> [c] | d # ds \<Rightarrow> c # d # compact_chars True ds)
     else if c = CHR 0x22 then c # compact_chars False cs
     else if c = CHR ''<'' \<or> c = CHR ''>'' \<or> c = CHR ''&'' then json_u4 (of_char c) @ compact_chars True cs
     else if c = CHR 0xE2 then
       (case cs of
          x # y # r \<Rightarrow>
            if x = CHR 0x80 \<and> (y = CHR 0xA8 \<or> y = CHR 0xA9)
            then json_u4 (if y = CHR 0xA8 then 8232 else 8233) @ compact_chars True r
            else c # compact_chars True cs
        | _ \<Rightarrow> c # compact_chars True cs)
     else c # compact_chars True cs)"

definition raw_json :: "bytes option \<Rightarrow> string option" where
  "raw_json raw =
    (case raw of None \<Rightarrow> Some ''null''
     | Some b \<Rightarrow> (case jparse b of None \<Rightarrow> None | Some _ \<Rightarrow> Some (compact_chars False b)))"

text \<open>The stored body: a map, so its keys are sorted; an error of Marshal leaves no bytes.\<close>

definition stored_body :: "string \<Rightarrow> bytes option \<Rightarrow> int \<Rightarrow> bytes" where
  "stored_body name raw ms =
    (case raw_json raw of None \<Rightarrow> []
     | Some v \<Rightarrow> json_object [json_member ''duration_ms'' (Itoa ms), json_member ''procedure'' (json_string name),
                   json_member ''result'' v])"

text \<open>What one call draws from outside.\<close>

record call_env =
  ce_idem :: "nat \<Rightarrow> idem_env"
  ce_run :: pg_env
  ce_complete :: pg_env
  ce_elapsed :: duration

definition day :: duration where "day = 24 * 3600 * 1000000000"

text \<open>Running the procedure and completing the key; a failed completion is a warning.\<close>

definition call_run ::
  "codec \<Rightarrow> (goval stmt_log \<Rightarrow> string \<Rightarrow> string \<Rightarrow> 'db \<Rightarrow> bytes option result \<times> 'db) \<Rightarrow> (real \<Rightarrow> string) \<Rightarrow> call_env
    \<Rightarrow> 'sc Procedure \<Rightarrow> CallInput \<Rightarrow> idem_db \<Rightarrow> 'db \<Rightarrow> CallResult result \<times> idem_db \<times> 'db \<times> go_error option" where
  "call_run cd rpcq ff ce proc inp idem db =
    (let (res, db') = rpc_run rpcq ff (ce_run ce) proc inp db;
         ms = Milliseconds (ce_elapsed ce);
         raw = (case res of Inl e \<Rightarrow> None | Inr b \<Rightarrow> b);
         good = is_ok res;
         (cerr, idem') =
           (if ci_IdempotencyKey inp \<noteq> []
            then Complete cd (ce_complete ce) (ci_WorkspaceID inp) (ci_IdempotencyKey inp)
                   (if good then 200 else 500) (stored_body (pr_Name proc) raw ms) good idem
            else (None, idem))
     in (case res of Inl e \<Rightarrow> Inl e
         | Inr b \<Rightarrow> Inr \<lparr> cr_Procedure = pr_Name proc, cr_Result = b, cr_DurationMS = ms,
             cr_Replay = False, cr_CachedStatus = 0, cr_CachedBody = None \<rparr>,
         idem', db', cerr))"

definition Call ::
  "'sc Registry \<Rightarrow> ('sc \<Rightarrow> (string \<times> goval) list option \<Rightarrow> go_error option) \<Rightarrow> codec
    \<Rightarrow> (goval stmt_log \<Rightarrow> string \<Rightarrow> string \<Rightarrow> 'db \<Rightarrow> bytes option result \<times> 'db) \<Rightarrow> (real \<Rightarrow> string) \<Rightarrow> call_env
    \<Rightarrow> CallInput \<Rightarrow> idem_db \<Rightarrow> 'db \<Rightarrow> CallResult result \<times> idem_db \<times> 'db \<times> go_error option" where
  "Call reg validate cd rpcq ff ce inp idem db =
    (case registry_Get reg (ci_Name inp) of None \<Rightarrow> (Inl (Sentinel ErrUnknownProcedure), idem, db, None)
     | Some proc \<Rightarrow>
     if pr_RequiredRole proc \<noteq> [] \<and> pr_RequiredRole proc \<noteq> ci_PgRole inp then
       (Inl (Errorf [] (Sentinel ErrRoleNotPermitted)
          ('': rpc '' @ go_quote (ci_Name inp) @ '' requires role '' @ go_quote (pr_RequiredRole proc)
           @ '', key has '' @ go_quote (ci_PgRole inp))), idem, db, None)
     else
     case pr_Schema proc of None \<Rightarrow> (Inl (Opaque ''nil schema''), idem, db, None) | Some sc \<Rightarrow>
     case validate sc (ci_Args inp) of
       Some e \<Rightarrow> (Inl (Errorf ''rpc args validation: '' e ''''), idem, db, None)
     | None \<Rightarrow>
     if ci_IdempotencyKey inp = [] then call_run cd rpcq ff ce proc inp idem db
     else
     case BeginOrReplay cd (ce_idem ce) 0 (ci_WorkspaceID inp) (ci_IdempotencyKey inp) (ci_RequestHash inp) day idem of
       (Inl e, idem1) \<Rightarrow> (Inl e, idem1, db, None)
     | (Inr r, idem1) \<Rightarrow>
        if id_Replay r then
          (Inr \<lparr> cr_Procedure = [], cr_Result = None, cr_DurationMS = 0, cr_Replay = True,
             cr_CachedStatus = id_StatusCode r, cr_CachedBody = Some (id_Body r) \<rparr>, idem1, db, None)
        else call_run cd rpcq ff ce proc inp idem1 db)"

section \<open>Lemmas\<close>

subsection \<open>Registry\<close>

text \<open>What is registered is complete and found under its own name, so a call never meets a missing schema.\<close>

definition registry_ok :: "'sc Registry \<Rightarrow> bool" where
  "registry_ok r \<longleftrightarrow> (\<forall>n p. r n = Some p \<longrightarrow> pr_Name p = n \<and> n \<noteq> [] \<and> pr_Schema p \<noteq> None \<and> pr_Body p \<noteq> [])"

lemma Register_ok: "registry_ok r \<Longrightarrow> registry_ok (snd (Register p r))"
  by (auto simp: Register_def registry_ok_def split: option.splits)

lemma LoadBuiltins_ok: "registry_ok r \<Longrightarrow> registry_ok (snd (LoadBuiltins mc compile jerr r))"
  using Register_ok by (auto simp: LoadBuiltins_def split: sum.splits option.splits)

text \<open>The built-in schema is well-formed JSON: loading never fails on it.\<close>

lemma upsert_schema_parses: "jparse upsert_schema \<noteq> None"
  by code_simp

subsection \<open>Running\<close>

lemma rpc_run_ok:
  fixes rpcq :: "goval stmt_log \<Rightarrow> string \<Rightarrow> string \<Rightarrow> 'db \<Rightarrow> bytes option result \<times> 'db"
  assumes "rpc_run rpcq ff env proc inp db = (Inr raw, db')"
  shows "\<exists>stmts. session_of stmts = \<lparr> se_role = Some (ci_PgRole inp), se_workspace = Some (ci_WorkspaceID inp),
        se_public_only = True \<rparr> \<and> rpcq stmts (pr_Body proc) (marshal_args ff (ci_Args inp)) db = (Inr raw, db')"
proof -
  from assms obtain stmts :: "goval stmt_log" where s: "Setup env (ci_WorkspaceID inp) (ci_PgRole inp) (ci_StatementTimeout inp)
      (ci_IdleInTxTimeout inp) [] = Inr stmts" and q: "rpcq stmts (pr_Body proc) (marshal_args ff (ci_Args inp)) db = (Inr raw, db')"
    by (auto simp: rpc_run_def in_tx_ok run_tx_def split: sum.splits prod.splits)
  from s have "session_of stmts = \<lparr> se_role = Some (ci_PgRole inp), se_workspace = Some (ci_WorkspaceID inp), se_public_only = True \<rparr>"
    using session_of_setup by (auto simp: Setup_ok)
  with q show ?thesis by blast
qed

lemma rpc_run_err:
  "rpc_run rpcq ff env proc inp db = (Inl e, db') \<Longrightarrow> db' = db \<or> pg_commit env \<noteq> None \<and> pg_landed env"
  by (auto simp: rpc_run_def in_tx_def split: option.splits sum.splits if_splits)

text \<open>The checks a call passes before anything is touched.\<close>

definition call_checked ::
  "'sc Registry \<Rightarrow> ('sc \<Rightarrow> (string \<times> goval) list option \<Rightarrow> go_error option) \<Rightarrow> CallInput \<Rightarrow> 'sc Procedure \<Rightarrow> bool" where
  "call_checked reg validate inp proc \<longleftrightarrow> reg (ci_Name inp) = Some proc
     \<and> (pr_RequiredRole proc = [] \<or> pr_RequiredRole proc = ci_PgRole inp)
     \<and> (\<exists>sc. pr_Schema proc = Some sc \<and> validate sc (ci_Args inp) = None)"

lemma Call_checked:
  assumes "call_checked reg validate inp proc"
  shows "Call reg validate cd rpcq ff ce inp idem db =
    (if ci_IdempotencyKey inp = [] then call_run cd rpcq ff ce proc inp idem db else
     case BeginOrReplay cd (ce_idem ce) 0 (ci_WorkspaceID inp) (ci_IdempotencyKey inp) (ci_RequestHash inp) day idem of
       (Inl e, idem1) \<Rightarrow> (Inl e, idem1, db, None)
     | (Inr r, idem1) \<Rightarrow>
        if id_Replay r then
          (Inr \<lparr> cr_Procedure = [], cr_Result = None, cr_DurationMS = 0, cr_Replay = True,
             cr_CachedStatus = id_StatusCode r, cr_CachedBody = Some (id_Body r) \<rparr>, idem1, db, None)
        else call_run cd rpcq ff ce proc inp idem1 db)"
  using assms by (auto simp: Call_def call_checked_def registry_Get_def)

lemma Call_unchecked:
  assumes "\<nexists>proc. call_checked reg validate inp proc"
  shows "\<exists>e. Call reg validate cd rpcq ff ce inp idem db = (Inl e, idem, db, None)"
  using assms by (auto simp: Call_def call_checked_def registry_Get_def split: option.splits)

lemma call_run_state:
  assumes "call_run cd rpcq ff ce proc inp idem db = (r, idem', db', warn)"
  obtains res where "rpc_run rpcq ff (ce_run ce) proc inp db = (res, db')"
    "case r of Inl e \<Rightarrow> res = Inl e | Inr x \<Rightarrow> res = Inr (cr_Result x) \<and> \<not> cr_Replay x \<and> cr_Procedure x = pr_Name proc"
    "if ci_IdempotencyKey inp = [] then idem' = idem \<and> warn = None
     else Complete cd (ce_complete ce) (ci_WorkspaceID inp) (ci_IdempotencyKey inp) (if is_ok res then 200 else 500)
       (stored_body (pr_Name proc) (case res of Inl e \<Rightarrow> None | Inr b \<Rightarrow> b) (Milliseconds (ce_elapsed ce))) (is_ok res) idem
       = (warn, idem')"
proof -
  obtain res d where "rpc_run rpcq ff (ce_run ce) proc inp db = (res, d)" by fastforce
  then show thesis using assms that[of res]
    by (cases res) (auto simp: call_run_def Let_def split: prod.splits if_splits)
qed

section \<open>Properties\<close>

text \<open>
  (C21) Dispatching a procedure: a call answers with a fresh result only if the
  procedure is registered, its required role (if any) is the key's role and
  the arguments satisfy its schema; then its body has run exactly once, with
  the arguments as its parameter, in a transaction under the key's role and
  workspace, and its effect is kept.  A replayed answer and a refusal leave
  the tenant database alone, a call that fails one of the checks leaves the
  idempotency table alone as well, and a failed run leaves the database
  unchanged unless a failing commit had landed.
\<close>

theorem Call_spec:
  fixes rpcq :: "goval stmt_log \<Rightarrow> string \<Rightarrow> string \<Rightarrow> 'db \<Rightarrow> bytes option result \<times> 'db"
  assumes "Call reg validate cd rpcq ff ce inp idem db = (r, idem', db', warn)"
  shows "case r of
     Inr x \<Rightarrow>
       if cr_Replay x then db' = db
       else \<exists>proc sc stmts. reg (ci_Name inp) = Some proc
         \<and> (pr_RequiredRole proc = [] \<or> pr_RequiredRole proc = ci_PgRole inp)
         \<and> pr_Schema proc = Some sc \<and> validate sc (ci_Args inp) = None
         \<and> session_of stmts = \<lparr> se_role = Some (ci_PgRole inp), se_workspace = Some (ci_WorkspaceID inp), se_public_only = True \<rparr>
         \<and> rpcq stmts (pr_Body proc) (marshal_args ff (ci_Args inp)) db = (Inr (cr_Result x), db')
   | Inl e \<Rightarrow> (db' = db \<or> pg_commit (ce_run ce) \<noteq> None \<and> pg_landed (ce_run ce))
       \<and> ((\<nexists>proc. call_checked reg validate inp proc) \<longrightarrow> idem' = idem \<and> db' = db)"
proof (cases "\<exists>proc. call_checked reg validate inp proc")
  case False
  then show ?thesis using Call_unchecked[OF False, of cd rpcq ff ce idem db] assms by auto
next
  case True
  then obtain proc where p: "call_checked reg validate inp proc" by blast
  have run: ?thesis if c: "call_run cd rpcq ff ce proc inp i db = (r, idem', db', warn)" for i
  proof -
    from c obtain res where R: "rpc_run rpcq ff (ce_run ce) proc inp db = (res, db')"
      "case r of Inl e \<Rightarrow> res = Inl e | Inr x \<Rightarrow> res = Inr (cr_Result x) \<and> \<not> cr_Replay x \<and> cr_Procedure x = pr_Name proc"
      by (rule call_run_state)
    show ?thesis
    proof (cases r)
      case (Inl e)
      then show ?thesis using R rpc_run_err[of rpcq ff "ce_run ce" proc inp db e db'] True by auto
    next
      case (Inr x)
      then show ?thesis using R rpc_run_ok[of rpcq ff "ce_run ce" proc inp db "cr_Result x" db'] p
        by (fastforce simp: call_checked_def)
    qed
  qed
  show ?thesis
  proof (cases "\<exists>i. call_run cd rpcq ff ce proc inp i db = (r, idem', db', warn)")
    case False
    then have "db' = db \<and> (case r of Inl e \<Rightarrow> True | Inr x \<Rightarrow> cr_Replay x)"
      using assms unfolding Call_checked[OF p] by (auto split: if_splits sum.splits prod.splits)
    then show ?thesis using True by (auto split: sum.splits)
  qed (use run in blast)
qed

text \<open>A registry with one procedure that returns its arguments and counts its runs.\<close>

definition sample_proc :: "unit Procedure" where
  "sample_proc = \<lparr> pr_Name = ''p'', pr_Version = 1, pr_Description = [], pr_RequiredRole = ''dbuser'',
     pr_BodyPath = [], pr_Body = ''SELECT $1'', pr_Schema = Some () \<rparr>"

definition sample_reg :: "unit Registry" where
  "sample_reg = snd (Register (Some sample_proc) NewRegistry)"

definition sample_rpcq :: "goval stmt_log \<Rightarrow> string \<Rightarrow> string \<Rightarrow> nat \<Rightarrow> bytes option result \<times> nat" where
  "sample_rpcq stmts body a n = (Inr (Some a), Suc n)"

definition sample_call :: "string \<Rightarrow> CallInput" where
  "sample_call k = \<lparr> ci_WorkspaceID = ''w'', ci_PgRole = ''dbuser'', ci_Name = ''p'', ci_Args = Some [],
     ci_IdempotencyKey = k, ci_RequestHash = ''h'', ci_StatementTimeout = 0, ci_IdleInTxTimeout = 0 \<rparr>"

definition sample_ce :: "instant \<Rightarrow> call_env" where
  "sample_ce t = \<lparr> ce_idem = (\<lambda>_. fine_pass t ''1''), ce_run = pg_fine t, ce_complete = pg_fine t, ce_elapsed = 0 \<rparr>"

lemma sample_checked: "call_checked sample_reg (\<lambda>_ _. None) (sample_call k) sample_proc"
  by (simp add: call_checked_def sample_reg_def Register_def sample_proc_def sample_call_def)

lemma sample_rpc_run:
  "rpc_run sample_rpcq ff (pg_fine t) sample_proc (sample_call k) n = (Inr (Some ''{}''), Suc n)"
proof -
  have "isSafeRoleName ''dbuser''" by (simp add: isSafeRoleName_iff safe_role_rune_def)
  then obtain stmts :: "goval stmt_log" where "Setup (pg_fine t) ''w'' ''dbuser'' 0 0 [] = Inr stmts"
    unfolding Setup_ok by auto
  then show ?thesis
    by (simp add: rpc_run_def in_tx_def run_tx_def sample_call_def sample_rpcq_def marshal_args_def marshal_any_def)
qed

definition sample_result :: "instant \<Rightarrow> CallResult" where
  "sample_result t = \<lparr> cr_Procedure = ''p'', cr_Result = Some ''{}'', cr_DurationMS = 0, cr_Replay = False,
     cr_CachedStatus = 0, cr_CachedBody = None \<rparr>"

lemma sample_call_key [simp]: "ci_IdempotencyKey (sample_call k) = k" "ci_WorkspaceID (sample_call k) = ''w''"
  "ci_RequestHash (sample_call k) = ''h''"
  by (simp_all add: sample_call_def)

lemma sample_call_run:
  "call_run cd sample_rpcq ff (sample_ce t) sample_proc (sample_call k) idem n =
    (let c = (if k = [] then (None, idem) else Complete cd (pg_fine t) ''w'' k 200 (stored_body ''p'' (Some ''{}'') 0) True idem)
     in (Inr (sample_result t), snd c, Suc n, fst c))"
  by (simp add: call_run_def sample_ce_def sample_rpc_run sample_result_def Milliseconds_def split: prod.split)
    (simp add: sample_proc_def)

theorem Call_spec_witness:
  "\<exists>stmts. session_of stmts = \<lparr> se_role = Some ''dbuser'', se_workspace = Some ''w'', se_public_only = True \<rparr>
    \<and> sample_rpcq stmts ''SELECT $1'' ''{}'' 6 = (Inr (Some ''{}''), 7)"
proof -
  have c: "Call sample_reg (\<lambda>_ _. None) plain_codec sample_rpcq (\<lambda>_. []) (sample_ce 0) (sample_call [])
      empty_idem 6 = (Inr (sample_result 0), empty_idem, 7, None)"
    by (simp add: Call_checked[OF sample_checked] sample_call_run)
  from Call_spec[OF c] show ?thesis
    by (auto simp: sample_reg_def Register_def sample_proc_def sample_call_def marshal_args_def marshal_any_def
        sample_result_def)
qed



end
