(* ===== verification/Validator.thy ===== *)
theory Validator
  imports GoErrors
begin

text \<open>
  The static SQL checks (\<^verbatim>\<open>internal/sql/validator.go\<close>).  The Postgres parser and
  scanner (\<^verbatim>\<open>pg_query_go\<close>) are parameters: \<open>parse\<close> gives an error or the top-level
  statement nodes, \<open>scan\<close> an error or the byte ranges of the tokens.
\<close>

section \<open>Syntax nodes the validator tells apart\<close>

text \<open>A DML node carries the length of its RETURNING list.\<close>

datatype pg_node =
    Node_SelectStmt
  | Node_InsertStmt nat
  | Node_UpdateStmt nat
  | Node_DeleteStmt nat
  | Node_CreateStmt
  | Node_CreateRoleStmt
  | Node_CreatedbStmt
  | Node_DropStmt
  | Node_AlterTableStmt
  | Node_AlterRoleStmt
  | Node_GrantStmt
  | Node_GrantRoleStmt
  | Node_VacuumStmt
  | Node_ExplainStmt
  | Node_TruncateStmt
  | Node_CopyStmt
  | Node_TransactionStmt
  | Node_IndexStmt
  | Node_ViewStmt
  | Node_CreateExtensionStmt
  | Node_RenameStmt
  | Node_VariableSetStmt
  | Node_VariableShowStmt
  | Node_Other

record ValidatorConfig =
  vcf_MaxStatementBytes :: int
  vcf_MaxStatementParams :: int

definition NewValidator :: "ValidatorConfig \<Rightarrow> ValidatorConfig" where
  "NewValidator cfg =
    (let cfg1 = (if vcf_MaxStatementBytes cfg \<le> 0 then cfg\<lparr>vcf_MaxStatementBytes := 256 * 1024\<rparr> else cfg)
     in if vcf_MaxStatementParams cfg1 \<le> 0 then cfg1\<lparr>vcf_MaxStatementParams := 1000\<rparr> else cfg1)"

record Result =
  rs_Command :: string
  rs_IsSelect :: bool
  rs_HasReturning :: bool
  rs_PlaceholderCount :: int

section \<open>Classification\<close>

fun classify_node :: "pg_node \<Rightarrow> string" where
  "classify_node Node_SelectStmt = ''SELECT''"
| "classify_node (Node_InsertStmt _) = ''INSERT''"
| "classify_node (Node_UpdateStmt _) = ''UPDATE''"
| "classify_node (Node_DeleteStmt _) = ''DELETE''"
| "classify_node Node_CreateStmt = ''CREATE TABLE''"
| "classify_node Node_CreateRoleStmt = ''CREATE ROLE''"
| "classify_node Node_CreatedbStmt = ''CREATE DATABASE''"
| "classify_node Node_DropStmt = ''DROP''"
| "classify_node Node_AlterTableStmt = ''ALTER TABLE''"
| "classify_node Node_AlterRoleStmt = ''ALTER ROLE''"
| "classify_node Node_GrantStmt = ''GRANT''"
| "classify_node Node_GrantRoleStmt = ''GRANT ROLE''"
| "classify_node Node_VacuumStmt = ''VACUUM''"
| "classify_node Node_ExplainStmt = ''EXPLAIN''"
| "classify_node Node_TruncateStmt = ''TRUNCATE''"
| "classify_node Node_CopyStmt = ''COPY''"
| "classify_node Node_TransactionStmt = ''TRANSACTION''"
| "classify_node Node_IndexStmt = ''CREATE INDEX''"
| "classify_node Node_ViewStmt = ''CREATE VIEW''"
| "classify_node Node_CreateExtensionStmt = ''CREATE EXTENSION''"
| "classify_node Node_RenameStmt = ''RENAME''"
| "classify_node Node_VariableSetStmt = ''SET''"
| "classify_node Node_VariableShowStmt = ''SHOW''"
| "classify_node Node_Other = ''OTHER''"

definition classify :: "pg_node option \<Rightarrow> string" where
  "classify node = (case node of None \<Rightarrow> ''UNKNOWN'' | Some n \<Rightarrow> classify_node n)"

fun returningPresent :: "pg_node option \<Rightarrow> bool" where
  "returningPresent None = False"
| "returningPresent (Some (Node_InsertStmt n)) = (n > 0)"
| "returningPresent (Some (Node_UpdateStmt n)) = (n > 0)"
| "returningPresent (Some (Node_DeleteStmt n)) = (n > 0)"
| "returningPresent (Some _) = False"

section \<open>Placeholders\<close>

text \<open>The number a token stands for, if it is a placeholder: the body of the loop.\<close>

definition placeholder_of :: "string \<Rightarrow> int \<times> int \<Rightarrow> int option" where
  "placeholder_of sqlText tok =
    (case tok of (start, fin) \<Rightarrow>
      if start < 0 \<or> fin > int (length sqlText) \<or> start \<ge> fin then None else
      let text = take (nat (fin - start)) (drop (nat start) sqlText) in
      if length text < 2 \<or> text ! 0 \<noteq> CHR ''$'' then None else Atoi (drop 1 text))"

fun max_placeholder :: "string \<Rightarrow> int \<Rightarrow> (int \<times> int) list \<Rightarrow> int" where
  "max_placeholder sqlText m [] = m"
| "max_placeholder sqlText m (tok # toks) =
    (case placeholder_of sqlText tok of
       None \<Rightarrow> max_placeholder sqlText m toks
     | Some n \<Rightarrow> max_placeholder sqlText (if n > m then n else m) toks)"

definition countPlaceholders :: "(string \<Rightarrow> (int \<times> int) list result) \<Rightarrow> string \<Rightarrow> int result" where
  "countPlaceholders scan sqlText =
    (case scan sqlText of Inl e \<Rightarrow> Inl e | Inr toks \<Rightarrow> Inr (max_placeholder sqlText 0 toks))"

section \<open>Validate\<close>

definition Validate ::
  "(string \<Rightarrow> pg_node option list option result) \<Rightarrow> (string \<Rightarrow> (int \<times> int) list result)
    \<Rightarrow> ValidatorConfig \<Rightarrow> string \<Rightarrow> 'v list \<Rightarrow> Result result" where
  "Validate parse scan cfg sqlText params =
    (if sqlText = [] then Inl (ValidationError ''empty_statement'' ''sql is empty'') else
     if int (length sqlText) > vcf_MaxStatementBytes cfg then
       Inl (ValidationError ''statement_too_large''
         (''statement is '' @ Itoa (int (length sqlText)) @ '' bytes (max '' @ Itoa (vcf_MaxStatementBytes cfg) @ '')'')) else
     if int (length params) > vcf_MaxStatementParams cfg then
       Inl (ValidationError ''too_many_params''
         (''got '' @ Itoa (int (length params)) @ '' params (max '' @ Itoa (vcf_MaxStatementParams cfg) @ '')'')) else
     case parse sqlText of Inl e \<Rightarrow> Inl (ValidationError ''parse_error'' (error_text e)) | Inr tree \<Rightarrow>
     if tree = None \<or> tree = Some [] then Inl (ValidationError ''empty_statement'' ''no statement found'') else
     if length (the tree) \<noteq> 1 then
       Inl (ValidationError ''multiple_statements''
         (''expected 1 statement, got '' @ Itoa (int (length (the tree))) @ '' (use one POST per statement)'')) else
     let stmt = hd (the tree); cmd = classify stmt; isSelect = (cmd = ''SELECT'');
         hasReturning = returningPresent stmt in
     case countPlaceholders scan sqlText of
       Inl e \<Rightarrow> Inl (ValidationError ''parse_error'' (error_text e)) | Inr placeholders \<Rightarrow>
     if placeholders \<noteq> int (length params) then
       Inl (ValidationError ''params_mismatch''
         (''statement has '' @ Itoa placeholders @ '' $N placeholders but '' @ Itoa (int (length params))
          @ '' params were supplied'')) else
     Inr \<lparr> rs_Command = cmd, rs_IsSelect = isSelect, rs_HasReturning = hasReturning,
           rs_PlaceholderCount = placeholders \<rparr>)"

section \<open>Lemmas\<close>

lemma max_placeholder_eq:
  "max_placeholder s m toks = fold max (List.map_filter (placeholder_of s) toks) m"
  by (induction s m toks rule: max_placeholder.induct)
    (auto simp: List.map_filter_def max_def split: option.splits)

lemma countPlaceholders_Max:
  "countPlaceholders scan s =
    (case scan s of Inl e \<Rightarrow> Inl e
     | Inr toks \<Rightarrow> Inr (Max (insert 0 {n. \<exists>tok\<in>set toks. placeholder_of s tok = Some n})))"
proof -
  have "set (List.map_filter (placeholder_of s) toks) = {n. \<exists>tok\<in>set toks. placeholder_of s tok = Some n}" for toks
    by (induction toks) (auto simp: List.map_filter_def split: option.splits)
  then have "max_placeholder s 0 toks = Max (insert 0 {n. \<exists>tok\<in>set toks. placeholder_of s tok = Some n})" for toks
    using Max.set_eq_fold[of 0 "List.map_filter (placeholder_of s) toks"] by (simp add: max_placeholder_eq)
  then show ?thesis by (simp add: countPlaceholders_def split: sum.split)
qed

lemma IsSelect_iff: "classify stmt = ''SELECT'' \<longleftrightarrow> stmt = Some Node_SelectStmt"
proof (cases stmt)
  case (Some n)
  then show ?thesis by (cases n) (simp_all add: classify_def)
qed (simp add: classify_def)

text \<open>The count is the largest number, not the number of distinct placeholders.\<close>

lemma placeholder_count_is_max:
  "countPlaceholders (\<lambda>_. Inr [(0, 6), (7, 9)]) ''SELECT $2'' = Inr 2"
  by (simp add: countPlaceholders_def placeholder_of_def Atoi_def parse_int_def all_digits_def is_digit_def read_nat_def has_prefix_def)

section \<open>Properties\<close>


end
