(* ===== verification/Executor.thy ===== *)
theory Executor
  imports Tenant Validator
begin

text \<open>
  Running validated SQL (\<^verbatim>\<open>internal/sql/executor.go\<close>): one transaction per request,
  under the session the tenant setup establishes, with the rows read back
  for a SELECT or a RETURNING clause.

  What Postgres does with the client's own statement is a parameter
  (\<open>pg_user\<close>): given the statements already run in the transaction, the text
  and its arguments, it answers and changes the tenant database.
\<close>

section \<open>Types\<close>

record ExecutorConfig =
  ec_StatementTimeout :: duration
  ec_IdleInTxTimeout :: duration
  ec_MaxResponseBytes :: int

definition second :: duration where "second = 1000000000"

definition NewExecutor :: "ExecutorConfig \<Rightarrow> ExecutorConfig" where
  "NewExecutor cfg =
    (let cfg1 = (if ec_StatementTimeout cfg \<le> 0 then cfg\<lparr>ec_StatementTimeout := 5 * second\<rparr> else cfg)
     in if ec_IdleInTxTimeout cfg1 \<le> 0 then cfg1\<lparr>ec_IdleInTxTimeout := 5 * second\<rparr> else cfg1)"

record 'v Response =
  re_Command :: string
  re_Columns :: "string list"
  re_Rows :: "'v list list"
  re_RowsAffected :: int
  re_DurationMS :: int

record 'v ExecuteInput =
  ei_WorkspaceID :: string
  ei_PgRole :: string
  ei_SQL :: string
  ei_Params :: "'v list"
  ei_Result :: "Result option"

text \<open>A row set: column names, the rows as \<^verbatim>\<open>rows.Values\<close> gives them, and \<^verbatim>\<open>rows.Err\<close>.\<close>

record 'v query_out =
  qo_columns :: "string list"
  qo_rows :: "'v list result list"
  qo_err :: "go_error option"

record ('v, 'db) pg_user =
  pu_query :: "'v stmt_log \<Rightarrow> string \<Rightarrow> 'v list \<Rightarrow> 'db \<Rightarrow> 'v query_out result \<times> 'db"
  pu_exec :: "'v stmt_log \<Rightarrow> string \<Rightarrow> 'v list \<Rightarrow> 'db \<Rightarrow> int result \<times> 'db"

section \<open>Execute\<close>

text \<open>The loop over \<^verbatim>\<open>rows.Next\<close>; \<open>marshal\<close> is \<^verbatim>\<open>json.Marshal\<close> of one row.\<close>

fun read_rows :: "int \<Rightarrow> ('v list \<Rightarrow> bytes) \<Rightarrow> int \<Rightarrow> 'v list list \<Rightarrow> 'v list result list \<Rightarrow> 'v list list result" where
  "read_rows lim marshal approx acc [] = Inr acc"
| "read_rows lim marshal approx acc (Inl e # rs) = Inl (classifyPgErr e)"
| "read_rows lim marshal approx acc (Inr vals # rs) =
    (if lim > 0 then
       (let approx1 = approx + int (length (marshal vals)) + 1 in
        if approx1 > lim then Inl (Sentinel ErrResponseTooLarge)
        else read_rows lim marshal approx1 (acc @ [vals]) rs)
     else read_rows lim marshal approx (acc @ [vals]) rs)"

definition execute_tx ::
  "ExecutorConfig \<Rightarrow> ('v, 'db) pg_user \<Rightarrow> ('v list \<Rightarrow> bytes) \<Rightarrow> pg_env \<Rightarrow> 'v ExecuteInput \<Rightarrow> Result \<Rightarrow> 'db
    \<Rightarrow> ('v Response \<times> 'db) result" where
  "execute_tx cfg pu marshal env inp res db =
    (let resp = \<lparr> re_Command = rs_Command res, re_Columns = [], re_Rows = [], re_RowsAffected = 0,
                  re_DurationMS = 0 \<rparr> in
     case Setup env (ei_WorkspaceID inp) (ei_PgRole inp) (ec_StatementTimeout cfg) (ec_IdleInTxTimeout cfg) [] of
       Inl e \<Rightarrow> Inl (Errorf ''tenant setup: '' e '''')
     | Inr log \<Rightarrow>
     if rs_IsSelect res \<or> rs_HasReturning res then
       (case pu_query pu log (ei_SQL inp) (ei_Params inp) db of
          (Inl e, _) \<Rightarrow> Inl (classifyPgErr e)
        | (Inr q, db') \<Rightarrow>
            (case read_rows (ec_MaxResponseBytes cfg) marshal 0 [] (qo_rows q) of
               Inl e \<Rightarrow> Inl e
             | Inr rows \<Rightarrow>
                (case qo_err q of Some e \<Rightarrow> Inl (classifyPgErr e)
                 | None \<Rightarrow> Inr (resp\<lparr>re_Columns := qo_columns q, re_Rows := rows,
                                    re_RowsAffected := int (length rows)\<rparr>, db'))))
     else
       (case pu_exec pu log (ei_SQL inp) (ei_Params inp) db of
          (Inl e, _) \<Rightarrow> Inl (classifyPgErr e)
        | (Inr n, db') \<Rightarrow> Inr (resp\<lparr>re_RowsAffected := n\<rparr>, db')))"

text \<open>\<open>elapsed\<close> is the time from the start to the end of the call.\<close>

definition Execute ::
  "ExecutorConfig \<Rightarrow> ('v, 'db) pg_user \<Rightarrow> ('v list \<Rightarrow> bytes) \<Rightarrow> pg_env \<Rightarrow> duration \<Rightarrow> 'v ExecuteInput \<Rightarrow> 'db
    \<Rightarrow> 'v Response result \<times> 'db" where
  "Execute cfg pu marshal env elapsed inp db =
    (case ei_Result inp of None \<Rightarrow> (Inl (Opaque ''executor.Execute: nil validator result''), db)
     | Some res \<Rightarrow>
     let env' = env\<lparr>pg_begin := map_option (\<lambda>e. Errorf ''begin: '' e '''') (pg_begin env),
                    pg_commit := map_option classifyPgErr (pg_commit env)\<rparr> in
     case in_tx env' (execute_tx cfg pu marshal env' inp res) db of
       (Inl e, db') \<Rightarrow> (Inl e, db')
     | (Inr resp, db') \<Rightarrow> (Inr (resp\<lparr>re_DurationMS := Milliseconds elapsed\<rparr>), db'))"

section \<open>Lemmas\<close>

definition rows_size :: "('v list \<Rightarrow> bytes) \<Rightarrow> 'v list list \<Rightarrow> int" where
  "rows_size marshal vs = (\<Sum>v\<leftarrow>vs. int (length (marshal v)) + 1)"

lemma rows_size_simps [simp]:
  "rows_size marshal [] = 0"
  "rows_size marshal (v # vs) = int (length (marshal v)) + 1 + rows_size marshal vs"
  by (simp_all add: rows_size_def)

lemma rows_size_nonneg: "0 \<le> rows_size marshal vs"
  by (induction vs) auto

lemma read_rows_ok:
  assumes "read_rows lim marshal approx acc rs = Inr out" "lim > 0 \<Longrightarrow> approx \<le> lim"
  shows "\<exists>vs. rs = map Inr vs \<and> out = acc @ vs \<and> (lim > 0 \<longrightarrow> approx + rows_size marshal vs \<le> lim)"
  using assms
proof (induction lim marshal approx acc rs rule: read_rows.induct)
  case (3 lim marshal approx acc vals rs)
  show ?case
  proof (cases "lim > 0")
    case True
    let ?a = "approx + int (length (marshal vals)) + 1"
    have le: "?a \<le> lim" using 3(3) True by (simp add: Let_def split: if_splits)
    then obtain vs where "rs = map Inr vs" "out = (acc @ [vals]) @ vs" "?a + rows_size marshal vs \<le> lim"
      using 3(1)[OF True refl] 3(3) True by (auto simp: Let_def)
    then show ?thesis by (intro exI[of _ "vals # vs"]) simp
  next
    case False
    then obtain vs where "rs = map Inr vs" "out = (acc @ [vals]) @ vs" using 3 by auto
    with False show ?thesis by (intro exI[of _ "vals # vs"]) simp
  qed
qed simp_all

lemma read_rows_fits:
  "lim > 0 \<longrightarrow> approx + rows_size marshal vs \<le> lim \<Longrightarrow> read_rows lim marshal approx acc (map Inr vs) = Inr (acc @ vs)"
proof (induction vs arbitrary: approx acc)
  case (Cons v vs)
  have "0 \<le> rows_size marshal vs" by (rule rows_size_nonneg)
  with Cons.prems Cons.IH[of "approx + int (length (marshal v)) + 1" "acc @ [v]"] Cons.IH[of approx "acc @ [v]"]
  show ?case by (auto simp: Let_def)
qed simp

section \<open>Properties\<close>

text \<open>
  (C3) Executing a statement: when Execute answers, the client's statement ran
  exactly once, in a transaction whose session has the key's role and
  workspace, its effect is kept, and the response has its columns, all of
  its rows in order and their number (or the affected count when no rows
  are read); with a size limit set, the rows it holds are within it.  When
  Execute fails, the tenant database is unchanged, except that a failed
  commit may have landed with the statement's full effect.
\<close>

theorem Execute_spec:
  fixes pu :: "('v, 'db) pg_user"
  assumes "ei_Result inp = Some res" "Execute cfg pu marshal env elapsed inp db = (r, db')"
  shows "case r of
     Inl e \<Rightarrow> db' = db \<or> pg_commit env \<noteq> None \<and> pg_landed env
   | Inr resp \<Rightarrow> \<exists>log. session_of log = \<lparr> se_role = Some (ei_PgRole inp),
           se_workspace = Some (ei_WorkspaceID inp), se_public_only = True \<rparr>
       \<and> re_Command resp = rs_Command res
       \<and> (if rs_IsSelect res \<or> rs_HasReturning res
          then (\<exists>q. pu_query pu log (ei_SQL inp) (ei_Params inp) db = (Inr q, db') \<and> qo_err q = None
                  \<and> re_Columns resp = qo_columns q \<and> qo_rows q = map Inr (re_Rows resp)
                  \<and> re_RowsAffected resp = int (length (re_Rows resp))
                  \<and> (ec_MaxResponseBytes cfg > 0 \<longrightarrow> rows_size marshal (re_Rows resp) \<le> ec_MaxResponseBytes cfg))
          else pu_exec pu log (ei_SQL inp) (ei_Params inp) db = (Inr (re_RowsAffected resp), db') \<and> re_Rows resp = [])"
proof -
  define env' where "env' = env\<lparr>pg_begin := map_option (\<lambda>e. Errorf ''begin: '' e '''') (pg_begin env),
                    pg_commit := map_option classifyPgErr (pg_commit env)\<rparr>"
  obtain r1 d1 where t: "in_tx env' (execute_tx cfg pu marshal env' inp res) db = (r1, d1)" by fastforce
  show ?thesis
  proof (cases r1)
    case (Inl e)
    then have "r = Inl e" "db' = d1" using assms t by (auto simp: Execute_def env'_def)
    with t Inl show ?thesis
      by (auto simp: in_tx_def env'_def split: option.splits sum.splits if_splits)
  next
    case (Inr resp0)
    then have r: "r = Inr (resp0\<lparr>re_DurationMS := Milliseconds elapsed\<rparr>)" "db' = d1"
      using assms t by (auto simp: Execute_def env'_def)
    from t Inr have x: "execute_tx cfg pu marshal env' inp res db = Inr (resp0, db')"
      by (simp add: in_tx_ok r)
    then obtain log :: "'v stmt_log" where s: "Setup env' (ei_WorkspaceID inp) (ei_PgRole inp) (ec_StatementTimeout cfg)
        (ec_IdleInTxTimeout cfg) [] = Inr log"
      by (auto simp: execute_tx_def Let_def split: sum.splits)
    then have se: "session_of log = \<lparr> se_role = Some (ei_PgRole inp),
           se_workspace = Some (ei_WorkspaceID inp), se_public_only = True \<rparr>"
      using session_of_setup by (auto simp: Setup_ok)
    show ?thesis
    proof (cases "rs_IsSelect res \<or> rs_HasReturning res")
      case True
      with x s obtain q rows where "pu_query pu log (ei_SQL inp) (ei_Params inp) db = (Inr q, db')"
        "read_rows (ec_MaxResponseBytes cfg) marshal 0 [] (qo_rows q) = Inr rows" "qo_err q = None"
        "re_Columns resp0 = qo_columns q" "re_Rows resp0 = rows" "re_RowsAffected resp0 = int (length rows)"
        "re_Command resp0 = rs_Command res"
        by (auto simp: execute_tx_def Let_def split: sum.splits option.splits prod.splits)
      with se True r read_rows_ok[of "ec_MaxResponseBytes cfg" marshal 0 "[]" "qo_rows q" rows]
      show ?thesis by auto
    next
      case False
      with x s se r show ?thesis
        by (auto simp: execute_tx_def Let_def split: sum.splits prod.splits)
    qed
  qed
qed

text \<open>A tenant database that is a counter, incremented by a statement that returns one row.\<close>

definition sample_user :: "(nat, nat) pg_user" where
  "sample_user = \<lparr> pu_query = (\<lambda>log sql ps n. (Inr \<lparr>qo_columns = [''n''], qo_rows = [Inr [n]], qo_err = None\<rparr>, n + 1)),
     pu_exec = (\<lambda>log sql ps n. (Inr 1, n + 1)) \<rparr>"

definition sample_exec_cfg :: ExecutorConfig where
  "sample_exec_cfg = \<lparr>ec_StatementTimeout = 5000000000, ec_IdleInTxTimeout = 5000000000, ec_MaxResponseBytes = 10\<rparr>"

definition sample_input :: "nat ExecuteInput" where
  "sample_input = \<lparr> ei_WorkspaceID = ''w1'', ei_PgRole = ''dbuser'', ei_SQL = ''INSERT'', ei_Params = [],
     ei_Result = Some \<lparr>rs_Command = ''INSERT'', rs_IsSelect = False, rs_HasReturning = True, rs_PlaceholderCount = 0\<rparr> \<rparr>"

lemma safe_dbuser: "isSafeRoleName ''dbuser''"
  by (simp add: isSafeRoleName_iff safe_role_rune_def)

lemma tenant_exec_env: "tenant_exec (env\<lparr>pg_begin := b, pg_commit := c\<rparr>) = tenant_exec env"
  by (simp add: fun_eq_iff tenant_exec_def)

lemma Setup_env:
  "Setup (env\<lparr>pg_begin := b, pg_commit := c\<rparr>) w role st idl log = Setup env w role st idl log"
  by (simp only: Setup_def tenant_exec_env)

lemma sample_setup_fine: "\<exists>log. Setup (pg_fine t) ''w1'' ''dbuser'' st idl [] = Inr log"
  using safe_dbuser by (simp add: Setup_ok)

theorem Execute_spec_witness:
  "\<exists>resp. Execute sample_exec_cfg sample_user (\<lambda>v. ''[7]'') (pg_fine 0) 2000000 sample_input 7 = (Inr resp, 8)
    \<and> re_Rows resp = [[7]] \<and> re_RowsAffected resp = 1"
proof -
  obtain log :: "nat stmt_log" where "Setup (pg_fine 0) ''w1'' ''dbuser'' 5000000000 5000000000 [] = Inr log"
    using sample_setup_fine by blast
  then obtain resp where e: "Execute sample_exec_cfg sample_user (\<lambda>v. ''[7]'') (pg_fine 0) 2000000 sample_input 7 = (Inr resp, 8)"
    by (simp add: Execute_def in_tx_def execute_tx_def Setup_env sample_user_def sample_exec_cfg_def sample_input_def)
  have "ei_Result sample_input = Some (the (ei_Result sample_input))" by (simp add: sample_input_def)
  from Execute_spec[OF this e] e show ?thesis
    by (auto simp: sample_input_def sample_user_def)
qed

end
