(* ===== verification/Api.thy ===== *)
theory Api
  imports AuditLog Rpc Executor
begin

text \<open>
  The HTTP API (\<^verbatim>\<open>internal/httpapi/api.go\<close>): the route handlers, what they do to the
  state of the gateway, and the table of routes behind authentication and
  rate limiting.

  \<open>'v\<close> is the type of the driver's values; a decoded JSON parameter becomes one
  by \<open>dp_any\<close>, and \<open>dp_cell\<close> is its JSON form, if it has one.
\<close>

section \<open>State, wiring and environment\<close>

record ('l, 'm, 'db) gateway_world = "('l, 'm) obs_world" +
  gw_keys :: key_db
  gw_idem :: idem_db
  gw_tenant :: 'db
  gw_audit :: "audit_row list"

record ('v, 'db, 'sc) Deps =
  dp_MaxResponseBodyBytes :: int
  dp_StatementTimeout :: duration
  dp_IdleInTxTimeout :: duration
  dp_KeyRotateOverlap :: duration
  dp_Version :: "string \<times> string \<times> string"
  dp_Auditor :: "Writer option"
  dp_Validator :: ValidatorConfig
  dp_Executor :: ExecutorConfig
  dp_Registry :: "'sc Registry"
  dp_parse :: "string \<Rightarrow> pg_node option list option result"
  dp_scan :: "string \<Rightarrow> (int \<times> int) list result"
  dp_schema :: "'sc \<Rightarrow> (string \<times> goval) list option \<Rightarrow> go_error option"
  dp_user :: "('v, 'db) pg_user"
  dp_rpcq :: "goval stmt_log \<Rightarrow> string \<Rightarrow> string \<Rightarrow> 'db \<Rightarrow> bytes option result \<times> 'db"
  dp_any :: "goval \<Rightarrow> 'v"
  dp_cell :: "'v \<Rightarrow> string option"
  dp_float :: "real \<Rightarrow> string"
  dp_jerr :: "bytes \<Rightarrow> string"
  dp_codec :: codec
  dp_idkey :: argon2

text \<open>Everything one request draws from outside.\<close>

record api_env =
  av_idem :: "nat \<Rightarrow> idem_env"
  av_complete :: pg_env
  av_exec :: pg_env
  av_exec_elapsed :: duration
  av_run :: pg_env
  av_run_elapsed :: duration
  av_keys :: pg_env
  av_mint :: mint_env
  av_audit :: pg_env
  av_audit_id :: string
  av_elapsed :: duration

definition call_env_of :: "api_env \<Rightarrow> call_env" where
  "call_env_of env = \<lparr> ce_idem = av_idem env, ce_run = av_run env, ce_complete = av_complete env,
     ce_elapsed = av_run_elapsed env \<rparr>"

section \<open>Request and response documents\<close>

record sqlExecuteRequest =
  sr_SQL :: string
  sr_Params :: "goval list option"

record rpcCallRequest =
  rr_Procedure :: string
  rr_Args :: "(string \<times> goval) list option"

record createKeyRequest =
  ck_WorkspaceID :: string
  ck_Env :: string
  ck_PgRole :: string
  ck_Name :: string

text \<open>A JSON null empties a slice or a map; a second object for a map adds to the first.\<close>

definition slice_field :: "(goval list option \<Rightarrow> 'a \<Rightarrow> 'a) \<Rightarrow> json \<Rightarrow> 'a \<Rightarrow> 'a option" where
  "slice_field upd v a =
    (case v of JNull \<Rightarrow> Some (upd None a)
     | JArr vs \<Rightarrow> map_option (\<lambda>xs. upd (Some xs) a) (opt_all (map to_any vs))
     | _ \<Rightarrow> None)"

definition map_field ::
  "('a \<Rightarrow> (string \<times> goval) list option) \<Rightarrow> ((string \<times> goval) list option \<Rightarrow> 'a \<Rightarrow> 'a) \<Rightarrow> json \<Rightarrow> 'a \<Rightarrow> 'a option" where
  "map_field old upd v a =
    (case v of JNull \<Rightarrow> Some (upd None a)
     | JObj ms \<Rightarrow> map_option (\<lambda>xs. upd (Some (fold (\<lambda>(k, x). map_put k x) (zip (map fst ms) xs)
           (case old a of None \<Rightarrow> [] | Some m \<Rightarrow> m))) a) (opt_all (map (\<lambda>m. to_any (snd m)) ms))
     | _ \<Rightarrow> None)"

definition decode_sql :: "json \<Rightarrow> sqlExecuteRequest option" where
  "decode_sql v = decode_struct (\<lambda>k m a.
     if field_is ''sql'' k then str_field (\<lambda>x a. a\<lparr>sr_SQL := x\<rparr>) m a
     else if field_is ''params'' k then slice_field (\<lambda>x a. a\<lparr>sr_Params := x\<rparr>) m a
     else Some a) v \<lparr> sr_SQL = [], sr_Params = None \<rparr>"

definition decode_rpc :: "json \<Rightarrow> rpcCallRequest option" where
  "decode_rpc v = decode_struct (\<lambda>k m a.
     if field_is ''procedure'' k then str_field (\<lambda>x a. a\<lparr>rr_Procedure := x\<rparr>) m a
     else if field_is ''args'' k then map_field rr_Args (\<lambda>x a. a\<lparr>rr_Args := x\<rparr>) m a
     else Some a) v \<lparr> rr_Procedure = [], rr_Args = None \<rparr>"

definition decode_create :: "json \<Rightarrow> createKeyRequest option" where
  "decode_create v = decode_struct (\<lambda>k m a.
     if field_is ''workspace_id'' k then str_field (\<lambda>x a. a\<lparr>ck_WorkspaceID := x\<rparr>) m a
     else if field_is ''env'' k then str_field (\<lambda>x a. a\<lparr>ck_Env := x\<rparr>) m a
     else if field_is ''pg_role'' k then str_field (\<lambda>x a. a\<lparr>ck_PgRole := x\<rparr>) m a
     else if field_is ''name'' k then str_field (\<lambda>x a. a\<lparr>ck_Name := x\<rparr>) m a
     else Some a) v \<lparr> ck_WorkspaceID = [], ck_Env = [], ck_PgRole = [], ck_Name = [] \<rparr>"

definition json_array :: "string list \<Rightarrow> string" where
  "json_array xs = ''['' @ json_join xs @ '']''"

text \<open>\<^verbatim>\<open>json.Marshal\<close> of a row and of a \<^verbatim>\<open>sql.Response\<close>; a cell without a JSON form is an error.\<close>

definition row_json :: "('v \<Rightarrow> string option) \<Rightarrow> 'v list \<Rightarrow> string option" where
  "row_json cell vs = map_option json_array (opt_all (map cell vs))"

definition response_json :: "('v \<Rightarrow> string option) \<Rightarrow> 'v Response \<Rightarrow> string option" where
  "response_json cell x =
    map_option (\<lambda>rows. json_object
      ([json_member ''command'' (json_string (re_Command x))]
       @ (if re_Columns x = [] then [] else [json_member ''columns'' (json_array (map json_string (re_Columns x)))])
       @ (if rows = [] then [] else [json_member ''rows'' (json_array rows)])
       @ [json_member ''rows_affected'' (Itoa (re_RowsAffected x)), json_member ''duration_ms'' (Itoa (re_DurationMS x))]))
     (opt_all (map (row_json cell) (re_Rows x)))"

text \<open>The error of Marshal is dropped where the source drops it: then there are no bytes.\<close>

definition no_bytes :: "string option \<Rightarrow> bytes" where
  "no_bytes x = (case x of None \<Rightarrow> [] | Some b \<Rightarrow> b)"

definition rotateKeyResponse :: "string \<Rightarrow> string \<Rightarrow> string \<Rightarrow> string" where
  "rotateKeyResponse newKeyID token notice = json_object [json_member ''new_key_id'' (json_string newKeyID),
     json_member ''token'' (json_string token), json_member ''notice'' (json_string notice)]"

definition version_json :: "string \<times> string \<times> string \<Rightarrow> string" where
  "version_json v = json_object [json_member ''version'' (json_string (fst v)),
     json_member ''commit'' (json_string (fst (snd v))), json_member ''build_date'' (json_string (snd (snd v)))]"

definition meResponse :: "WorkspaceContext \<Rightarrow> string \<times> string \<times> string \<Rightarrow> string" where
  "meResponse ws v = json_object [json_member ''workspace_id'' (json_string (ws_WorkspaceID ws)),
     json_member ''key_id'' (json_string (ws_KeyID ws)), json_member ''role'' (json_string (ws_PgRole ws)),
     json_member ''env'' (json_string (ws_Env ws)), json_member ''server'' (version_json v)]"

text \<open>\<^verbatim>\<open>base64.StdEncoding\<close>, with padding.\<close>

definition StdEncoding :: "bytes \<Rightarrow> string" where
  "StdEncoding b = RawStdEncoding b @ replicate ((3 - length b mod 3) mod 3) (CHR ''='')"

text \<open>A \<^verbatim>\<open>CallResult\<close>: the fields without tags are part of the document.\<close>

definition call_result_json :: "CallResult \<Rightarrow> string option" where
  "call_result_json x =
    map_option (\<lambda>res. json_object [json_member ''procedure'' (json_string (cr_Procedure x)), json_member ''result'' res,
      json_member ''duration_ms'' (Itoa (cr_DurationMS x)), json_member ''Replay'' (if cr_Replay x then ''true'' else ''false''),
      json_member ''CachedStatus'' (Itoa (cr_CachedStatus x)),
      json_member ''CachedBody'' (case cr_CachedBody x of None \<Rightarrow> ''null'' | Some b \<Rightarrow> json_string (StdEncoding b))])
     (raw_json (cr_Result x))"

section \<open>Auditing\<close>

definition clientIP :: "request \<Rightarrow> string" where
  "clientIP r = (case SplitHostPort (rq_RemoteAddr r) of None \<Rightarrow> rq_RemoteAddr r | Some (host, _) \<Rightarrow> host)"

definition api_entry ::
  "api_env \<Rightarrow> request \<Rightarrow> WorkspaceContext \<Rightarrow> string \<Rightarrow> string \<Rightarrow> string \<Rightarrow> goval list option \<Rightarrow> int \<Rightarrow> go_error option \<Rightarrow> Entry" where
  "api_entry env r ws endpoint command sqlText params st err =
    (let (errCode, sqlState) =
       (case err of None \<Rightarrow> ([], []) | Some _ \<Rightarrow> (p_Title (MapError err), p_SQLState (MapError err)))
     in \<lparr> au_RequestID = GetRequestID r, au_WorkspaceID = ws_WorkspaceID ws, au_KeyDBID = ws_KeyDBID ws,
          au_Endpoint = endpoint, au_Command = command, au_SQL = sqlText, au_Params = params,
          au_DurationMS = Milliseconds (av_elapsed env), au_StatusCode = st, au_ErrorCode = errCode,
          au_SQLState = sqlState, au_ClientIP = clientIP r \<rparr>)"

text \<open>Writing an entry, if there is an auditor.\<close>

definition write_entry ::
  "('v, 'db, 'sc) Deps \<Rightarrow> api_env \<Rightarrow> Entry \<Rightarrow> ('l, 'm, 'db, 'x) gateway_world_scheme \<Rightarrow> ('l, 'm, 'db, 'x) gateway_world_scheme" where
  "write_entry dp env e s =
    (case dp_Auditor dp of None \<Rightarrow> s
     | Some wr \<Rightarrow>
        (case audit_Write (cd_uuid (dp_codec dp)) (dp_float dp) (av_audit env) (av_audit_id env) wr (gw_keys s) e (gw_audit s) of
           (rows, ls) \<Rightarrow> s\<lparr>gw_audit := rows, ow_log := ow_log s @ ls\<rparr>))"

definition api_audit ::
  "('v, 'db, 'sc) Deps \<Rightarrow> api_env \<Rightarrow> request \<Rightarrow> WorkspaceContext \<Rightarrow> string \<Rightarrow> string \<Rightarrow> string \<Rightarrow> goval list option
    \<Rightarrow> int \<Rightarrow> go_error option \<Rightarrow> ('l, 'm, 'db, 'x) gateway_world_scheme \<Rightarrow> ('l, 'm, 'db, 'x) gateway_world_scheme" where
  "api_audit dp env r ws endpoint command sqlText params st err s =
    write_entry dp env (api_entry env r ws endpoint command sqlText params st err) s"

section \<open>POST /sql/execute\<close>

definition sql_endpoint :: string where "sql_endpoint = ''POST /v1/sql/execute''"

text \<open>\<^verbatim>\<open>Complete\<close>, when the request has an idempotency key; a failure is a warning.\<close>

definition sql_complete ::
  "('v, 'db, 'sc) Deps \<Rightarrow> api_env \<Rightarrow> request \<Rightarrow> WorkspaceContext \<Rightarrow> string \<Rightarrow> int \<Rightarrow> bytes \<Rightarrow> bool
    \<Rightarrow> ('l, 'm, 'db, 'x) gateway_world_scheme \<Rightarrow> ('l, 'm, 'db, 'x) gateway_world_scheme" where
  "sql_complete dp env r ws key st body good s =
    (if key = [] then s
     else case Complete (dp_codec dp) (av_complete env) (ws_WorkspaceID ws) key st body good (gw_idem s) of
       (None, i) \<Rightarrow> s\<lparr>gw_idem := i\<rparr>
     | (Some e, i) \<Rightarrow> emit (LogWarn ''idempotency complete failed'' e (GetRequestID r)) (s\<lparr>gw_idem := i\<rparr>))"

definition count_sql :: "string \<Rightarrow> string \<Rightarrow> ('l, 'm, 'x) obs_world_scheme \<Rightarrow> ('l, 'm, 'x) obs_world_scheme" where
  "count_sql cmd st = measure_by (\<lambda>m. m\<lparr>mt_SQLStatements := inc_at (cmd, st) (mt_SQLStatements m)\<rparr>)"

definition too_large :: Problem where
  "too_large = problem ''response_too_large'' 413 ''serialized response exceeds AGENTCOOPDB_MAX_RESPONSE_BODY_BYTES''"

text \<open>From the call of the executor to the end of the handler.\<close>

definition sql_run ::
  "('v, 'db, 'sc) Deps \<Rightarrow> api_env \<Rightarrow> WorkspaceContext \<Rightarrow> sqlExecuteRequest \<Rightarrow> Result \<Rightarrow> string
    \<Rightarrow> ('l, 'm, 'db, 'x) gateway_world_scheme handler" where
  "sql_run dp env ws req res key r w s =
    (let params = (case sr_Params req of None \<Rightarrow> [] | Some ps \<Rightarrow> ps);
         audit = api_audit dp env r ws sql_endpoint (rs_Command res) (sr_SQL req) (sr_Params req) in
     case Execute (dp_Executor dp) (dp_user dp) (\<lambda>vs. no_bytes (row_json (dp_cell dp) vs)) (av_exec env) (av_exec_elapsed env)
        \<lparr> ei_WorkspaceID = ws_WorkspaceID ws, ei_PgRole = ws_PgRole ws, ei_SQL = sr_SQL req,
          ei_Params = map (dp_any dp) params, ei_Result = Some res \<rparr> (gw_tenant s) of
       (Inl e, d) \<Rightarrow>
         let p = MapError (Some e) in
         Returned (WriteProblem p w)
           (sql_complete dp env r ws key (p_Status p) (json_problem p) False
             (count_sql (rs_Command res) (p_SQLState p) (audit (p_Status p) (Some e) (s\<lparr>gw_tenant := d\<rparr>))))
     | (Inr resp, d) \<Rightarrow>
         let body = no_bytes (response_json (dp_cell dp) resp); limit = dp_MaxResponseBodyBytes dp in
         if limit > 0 \<and> int (length body) > limit then
           Returned (WriteProblem too_large w)
             (sql_complete dp env r ws key 413 (json_problem too_large) False
               (count_sql (rs_Command res) ''00000''
                 (audit 413 (Some (Sentinel ErrResponseTooLarge)) (s\<lparr>gw_tenant := d\<rparr>))))
         else
           Returned (write_body body (write_header 200 (set_header ''Content-Type'' ''application/json'' w)))
             (count_sql (rs_Command res) ''00000''
               (audit 200 None (sql_complete dp env r ws key 200 body True (s\<lparr>gw_tenant := d\<rparr>)))))"

text \<open>Serving a stored response.\<close>

definition replay_response :: "int \<Rightarrow> bytes \<Rightarrow> response_writer \<Rightarrow> response_writer" where
  "replay_response st body w =
    write_body body (write_header st (set_header ''X-Idempotent-Replayed'' ''true''
      (set_header ''Content-Type'' ''application/json'' w)))"

definition count_hit :: "('l, 'm, 'x) obs_world_scheme \<Rightarrow> ('l, 'm, 'x) obs_world_scheme" where
  "count_hit = measure_by (\<lambda>m. m\<lparr>mt_IdempotencyHits := Suc (mt_IdempotencyHits m)\<rparr>)"

definition count_miss :: "('l, 'm, 'x) obs_world_scheme \<Rightarrow> ('l, 'm, 'x) obs_world_scheme" where
  "count_miss = measure_by (\<lambda>m. m\<lparr>mt_IdempotencyMisses := Suc (mt_IdempotencyMisses m)\<rparr>)"

text \<open>From the idempotency layer on.\<close>

definition sql_idem ::
  "('v, 'db, 'sc) Deps \<Rightarrow> api_env \<Rightarrow> WorkspaceContext \<Rightarrow> bytes \<Rightarrow> sqlExecuteRequest \<Rightarrow> Result
    \<Rightarrow> ('l, 'm, 'db, 'x) gateway_world_scheme handler" where
  "sql_idem dp env ws bodyBytes req res r w s =
    (let key = header_get (rq_Header r) ''Idempotency-Key'' in
     if key = [] then sql_run dp env ws req res key r w s
     else case BeginOrReplay (dp_codec dp) (av_idem env) 0 (ws_WorkspaceID ws) key
                (HashRequest (rq_Method r) (rq_Path r) bodyBytes) day (gw_idem s) of
       (Inl e, i) \<Rightarrow>
         if errors_is e ErrIdempotencyConflict
         then Returned (WriteProblem (problem ''idempotency_conflict'' 409 ''idempotency key was used with a different request body'') w)
                (s\<lparr>gw_idem := i\<rparr>)
         else Returned (WriteProblem (problem ''idempotency_internal'' 500 ''a request with this idempotency key is already in progress'') w)
                (s\<lparr>gw_idem := i\<rparr>)
     | (Inr ir, i) \<Rightarrow>
         if id_Replay ir
         then Returned (replay_response (id_StatusCode ir) (id_Body ir) w) (count_hit (s\<lparr>gw_idem := i\<rparr>))
         else sql_run dp env ws req res key r w (count_miss (s\<lparr>gw_idem := i\<rparr>)))"

definition handleSQLExecute ::
  "('v, 'db, 'sc) Deps \<Rightarrow> api_env \<Rightarrow> ('l, 'm, 'db, 'x) gateway_world_scheme handler" where
  "handleSQLExecute dp env = MustFromContext (\<lambda>ws r w s.
    case ReadAll (rq_Body r) of
      Inl e \<Rightarrow> Returned (WriteProblem (problem ''body_too_large'' 413 (error_text e)) w) s
    | Inr bodyBytes \<Rightarrow>
    case Unmarshal (dp_jerr dp) decode_sql bodyBytes of
      Inl e \<Rightarrow> Returned (WriteProblem (problem ''invalid_json'' 400 (error_text e)) w) s
    | Inr req \<Rightarrow>
    case Validate (dp_parse dp) (dp_scan dp) (dp_Validator dp) (sr_SQL req)
           (case sr_Params req of None \<Rightarrow> [] | Some ps \<Rightarrow> ps) of
      Inl e \<Rightarrow> Returned (WriteProblem (MapError (Some e)) w)
                (api_audit dp env r ws sql_endpoint [] (sr_SQL req) (sr_Params req) 400 (Some e) s)
    | Inr res \<Rightarrow> sql_idem dp env ws bodyBytes req res r w s)"

section \<open>POST /rpc/call\<close>

definition rpc_endpoint :: string where "rpc_endpoint = ''POST /v1/rpc/call''"

definition count_rpc :: "string \<Rightarrow> string \<Rightarrow> ('l, 'm, 'x) obs_world_scheme \<Rightarrow> ('l, 'm, 'x) obs_world_scheme" where
  "count_rpc name st = measure_by (\<lambda>m. m\<lparr>mt_RPCInvocations := inc_at (name, st) (mt_RPCInvocations m)\<rparr>)"

definition rpc_problem :: "go_error \<Rightarrow> Problem" where
  "rpc_problem e =
    (if errors_is e ErrUnknownProcedure then problem ''unknown_procedure'' 404 (error_text e)
     else if errors_is e ErrRoleNotPermitted then problem ''permission_denied'' 403 (error_text e)
     else if errors_is e ErrIdempotencyConflict then problem ''idempotency_conflict'' 409 (error_text e)
     else MapError (Some e))"

definition args_any :: "(string \<times> goval) list option \<Rightarrow> goval" where
  "args_any a = (case a of None \<Rightarrow> GNil | Some m \<Rightarrow> GMap m)"

text \<open>\<^verbatim>\<open>WriteJSON\<close> of a value that may have no JSON form: then only the header is sent.\<close>

definition write_json_opt :: "int \<Rightarrow> string option \<Rightarrow> response_writer \<Rightarrow> response_writer" where
  "write_json_opt st v w =
    (case v of Some j \<Rightarrow> WriteJSON st j w
     | None \<Rightarrow> write_header st (set_header ''Content-Type'' ''application/json'' w))"

definition handleRPCCall ::
  "('v, 'db, 'sc) Deps \<Rightarrow> api_env \<Rightarrow> ('l, 'm, 'db, 'x) gateway_world_scheme handler" where
  "handleRPCCall dp env = MustFromContext (\<lambda>ws r w s.
    case ReadAll (rq_Body r) of
      Inl e \<Rightarrow> Returned (WriteProblem (problem ''body_too_large'' 413 (error_text e)) w) s
    | Inr bodyBytes \<Rightarrow>
    case Unmarshal (dp_jerr dp) decode_rpc bodyBytes of
      Inl e \<Rightarrow> Returned (WriteProblem (problem ''invalid_json'' 400 (error_text e)) w) s
    | Inr req \<Rightarrow>
    case Call (dp_Registry dp) (dp_schema dp) (dp_codec dp) (dp_rpcq dp) (dp_float dp) (call_env_of env)
        \<lparr> ci_WorkspaceID = ws_WorkspaceID ws, ci_PgRole = ws_PgRole ws, ci_Name = rr_Procedure req, ci_Args = rr_Args req,
          ci_IdempotencyKey = header_get (rq_Header r) ''Idempotency-Key'',
          ci_RequestHash = HashRequest (rq_Method r) (rq_Path r) bodyBytes,
          ci_StatementTimeout = dp_StatementTimeout dp, ci_IdleInTxTimeout = dp_IdleInTxTimeout dp \<rparr>
        (gw_idem s) (gw_tenant s) of
      (out, i, d, warn) \<Rightarrow>
        let s0 = s\<lparr>gw_idem := i, gw_tenant := d\<rparr>;
            s1 = (case warn of None \<Rightarrow> s0 | Some e \<Rightarrow> emit (LogWarn ''idempotency complete failed'' e []) s0);
            audit = api_audit dp env r ws rpc_endpoint ''RPC'' (rr_Procedure req) (Some [args_any (rr_Args req)]) in
        (case out of
           Inl e \<Rightarrow> Returned (WriteProblem (rpc_problem e) w)
             (count_rpc (rr_Procedure req) ''error'' (audit 500 (Some e) s1))
         | Inr x \<Rightarrow>
             if cr_Replay x
             then Returned (replay_response (cr_CachedStatus x) (no_bytes (cr_CachedBody x)) w)
                    (count_rpc (rr_Procedure req) ''ok'' (count_hit s1))
             else Returned (write_json_opt 200 (call_result_json x) w)
                    (audit 200 None (count_rpc (rr_Procedure req) ''ok'' (count_miss s1)))))"

section \<open>Keys\<close>

definition handleKeyRotate ::
  "('v, 'db, 'sc) Deps \<Rightarrow> api_env \<Rightarrow> ('l, 'm, 'db, 'x) gateway_world_scheme handler" where
  "handleKeyRotate dp env = MustFromContext (\<lambda>ws r w s.
    case Rotate (cd_uuid (dp_codec dp)) (cd_interval (dp_codec dp)) (dp_idkey dp) (av_mint env) (av_keys env)
        (ws_KeyDBID ws) (dp_KeyRotateOverlap dp) (gw_keys s) of
      (Inl e, k) \<Rightarrow> Returned (WriteProblem (MapError (Some e)) w) (s\<lparr>gw_keys := k\<rparr>)
    | (Inr created, k) \<Rightarrow>
        Returned (WriteJSON 200 (rotateKeyResponse (crk_KeyID created) (crk_FullToken created)
            ''old key remains active for the configured overlap window'') w)
          (s\<lparr>gw_keys := k, aw_auth := RevokeFromCache (ws_KeyDBID ws) (aw_auth s)\<rparr>))"

definition handleKeyCreate ::
  "('v, 'db, 'sc) Deps \<Rightarrow> api_env \<Rightarrow> ('l, 'm, 'db, 'x) gateway_world_scheme handler" where
  "handleKeyCreate dp env = MustFromContext (\<lambda>ws r w s.
    if ws_PgRole ws \<noteq> ''dbadmin'' then
      Returned (WriteProblem (problem ''permission_denied'' 403 ''only keys with role=dbadmin may create new keys'') w) s
    else case Decode (dp_jerr dp) decode_create (rq_Body r) of
      Inl e \<Rightarrow> Returned (WriteProblem (problem ''invalid_json'' 400 (error_text e)) w) s
    | Inr req \<Rightarrow>
    if ck_WorkspaceID req \<noteq> [] \<and> ck_WorkspaceID req \<noteq> ws_WorkspaceID ws then
      Returned (WriteProblem (problem ''permission_denied'' 403 ''dbadmin keys can only mint keys for their own workspace'') w) s
    else case Create (cd_uuid (dp_codec dp)) (dp_idkey dp) (av_mint env) (av_keys env)
        \<lparr> in_WorkspaceID = ws_WorkspaceID ws, in_Env = (if ck_Env req = [] then ws_Env ws else ck_Env req),
          in_PgRole = ck_PgRole req, in_Name = ck_Name req, in_ExpiresAt = None \<rparr> (gw_keys s) of
      (Inl e, k) \<Rightarrow> Returned (WriteProblem (MapError (Some e)) w) (s\<lparr>gw_keys := k\<rparr>)
    | (Inr created, k) \<Rightarrow>
        Returned (WriteJSON 201 (rotateKeyResponse (crk_KeyID created) (crk_FullToken created)
            (''this token is shown exactly once '' @ em_dash @ '' store it now'')) w) (s\<lparr>gw_keys := k\<rparr>))"

definition handleMe :: "('v, 'db, 'sc) Deps \<Rightarrow> 'w handler" where
  "handleMe dp = MustFromContext (\<lambda>ws r w s. Returned (WriteJSON 200 (meResponse ws (dp_Version dp)) w) s)"

section \<open>Routes\<close>

text \<open>The limiter of an API: the given one, or one made from the configuration.\<close>

definition api_rate_limit :: "'m RateLimit option \<Rightarrow> 'm \<Rightarrow> real \<Rightarrow> int \<Rightarrow> 'm RateLimit" where
  "api_rate_limit given blank rps burst = (case given of Some rl \<Rightarrow> rl | None \<Rightarrow> NewRateLimit blank rps burst)"

text \<open>The environment of the middleware in front of every route.\<close>

record front_env =
  fv_auth :: auth_env
  fv_find :: pg_env
  fv_rate :: rate_env

definition wrap ::
  "('l, cachedKey) lru_ops \<Rightarrow> ('m, nat) lru_ops \<Rightarrow> ('v, 'db, 'sc) Deps \<Rightarrow> front_env
    \<Rightarrow> ('l, 'm, 'db, 'x) gateway_world_scheme handler \<Rightarrow> ('l, 'm, 'db, 'x) gateway_world_scheme handler" where
  "wrap cops lops dp fe h =
    Authenticate cops (dp_idkey dp) (\<lambda>s. FindByKeyID (fv_find fe) (gw_keys s)) (fv_auth fe)
      (RateLimit_Middleware lops fl64 (fv_rate fe) h)"

text \<open>The \<^verbatim>\<open>ServeMux\<close>: a GET pattern also serves HEAD; a known path with another method is 405 with
  the allowed methods, any other path 404.\<close>

definition mux_allow :: "string list \<Rightarrow> string" where
  "mux_allow ms = concat (case ms of [] \<Rightarrow> [] | m # r \<Rightarrow> m # map (\<lambda>x. '', '' @ x) r)"

definition mux_serve :: "(string \<times> string \<times> 'w handler) list \<Rightarrow> 'w handler" where
  "mux_serve table r w s =
    (case find (\<lambda>(m, p, h). p = rq_Path r \<and> (m = rq_Method r \<or> m = ''GET'' \<and> rq_Method r = ''HEAD'')) table of
       Some (m, p, h) \<Rightarrow> h r w s
     | None \<Rightarrow>
        let ms = concat (map (\<lambda>(m, p, h). if p = rq_Path r then (if m = ''GET'' then [''GET'', ''HEAD''] else [m]) else []) table) in
        if ms = [] then Returned (http_Error ''404 page not found'' 404 w) s
        else Returned (http_Error ''Method Not Allowed'' 405 (set_header ''Allow'' (mux_allow ms) w)) s)"

definition Routes ::
  "('l, cachedKey) lru_ops \<Rightarrow> ('m, nat) lru_ops \<Rightarrow> ('v, 'db, 'sc) Deps \<Rightarrow> front_env \<Rightarrow> api_env
    \<Rightarrow> ('l, 'm, 'db, 'x) gateway_world_scheme handler" where
  "Routes cops lops dp fe env =
    mux_serve [(''POST'', ''/sql/execute'', wrap cops lops dp fe (handleSQLExecute dp env)),
               (''POST'', ''/rpc/call'', wrap cops lops dp fe (handleRPCCall dp env)),
               (''POST'', ''/auth/keys/rotate'', wrap cops lops dp fe (handleKeyRotate dp env)),
               (''POST'', ''/auth/keys'', wrap cops lops dp fe (handleKeyCreate dp env)),
               (''GET'', ''/me'', wrap cops lops dp fe (handleMe dp))]"

end
