(* ===== verification/Mcp.thy ===== *)
theory Mcp
  imports Api
begin

text \<open>
  The tools of the MCP server (\<^verbatim>\<open>internal/mcp/tools.go\<close>) over the interface
  \<^verbatim>\<open>Doer\<close> (\<^verbatim>\<open>internal/mcp/client.go\<close>), and the table of tools
  (\<^verbatim>\<open>internal/mcp/server.go\<close>).

  \<open>'v\<close> is the type of the cells of a result and \<open>'s\<close> the state a \<^verbatim>\<open>Doer\<close>
  works on.  The MCP library is represented by the map of arguments of a call
  and the text and error flag of its result.
\<close>

section \<open>Results\<close>

text \<open>A nil slice is None.\<close>

record 'v SQLResult =
  sq_Command :: string
  sq_Columns :: "string list option"
  sq_Rows :: "'v list list option"
  sq_RowsAffected :: int
  sq_DurationMS :: int

record MeResult =
  mr_WorkspaceID :: string
  mr_KeyID :: string
  mr_Role :: string
  mr_Env :: string

record HealthResult =
  hr_Healthy :: bool
  hr_Ready :: bool
  hr_Detail :: string

record ('v, 's) Doer =
  do_SQLExecute :: "string \<Rightarrow> goval list option \<Rightarrow> string \<Rightarrow> 's \<Rightarrow> 'v SQLResult result \<times> 's"
  do_RPCCall :: "string \<Rightarrow> (string \<times> goval) list option \<Rightarrow> 's \<Rightarrow> (string \<times> goval) list option result \<times> 's"
  do_Me :: "'s \<Rightarrow> MeResult result \<times> 's"
  do_Health :: "'s \<Rightarrow> HealthResult result \<times> 's"

record CallToolResult =
  ct_Text :: string
  ct_IsError :: bool

type_synonym 's toolHandler = "(string \<times> goval) list \<Rightarrow> 's \<Rightarrow> CallToolResult \<times> 's"

text \<open>The forms of floats (\<^verbatim>\<open>%g\<close> and JSON), conversions of floats out of the range of an int, the JSON form of a
  cell, and the text of the encoder's error for rows with a cell that has none.\<close>

record 'v tool_env =
  te_g :: "real \<Rightarrow> string"
  te_float :: "real \<Rightarrow> string"
  te_conv :: "real \<Rightarrow> int"
  te_cell :: "'v \<Rightarrow> string option"
  te_unsupported :: "'v list list \<Rightarrow> string"

section \<open>json.MarshalIndent\<close>

definition json_newline :: "nat \<Rightarrow> string" where
  "json_newline d = CHR 0x0A # replicate (2 * d) (CHR '' '')"

text \<open>The loop of \<^verbatim>\<open>json.Indent\<close> with indent of two blanks over the bytes of a valid document: the depth, whether a
  newline is due after an opening bracket, whether inside a string, and there whether after a backslash.\<close>

fun jindent :: "nat \<Rightarrow> bool \<Rightarrow> bool \<Rightarrow> bool \<Rightarrow> string \<Rightarrow> string" where
  "jindent d need inside esc [] = []"
| "jindent d need inside esc (c # cs) =
    (if inside then
       c # (if esc then jindent d need True False cs
            else if c = CHR 0x5C then jindent d need True True cs
            else jindent d need (c \<noteq> CHR 0x22) False cs)
     else if json_ws c then jindent d need False False cs
     else if c = CHR ''}'' \<or> c = CHR '']'' then
       (if need then c # jindent d False False False cs
        else json_newline (d - 1) @ c # jindent (d - 1) False False False cs)
     else
       (let d1 = (if need then Suc d else d); pre = (if need then json_newline d1 else []) in
        pre @ (if c = CHR ''{'' \<or> c = CHR ''['' then c # jindent d1 True False False cs
               else if c = CHR '','' then c # json_newline d1 @ jindent d1 False False False cs
               else if c = CHR '':'' then c # CHR '' '' # jindent d1 False False False cs
               else c # jindent d1 False (c = CHR 0x22) False cs)))"

definition MarshalIndent :: "string \<Rightarrow> string" where
  "MarshalIndent b = jindent 0 False False False b"

definition errResult :: "string \<Rightarrow> CallToolResult" where
  "errResult msg = \<lparr> ct_Text = msg, ct_IsError = True \<rparr>"

definition textResult :: "string \<Rightarrow> CallToolResult" where
  "textResult t = \<lparr> ct_Text = t, ct_IsError = False \<rparr>"

text \<open>The argument is the compact document of the value, or the encoder's error.\<close>

definition jsonResult :: "string + string \<Rightarrow> CallToolResult" where
  "jsonResult v = (case v of Inl err \<Rightarrow> errResult (''marshal result: '' @ err) | Inr b \<Rightarrow> textResult (MarshalIndent b))"

definition sql_result_json :: "'v tool_env \<Rightarrow> 'v SQLResult \<Rightarrow> string + string" where
  "sql_result_json te x =
    (case (case sq_Rows x of None \<Rightarrow> Some ''null''
           | Some rs \<Rightarrow> map_option json_array (opt_all (map (\<lambda>r. map_option json_array (opt_all (map (te_cell te) r))) rs))) of
       None \<Rightarrow> Inl (te_unsupported te (case sq_Rows x of None \<Rightarrow> [] | Some rs \<Rightarrow> rs))
     | Some rows \<Rightarrow> Inr (json_object [json_member ''command'' (json_string (sq_Command x)),
         json_member ''columns'' (case sq_Columns x of None \<Rightarrow> ''null'' | Some cs \<Rightarrow> json_array (map json_string cs)),
         json_member ''rows'' rows,
         json_member ''rows_affected'' (Itoa (sq_RowsAffected x)), json_member ''duration_ms'' (Itoa (sq_DurationMS x))]))"

definition me_json :: "MeResult \<Rightarrow> string" where
  "me_json x = json_object [json_member ''workspace_id'' (json_string (mr_WorkspaceID x)),
     json_member ''key_id'' (json_string (mr_KeyID x)), json_member ''role'' (json_string (mr_Role x)),
     json_member ''env'' (json_string (mr_Env x))]"

definition json_bool :: "bool \<Rightarrow> string" where
  "json_bool b = (if b then ''true'' else ''false'')"

section \<open>Arguments\<close>

text \<open>\<^verbatim>\<open>x, _ := args[k].(string)\<close>.\<close>

definition str_arg :: "(string \<times> goval) list \<Rightarrow> string \<Rightarrow> string" where
  "str_arg args k = (case map_of args k of Some (GStr s) \<Rightarrow> s | _ \<Rightarrow> [])"

definition mcp_isSafeIdent :: "string \<Rightarrow> bool" where
  "mcp_isSafeIdent s = (if s = [] \<or> length s > 63 then False else list_all safe_role_rune (runes s))"

definition formatVector :: "(real \<Rightarrow> string) \<Rightarrow> real list \<Rightarrow> string" where
  "formatVector g v = ''['' @ concat (case map g v of [] \<Rightarrow> [] | x # r \<Rightarrow> x # map (\<lambda>y. '','' @ y) r) @ '']''"

text \<open>The numbers of an array, or the index of the first element that is none.\<close>

fun float_args :: "nat \<Rightarrow> goval list \<Rightarrow> nat + real list" where
  "float_args i [] = Inr []"
| "float_args i (GNum x # vs) = (case float_args (Suc i) vs of Inl j \<Rightarrow> Inl j | Inr xs \<Rightarrow> Inr (x # xs))"
| "float_args i (_ # vs) = Inl i"

definition go_int :: "(real \<Rightarrow> int) \<Rightarrow> real \<Rightarrow> int" where
  "go_int conv x = (if - (2 ^ 63) \<le> trunc x \<and> trunc x < 2 ^ 63 then trunc x else conv x)"

section \<open>Tools\<close>

definition tool_sql_execute :: "'v tool_env \<Rightarrow> ('v, 's) Doer \<Rightarrow> 's toolHandler" where
  "tool_sql_execute te d args s =
    (let sql = str_arg args ''sql'' in
     if sql = [] then (errResult (''required parameter '' @ [CHR 0x27] @ ''sql'' @ [CHR 0x27] @ '' is missing or empty''), s)
     else
       let params = (case map_of args ''params'' of Some (GList vs) \<Rightarrow> Some vs | _ \<Rightarrow> None) in
       case do_SQLExecute d sql params (str_arg args ''idempotency_key'') s of
         (Inl e, s') \<Rightarrow> (errResult (error_text e), s')
       | (Inr x, s') \<Rightarrow> (jsonResult (sql_result_json te x), s'))"

definition tool_rpc_call :: "'v tool_env \<Rightarrow> ('v, 's) Doer \<Rightarrow> 's toolHandler" where
  "tool_rpc_call te d args s =
    (let procedure = str_arg args ''procedure'' in
     if procedure = [] then (errResult (''required parameter '' @ [CHR 0x27] @ ''procedure'' @ [CHR 0x27] @ '' is missing or empty''), s)
     else
       let rpcArgs = (case map_of args ''args'' of Some (GMap m) \<Rightarrow> Some m | _ \<Rightarrow> None) in
       case do_RPCCall d procedure rpcArgs s of
         (Inl e, s') \<Rightarrow> (errResult (error_text e), s')
       | (Inr x, s') \<Rightarrow> (jsonResult (Inr (marshal_any (te_float te) (args_any x))), s'))"

definition listTablesSQL :: string where
  "listTablesSQL = ''SELECT t.table_name,'' @ [CHR 0x0A] @ ''       COALESCE(s.n_live_tup, 0) AS approx_rows'' @ [CHR 0x0A]
     @ ''FROM information_schema.tables t'' @ [CHR 0x0A] @ ''LEFT JOIN pg_stat_user_tables s'' @ [CHR 0x0A]
     @ ''  ON s.relname = t.table_name AND s.schemaname = '' @ [CHR 0x27] @ ''public'' @ [CHR 0x27, CHR 0x0A]
     @ ''WHERE t.table_schema = '' @ [CHR 0x27] @ ''public'' @ [CHR 0x27, CHR 0x0A]
     @ ''  AND t.table_type = '' @ [CHR 0x27] @ ''BASE TABLE'' @ [CHR 0x27, CHR 0x0A] @ ''ORDER BY t.table_name''"

definition describeSQL :: string where
  "describeSQL = ''SELECT column_name, data_type, is_nullable, column_default'' @ [CHR 0x0A]
     @ ''FROM information_schema.columns'' @ [CHR 0x0A]
     @ ''WHERE table_schema = '' @ [CHR 0x27] @ ''public'' @ [CHR 0x27] @ '' AND table_name = $1'' @ [CHR 0x0A]
     @ ''ORDER BY ordinal_position''"

text \<open>Running a statement and showing its result.\<close>

definition run_and_show :: "'v tool_env \<Rightarrow> ('v, 's) Doer \<Rightarrow> string \<Rightarrow> goval list option \<Rightarrow> 's \<Rightarrow> CallToolResult \<times> 's" where
  "run_and_show te d sql params s =
    (case do_SQLExecute d sql params [] s of
       (Inl e, s') \<Rightarrow> (errResult (error_text e), s')
     | (Inr x, s') \<Rightarrow> (jsonResult (sql_result_json te x), s'))"

definition tool_list_tables :: "'v tool_env \<Rightarrow> ('v, 's) Doer \<Rightarrow> 's toolHandler" where
  "tool_list_tables te d args s = run_and_show te d listTablesSQL None s"

definition tool_describe_table :: "'v tool_env \<Rightarrow> ('v, 's) Doer \<Rightarrow> 's toolHandler" where
  "tool_describe_table te d args s =
    (let table = str_arg args ''table'' in
     if \<not> mcp_isSafeIdent table
     then (errResult (''invalid table name: '' @ go_quote table @ '' (must be lowercase alphanumeric/underscore, max 63 chars)''), s)
     else run_and_show te d describeSQL (Some [GStr table]) s)"

definition dq :: "string \<Rightarrow> string" where
  "dq x = [CHR 0x22] @ x @ [CHR 0x22]"

definition mcp_search_sql :: "string \<Rightarrow> string \<Rightarrow> string" where
  "mcp_search_sql vectorCol table = ''SELECT *, '' @ dq vectorCol @ '' <=> $1::vector AS distance FROM '' @ dq table
     @ '' ORDER BY '' @ dq vectorCol @ '' <=> $1::vector LIMIT $2''"

definition tool_vector_search :: "'v tool_env \<Rightarrow> ('v, 's) Doer \<Rightarrow> 's toolHandler" where
  "tool_vector_search te d args s =
    (let table = str_arg args ''table''; vectorCol = str_arg args ''vector_column'' in
     if \<not> mcp_isSafeIdent table then (errResult (''invalid table name: '' @ go_quote table), s)
     else if \<not> mcp_isSafeIdent vectorCol then (errResult (''invalid vector_column: '' @ go_quote vectorCol), s)
     else case map_of args ''query_embedding'' of
       None \<Rightarrow> (errResult (''required parameter '' @ [CHR 0x27] @ ''query_embedding'' @ [CHR 0x27] @ '' is missing''), s)
     | Some raw \<Rightarrow>
       (case raw of
          GList (v # vs) \<Rightarrow>
            (case float_args 0 (v # vs) of
               Inl i \<Rightarrow> (errResult (''query_embedding['' @ show_nat i @ ''] is not a number''), s)
             | Inr embedding \<Rightarrow>
                let k = (case map_of args ''k'' of Some (GNum kv) \<Rightarrow> if kv > 0 then go_int (te_conv te) kv else 5 | _ \<Rightarrow> 5) in
                if k > 1000 then (errResult ''k must be <= 1000'', s)
                else run_and_show te d (mcp_search_sql vectorCol table)
                       (Some [GStr (formatVector (te_g te) embedding), GNum (of_int k)]) s)
        | _ \<Rightarrow> (errResult ''query_embedding must be a non-empty array of numbers'', s)))"

text \<open>One row of an upsert: its parameters, or the message that rejects it.\<close>

definition upsert_row :: "'v tool_env \<Rightarrow> nat \<Rightarrow> goval \<Rightarrow> string + goval list" where
  "upsert_row te i raw =
    (let msg_at = (\<lambda>msg. ''rows['' @ show_nat i @ '']'' @ msg) in
     case raw of GMap row \<Rightarrow>
       (let rid = str_arg row ''id'' in
        if rid = [] then Inl (msg_at ''.id is required'')
        else case map_of row ''metadata'' of
          None \<Rightarrow> Inl (msg_at ''.metadata is required'')
        | Some (GMap meta) \<Rightarrow>
           (case map_of row ''vector'' of
              Some (GList (v # vs)) \<Rightarrow>
                (case float_args 0 (v # vs) of
                   Inl j \<Rightarrow> Inl (msg_at (''.vector['' @ show_nat j @ ''] is not a number''))
                 | Inr vec \<Rightarrow> Inr [GStr rid, GStr (marshal_any (te_float te) (GMap meta)), GStr (formatVector (te_g te) vec)])
            | _ \<Rightarrow> Inl (msg_at ''.vector must be a non-empty array''))
        | Some _ \<Rightarrow> Inl (msg_at ''.metadata must be a JSON object''))
     | _ \<Rightarrow> Inl (msg_at '' must be an object''))"

fun upsert_rows :: "'v tool_env \<Rightarrow> nat \<Rightarrow> goval list \<Rightarrow> string + goval list" where
  "upsert_rows te i [] = Inr []"
| "upsert_rows te i (r # rs) =
    (case upsert_row te i r of Inl msg \<Rightarrow> Inl msg
     | Inr ps \<Rightarrow> (case upsert_rows te (Suc i) rs of Inl msg \<Rightarrow> Inl msg | Inr qs \<Rightarrow> Inr (ps @ qs)))"

definition values_clause :: "nat \<Rightarrow> string" where
  "values_clause i = ''($'' @ show_nat (i * 3 + 1) @ '', $'' @ show_nat (i * 3 + 2) @ ''::jsonb, $'' @ show_nat (i * 3 + 3) @ ''::vector)''"

text \<open>\<^verbatim>\<open>strings.Join\<close>.\<close>

definition go_join :: "string \<Rightarrow> string list \<Rightarrow> string" where
  "go_join sep xs = concat (case xs of [] \<Rightarrow> [] | x # r \<Rightarrow> x # map (\<lambda>y. sep @ y) r)"

definition mcp_upsert_sql :: "string \<Rightarrow> string \<Rightarrow> string \<Rightarrow> nat \<Rightarrow> string" where
  "mcp_upsert_sql table idCol vectorCol n =
    ''INSERT INTO '' @ dq table @ '' ('' @ dq idCol @ '', '' @ dq ''metadata'' @ '', '' @ dq vectorCol @ '') VALUES ''
    @ go_join '', '' (map values_clause [0..<n])
    @ '' ON CONFLICT ('' @ dq idCol @ '') DO UPDATE SET '' @ dq ''metadata'' @ '' = EXCLUDED.'' @ dq ''metadata''
    @ '', '' @ dq vectorCol @ '' = EXCLUDED.'' @ dq vectorCol"

definition tool_vector_upsert :: "'v tool_env \<Rightarrow> ('v, 's) Doer \<Rightarrow> 's toolHandler" where
  "tool_vector_upsert te d args s =
    (let table = str_arg args ''table''; idCol = str_arg args ''id_column''; vectorCol = str_arg args ''vector_column'' in
     if \<not> mcp_isSafeIdent table then (errResult (''invalid table name: '' @ go_quote table), s)
     else if \<not> mcp_isSafeIdent idCol then (errResult (''invalid id_column: '' @ go_quote idCol), s)
     else if \<not> mcp_isSafeIdent vectorCol then (errResult (''invalid vector_column: '' @ go_quote vectorCol), s)
     else case map_of args ''rows'' of
       None \<Rightarrow> (errResult (''required parameter '' @ [CHR 0x27] @ ''rows'' @ [CHR 0x27] @ '' is missing''), s)
     | Some raw \<Rightarrow>
       (case raw of
          GList (r # rs) \<Rightarrow>
            if length (r # rs) > 100 then (errResult ''rows must contain at most 100 entries'', s)
            else (case upsert_rows te 0 (r # rs) of
               Inl msg \<Rightarrow> (errResult msg, s)
             | Inr params \<Rightarrow>
                (case do_SQLExecute d (mcp_upsert_sql table idCol vectorCol (length (r # rs))) (Some params) [] s of
                   (Inl e, s') \<Rightarrow> (errResult (error_text e), s')
                 | (Inr x, s') \<Rightarrow> (jsonResult (Inr (json_object [json_member ''command'' (json_string (sq_Command x)),
                     json_member ''rows_affected'' (Itoa (sq_RowsAffected x))])), s')))
        | _ \<Rightarrow> (errResult ''rows must be a non-empty array'', s)))"

definition tool_whoami :: "('v, 's) Doer \<Rightarrow> 's toolHandler" where
  "tool_whoami d args s =
    (case do_Me d s of (Inl e, s') \<Rightarrow> (errResult (error_text e), s') | (Inr m, s') \<Rightarrow> (jsonResult (Inr (me_json m)), s'))"

definition tool_health :: "('v, 's) Doer \<Rightarrow> 's toolHandler" where
  "tool_health d args s =
    (case do_Health d s of
       (Inl e, s') \<Rightarrow> (errResult (error_text e), s')
     | (Inr h, s') \<Rightarrow> (jsonResult (Inr (json_object [json_member ''detail'' (json_string (hr_Detail h)),
         json_member ''healthy'' (json_bool (hr_Healthy h)), json_member ''ready'' (json_bool (hr_Ready h))])), s'))"

text \<open>The tools \<^verbatim>\<open>NewServer\<close> registers, by name.\<close>

definition mcp_tools :: "'v tool_env \<Rightarrow> ('v, 's) Doer \<Rightarrow> (string \<times> 's toolHandler) list" where
  "mcp_tools te d = [(''sql_execute'', tool_sql_execute te d), (''rpc_call'', tool_rpc_call te d),
     (''list_tables'', tool_list_tables te d), (''describe_table'', tool_describe_table te d),
     (''vector_search'', tool_vector_search te d), (''vector_upsert'', tool_vector_upsert te d),
     (''whoami'', tool_whoami d), (''health'', tool_health d)]"

end
