(* ===== verification/ApiSpec.thy ===== *)
theory ApiSpec
  imports Api
begin

text \<open>
  Properties of the HTTP API as a whole: every request is answered, denied
  requests change nothing, retries do not run statements again, keys are
  created only for the caller's workspace, and what is audited.
\<close>

section \<open>Lemmas\<close>

subsection \<open>Answers\<close>

text \<open>The status line has been sent.\<close>

definition is_sent :: "response_writer \<Rightarrow> bool" where
  "is_sent w \<longleftrightarrow> rw_sent w \<noteq> None"

fun answered :: "'w outcome \<Rightarrow> bool" where
  "answered (Returned w s) \<longleftrightarrow> is_sent w"
| "answered (Panicked m w s) \<longleftrightarrow> False"

lemma sent_answers [simp]:
  "is_sent (write_header st w)" "is_sent (write_body b w)" "is_sent (WriteProblem p w)" "is_sent (WriteJSON st v w)"
  "is_sent (replay_response st b w)" "is_sent (http_Error m st w)" "is_sent (writeAuthError st c d w)"
  "is_sent (write_json_opt st j w)"
proof -
  show h: "is_sent (write_header st w)" for st w
    by (simp add: is_sent_def write_header_def split: option.split)
  show b: "is_sent (write_body b w)" for b w
    using h[of 200 w] by (simp add: is_sent_def write_body_def Let_def)
  show "is_sent (WriteProblem p w)" "is_sent (WriteJSON st v w)" "is_sent (replay_response st b w)"
    "is_sent (http_Error m st w)" "is_sent (writeAuthError st c d w)" "is_sent (write_json_opt st j w)"
    by (simp_all add: WriteProblem_def WriteJSON_def replay_response_def http_Error_def writeAuthError_def
        write_json_opt_def h b split: option.split)
qed

lemma sql_run_answers: "answered (sql_run dp env ws req res key r w s)"
  by (auto simp: sql_run_def Let_def split: prod.split sum.split)

lemma sql_idem_answers: "answered (sql_idem dp env ws b req res r w s)"
  by (auto simp: sql_idem_def Let_def sql_run_answers split: prod.split sum.split)

lemma handlers_answer:
  assumes "FromContext r = Some ws"
  shows "answered (handleSQLExecute dp env r w s)" "answered (handleRPCCall dp env r w s)"
    "answered (handleKeyRotate dp env r w s)" "answered (handleKeyCreate dp env r w s)" "answered (handleMe dp r w s)"
  using assms
  by (auto simp: handleSQLExecute_def handleRPCCall_def handleKeyRotate_def handleKeyCreate_def handleMe_def
      MustFromContext_def Let_def sql_idem_answers split: prod.split sum.split)

lemma FromContext_NewContext [simp]: "FromContext (NewContext r ws) = Some ws"
  by (simp add: FromContext_def NewContext_def)

lemma wrap_answers:
  assumes "\<And>r w s ws. FromContext r = Some ws \<Longrightarrow> answered (h r w s)"
  shows "answered (wrap cops lops dp fe h r w s)"
proof -
  have "answered (RateLimit_Middleware lops fl64 (fv_rate fe) h r w s)" if "FromContext r = Some ws" for r w s ws
    using assms[OF that]
    by (auto simp: RateLimit_Middleware_def rate_decide_def Let_def split: prod.splits bool.splits if_splits)
  then show ?thesis
    by (auto simp: wrap_def Authenticate_def split: prod.split auth_decision.split)
qed

subsection \<open>The middleware in front of the routes\<close>

fun outcome_world :: "'w outcome \<Rightarrow> 'w" where
  "outcome_world (Returned w s) = s"
| "outcome_world (Panicked m w s) = s"

text \<open>The request as the handlers see it, and what authentication says about it.\<close>

definition front_auth ::
  "('l, cachedKey) lru_ops \<Rightarrow> ('v, 'db, 'sc) Deps \<Rightarrow> front_env \<Rightarrow> request \<Rightarrow> ('l, 'm, 'db, 'x) gateway_world_scheme
    \<Rightarrow> auth_decision \<times> 'l auth_state" where
  "front_auth cops dp fe r s = authenticate cops (dp_idkey dp) (FindByKeyID (fv_find fe) (gw_keys s)) (fv_auth fe)
      (header_get (rq_Header r) ''Authorization'') (aw_auth s)"

lemma wrap_cases:
  obtains (stopped) w1 a m where "wrap cops lops dp fe h r w s = Returned w1 (s\<lparr>aw_auth := a, lw_limit := m\<rparr>)"
  | (passed) ws a m w1 where "front_auth cops dp fe r s = (Admit ws, a)"
      "wrap cops lops dp fe h r w s = h (NewContext r ws) w1 (s\<lparr>aw_auth := a, lw_limit := m\<rparr>)"
proof (cases "front_auth cops dp fe r s")
  case (Pair d a)
  show thesis
  proof (cases d)
    case (Deny st code detail)
    with Pair have "wrap cops lops dp fe h r w s =
        Returned (writeAuthError st code detail w) (s\<lparr>aw_auth := a, lw_limit := lw_limit s\<rparr>)"
      by (simp add: wrap_def Authenticate_def front_auth_def)
    then show thesis by (rule stopped)
  next
    case (Admit ws)
    obtain ok w1 m where d: "rate_decide lops fl64 (fv_rate fe) (NewContext r ws) w (lw_limit s) = (ok, w1, m)"
      by (cases "rate_decide lops fl64 (fv_rate fe) (NewContext r ws) w (lw_limit s)") auto
    show thesis
    proof (cases ok)
      case True
      with Pair Admit d have "wrap cops lops dp fe h r w s = h (NewContext r ws) w1 (s\<lparr>aw_auth := a, lw_limit := m\<rparr>)"
        by (simp add: wrap_def Authenticate_def RateLimit_Middleware_def front_auth_def)
      with Pair Admit show thesis by (intro passed) simp_all
    next
      case False
      with Pair Admit d have "wrap cops lops dp fe h r w s = Returned w1 (s\<lparr>aw_auth := a, lw_limit := m\<rparr>)"
        by (simp add: wrap_def Authenticate_def RateLimit_Middleware_def front_auth_def)
      then show thesis by (rule stopped)
    qed
  qed
qed

text \<open>Where a request goes.\<close>

lemma Routes_at:
  "rq_Path r = ''/sql/execute'' \<Longrightarrow> Routes cops lops dp fe env r w s =
    (if rq_Method r = ''POST'' then wrap cops lops dp fe (handleSQLExecute dp env) r w s
     else Returned (http_Error ''Method Not Allowed'' 405 (set_header ''Allow'' ''POST'' w)) s)"
  "rq_Path r = ''/rpc/call'' \<Longrightarrow> Routes cops lops dp fe env r w s =
    (if rq_Method r = ''POST'' then wrap cops lops dp fe (handleRPCCall dp env) r w s
     else Returned (http_Error ''Method Not Allowed'' 405 (set_header ''Allow'' ''POST'' w)) s)"
  "rq_Path r = ''/auth/keys/rotate'' \<Longrightarrow> Routes cops lops dp fe env r w s =
    (if rq_Method r = ''POST'' then wrap cops lops dp fe (handleKeyRotate dp env) r w s
     else Returned (http_Error ''Method Not Allowed'' 405 (set_header ''Allow'' ''POST'' w)) s)"
  "rq_Path r = ''/auth/keys'' \<Longrightarrow> Routes cops lops dp fe env r w s =
    (if rq_Method r = ''POST'' then wrap cops lops dp fe (handleKeyCreate dp env) r w s
     else Returned (http_Error ''Method Not Allowed'' 405 (set_header ''Allow'' ''POST'' w)) s)"
  "rq_Path r = ''/me'' \<Longrightarrow> Routes cops lops dp fe env r w s =
    (if rq_Method r = ''GET'' \<or> rq_Method r = ''HEAD'' then wrap cops lops dp fe (handleMe dp) r w s
     else Returned (http_Error ''Method Not Allowed'' 405 (set_header ''Allow'' ''GET, HEAD'' w)) s)"
  "rq_Path r \<notin> {''/sql/execute'', ''/rpc/call'', ''/auth/keys/rotate'', ''/auth/keys'', ''/me''} \<Longrightarrow>
    Routes cops lops dp fe env r w s = Returned (http_Error ''404 page not found'' 404 w) s"
  by (auto simp: Routes_def mux_serve_def mux_allow_def Let_def)

lemma Routes_cases:
  obtains (sql) "rq_Method r = ''POST''" "rq_Path r = ''/sql/execute''"
      "Routes cops lops dp fe env r w s = wrap cops lops dp fe (handleSQLExecute dp env) r w s"
  | (rpc) "rq_Method r = ''POST''" "rq_Path r = ''/rpc/call''"
      "Routes cops lops dp fe env r w s = wrap cops lops dp fe (handleRPCCall dp env) r w s"
  | (rotate) "rq_Method r = ''POST''" "rq_Path r = ''/auth/keys/rotate''"
      "Routes cops lops dp fe env r w s = wrap cops lops dp fe (handleKeyRotate dp env) r w s"
  | (create) "rq_Method r = ''POST''" "rq_Path r = ''/auth/keys''"
      "Routes cops lops dp fe env r w s = wrap cops lops dp fe (handleKeyCreate dp env) r w s"
  | (me) "rq_Path r = ''/me''" "Routes cops lops dp fe env r w s = wrap cops lops dp fe (handleMe dp) r w s"
  | (none) w1 where "Routes cops lops dp fe env r w s = Returned w1 s" "is_sent w1"
proof -
  have no: thesis if "Routes cops lops dp fe env r w s = Returned (http_Error m st w1) s" for m st w1
    using none[OF that] by simp
  consider "rq_Path r = ''/sql/execute''" | "rq_Path r = ''/rpc/call''" | "rq_Path r = ''/auth/keys/rotate''"
    | "rq_Path r = ''/auth/keys''" | "rq_Path r = ''/me''"
    | "rq_Path r \<notin> {''/sql/execute'', ''/rpc/call'', ''/auth/keys/rotate'', ''/auth/keys'', ''/me''}" by blast
  then show thesis
  proof cases
    case 1
    with sql no Routes_at(1)[OF 1, of cops lops dp fe env w s] show thesis by (cases "rq_Method r = ''POST''") simp_all
  next
    case 2
    with rpc no Routes_at(2)[OF 2, of cops lops dp fe env w s] show thesis by (cases "rq_Method r = ''POST''") simp_all
  next
    case 3
    with rotate no Routes_at(3)[OF 3, of cops lops dp fe env w s] show thesis by (cases "rq_Method r = ''POST''") simp_all
  next
    case 4
    with create no Routes_at(4)[OF 4, of cops lops dp fe env w s] show thesis by (cases "rq_Method r = ''POST''") simp_all
  next
    case 5
    with me no Routes_at(5)[OF 5, of cops lops dp fe env w s] show thesis
      by (cases "rq_Method r = ''GET'' \<or> rq_Method r = ''HEAD''") simp_all
  next
    case 6
    show thesis by (rule no) (rule Routes_at(6)[OF 6])
  qed
qed

subsection \<open>What a handler leaves of the state\<close>

lemma gateway_frame [simp]:
  "gw_keys (emit x s) = gw_keys s" "gw_idem (emit x s) = gw_idem s" "gw_tenant (emit x s) = gw_tenant s"
  "gw_keys (measure_by f s) = gw_keys s" "gw_idem (measure_by f s) = gw_idem s" "gw_tenant (measure_by f s) = gw_tenant s"
  for s :: "('l, 'm, 'db, 'x) gateway_world_scheme"
  by (simp_all add: emit_def measure_by_def)

lemma write_entry_frame [simp]:
  "gw_keys (write_entry dp env e s) = gw_keys s" "gw_idem (write_entry dp env e s) = gw_idem s"
  "gw_tenant (write_entry dp env e s) = gw_tenant s"
  by (simp_all add: write_entry_def split: option.split prod.split)

lemma sql_complete_frame [simp]:
  "gw_keys (sql_complete dp env r ws key st body good s) = gw_keys s"
  "gw_tenant (sql_complete dp env r ws key st body good s) = gw_tenant s"
  by (simp_all add: sql_complete_def split: option.split prod.split)

lemma sql_complete_idem [simp]:
  "key \<noteq> [] \<Longrightarrow> gw_idem (sql_complete dp env r ws key st body good s)
    = snd (Complete (dp_codec dp) (av_complete env) (ws_WorkspaceID ws) key st body good (gw_idem s))"
  by (simp add: sql_complete_def split: option.split prod.split)

lemmas counters = count_sql_def count_hit_def count_miss_def count_rpc_def api_audit_def

lemma sql_run_state:
  "gw_keys (outcome_world (sql_run dp env ws req res key r w s)) = gw_keys s"
  "key \<noteq> [] \<Longrightarrow> \<exists>st body good. gw_idem (outcome_world (sql_run dp env ws req res key r w s))
    = snd (Complete (dp_codec dp) (av_complete env) (ws_WorkspaceID ws) key st body good (gw_idem s))"
  by (auto simp: sql_run_def Let_def counters split: prod.split sum.split)

text \<open>What a request with an idempotency key may do to the table of keys and to the tenant database:
  nothing; or claim the key in vain; or claim it, run, and complete it.\<close>

definition keyed_step ::
  "codec \<Rightarrow> (nat \<Rightarrow> idem_env) \<Rightarrow> string \<Rightarrow> string \<Rightarrow> ('l, 'm, 'db, 'x) gateway_world_scheme
    \<Rightarrow> ('l, 'm, 'db, 'x) gateway_world_scheme \<Rightarrow> bool" where
  "keyed_step cd P ws key s s' \<longleftrightarrow>
    gw_tenant s' = gw_tenant s \<and> gw_idem s' = gw_idem s
    \<or> (\<exists>h ans i. BeginOrReplay cd P 0 ws key h day (gw_idem s) = (ans, i)
        \<and> (if is_grant ans then \<exists>env st body good. gw_idem s' = snd (Complete cd env ws key st body good i)
           else gw_tenant s' = gw_tenant s \<and> gw_idem s' = i))"

lemma keyed_stepI:
  assumes "BeginOrReplay cd P 0 ws key h day (gw_idem s) = (ans, i)"
    and "is_grant ans \<Longrightarrow> \<exists>env st body good. gw_idem s' = snd (Complete cd env ws key st body good i)"
    and "\<not> is_grant ans \<Longrightarrow> gw_tenant s' = gw_tenant s \<and> gw_idem s' = i"
  shows "keyed_step cd P ws key s s'"
  unfolding keyed_step_def using assms by (intro disjI2 exI[of _ h] exI[of _ ans] exI[of _ i]) simp

lemma keyed_step_same: "gw_tenant s' = gw_tenant s \<and> gw_idem s' = gw_idem s \<Longrightarrow> keyed_step cd P ws key s s'"
  by (simp add: keyed_step_def)

lemma sql_idem_keyed:
  assumes k: "key = header_get (rq_Header r) ''Idempotency-Key''" "key \<noteq> []"
  shows "keyed_step (dp_codec dp) (av_idem env) (ws_WorkspaceID ws) key s (outcome_world (sql_idem dp env ws b req res r w s))"
proof -
  let ?h = "HashRequest (rq_Method r) (rq_Path r) b"
  obtain ans i where b: "BeginOrReplay (dp_codec dp) (av_idem env) 0 (ws_WorkspaceID ws) key ?h day (gw_idem s) = (ans, i)"
    by fastforce
  from b show ?thesis
  proof (rule keyed_stepI)
    assume "is_grant ans"
    then obtain ir where "ans = Inr ir" "\<not> id_Replay ir" by (auto simp: is_grant_def split: sum.splits)
    with b k have "sql_idem dp env ws b req res r w s = sql_run dp env ws req res key r w (count_miss (s\<lparr>gw_idem := i\<rparr>))"
      by (simp add: sql_idem_def Let_def)
    with sql_run_state(2)[OF k(2), of dp env ws req res r w "count_miss (s\<lparr>gw_idem := i\<rparr>)"]
    show "\<exists>env' st body good. gw_idem (outcome_world (sql_idem dp env ws b req res r w s))
        = snd (Complete (dp_codec dp) env' (ws_WorkspaceID ws) key st body good i)"
      by (auto simp: counters)
  qed (use b k in \<open>auto simp: sql_idem_def Let_def counters is_grant_def split: sum.split\<close>)
qed

lemma handleSQLExecute_keyed:
  assumes "FromContext r = Some ws" "key = header_get (rq_Header r) ''Idempotency-Key''" "key \<noteq> []"
  shows "keyed_step (dp_codec dp) (av_idem env) (ws_WorkspaceID ws) key s (outcome_world (handleSQLExecute dp env r w s))"
proof -
  have "gw_tenant (outcome_world (handleSQLExecute dp env r w s)) = gw_tenant s
      \<and> gw_idem (outcome_world (handleSQLExecute dp env r w s)) = gw_idem s
    \<or> (\<exists>b req res. handleSQLExecute dp env r w s = sql_idem dp env ws b req res r w s)"
    using assms(1) by (auto simp: handleSQLExecute_def MustFromContext_def counters split: sum.split)
  then show ?thesis
  proof (elim disjE exE)
    fix b req res assume "handleSQLExecute dp env r w s = sql_idem dp env ws b req res r w s"
    then show ?thesis by (simp add: sql_idem_keyed[OF assms(2,3)])
  qed (simp add: keyed_step_same)
qed

lemma Call_keyed:
  assumes "Call reg val cd q ff ce inp (gw_idem s) (gw_tenant s) = (out, i, d, warn)" "ci_IdempotencyKey inp \<noteq> []"
    and "gw_idem s' = i" "gw_tenant s' = d"
  shows "keyed_step cd (ce_idem ce) (ci_WorkspaceID inp) (ci_IdempotencyKey inp) s s'"
proof (cases "\<exists>proc. call_checked reg val inp proc")
  case True
  then obtain proc where c: "call_checked reg val inp proc" by blast
  obtain ans i1 where b: "BeginOrReplay cd (ce_idem ce) 0 (ci_WorkspaceID inp) (ci_IdempotencyKey inp) (ci_RequestHash inp) day (gw_idem s)
      = (ans, i1)" by fastforce
  from b show ?thesis
  proof (rule keyed_stepI)
    assume "is_grant ans"
    then obtain ir where "ans = Inr ir" "\<not> id_Replay ir" by (auto simp: is_grant_def split: sum.splits)
    with assms b c have "call_run cd q ff ce proc inp i1 (gw_tenant s) = (out, i, d, warn)"
      by (simp add: Call_checked[OF c])
    then show "\<exists>env st body good. gw_idem s' = snd (Complete cd env (ci_WorkspaceID inp) (ci_IdempotencyKey inp) st body good i1)"
    proof (rule call_run_state)
      fix res
      assume "if ci_IdempotencyKey inp = [] then i = i1 \<and> warn = None
        else Complete cd (ce_complete ce) (ci_WorkspaceID inp) (ci_IdempotencyKey inp) (if is_ok res then 200 else 500)
          (stored_body (pr_Name proc) (case res of Inl e \<Rightarrow> None | Inr b \<Rightarrow> b) (Milliseconds (ce_elapsed ce))) (is_ok res) i1
          = (warn, i)"
      with assms(2,3) have "gw_idem s' = snd (Complete cd (ce_complete ce) (ci_WorkspaceID inp) (ci_IdempotencyKey inp)
          (if is_ok res then 200 else 500)
          (stored_body (pr_Name proc) (case res of Inl e \<Rightarrow> None | Inr b \<Rightarrow> b) (Milliseconds (ce_elapsed ce))) (is_ok res) i1)"
        by simp
      then show ?thesis by blast
    qed
  qed (use assms b c in \<open>auto simp: Call_checked[OF c] is_grant_def split: sum.splits if_splits\<close>)
next
  case False
  with assms Call_unchecked[of reg val inp cd q ff ce "gw_idem s" "gw_tenant s"] show ?thesis by (auto intro: keyed_step_same)
qed

lemma handleRPCCall_keyed:
  fixes s :: "('l, 'm, 'db, 'x) gateway_world_scheme"
  assumes "FromContext r = Some ws" "key = header_get (rq_Header r) ''Idempotency-Key''" "key \<noteq> []"
  shows "keyed_step (dp_codec dp) (av_idem env) (ws_WorkspaceID ws) key s (outcome_world (handleRPCCall dp env r w s))"
proof -
  let ?in = "\<lambda>req bodyBytes. \<lparr> ci_WorkspaceID = ws_WorkspaceID ws, ci_PgRole = ws_PgRole ws, ci_Name = rr_Procedure req, ci_Args = rr_Args req,
          ci_IdempotencyKey = header_get (rq_Header r) ''Idempotency-Key'',
          ci_RequestHash = HashRequest (rq_Method r) (rq_Path r) bodyBytes,
          ci_StatementTimeout = dp_StatementTimeout dp, ci_IdleInTxTimeout = dp_IdleInTxTimeout dp \<rparr>"
  let ?s' = "outcome_world (handleRPCCall dp env r w s)"
  show ?thesis
  proof (cases "\<exists>b req. ReadAll (rq_Body r) = Inr b \<and> Unmarshal (dp_jerr dp) decode_rpc b = Inr req")
    case True
    then obtain b req where d: "ReadAll (rq_Body r) = Inr b" "Unmarshal (dp_jerr dp) decode_rpc b = Inr req" by blast
    obtain out i d' warn where c: "Call (dp_Registry dp) (dp_schema dp) (dp_codec dp) (dp_rpcq dp) (dp_float dp) (call_env_of env)
         (?in req b) (gw_idem s) (gw_tenant s) = (out, i, d', warn)" by (metis prod.exhaust)
    have "gw_idem ?s' = i \<and> gw_tenant ?s' = d'"
      using assms(1) d c
      by (cases out; cases warn) (simp_all add: handleRPCCall_def MustFromContext_def counters Let_def)
    with Call_keyed[OF c, of ?s'] assms(2,3) show ?thesis by (simp add: call_env_of_def)
  next
    case False
    then have "?s' = s" using assms(1)
      by (auto simp: handleRPCCall_def MustFromContext_def split: sum.split)
    then show ?thesis by (simp add: keyed_step_same)
  qed
qed

subsection \<open>The API as an exclusive claim on a key\<close>

datatype keyed_endpoint = SqlExecute | RpcCall

fun keyed_handler :: "('v, 'db, 'sc) Deps \<Rightarrow> api_env \<Rightarrow> keyed_endpoint \<Rightarrow> ('l, 'm, 'db, 'x) gateway_world_scheme handler" where
  "keyed_handler dp env SqlExecute = handleSQLExecute dp env"
| "keyed_handler dp env RpcCall = handleRPCCall dp env"

record keyed_request =
  kq_endpoint :: keyed_endpoint
  kq_env :: api_env
  kq_request :: request
  kq_writer :: response_writer

text \<open>A request \<open>wins\<close> if it changes the tenant database.\<close>

definition keyed_claim ::
  "('v, 'db, 'sc) Deps \<Rightarrow> keyed_request \<Rightarrow> ('l, 'm, 'db, 'x) gateway_world_scheme
    \<Rightarrow> IdempotencyResult result \<times> ('l, 'm, 'db, 'x) gateway_world_scheme" where
  "keyed_claim dp q s =
    (let s' = outcome_world (keyed_handler dp (kq_env q) (kq_endpoint q) (kq_request q) (kq_writer q) s)
     in (if gw_tenant s' = gw_tenant s then Inl (Opaque ''no effect'')
         else Inr \<lparr> id_Replay = False, id_StatusCode = 0, id_Body = [] \<rparr>, s'))"

text \<open>An authenticated request of the workspace \<open>w\<close> with the key, within the TTL ending at \<open>T\<close>.\<close>

definition keyed_ok :: "('v, 'db, 'sc) Deps \<Rightarrow> string \<Rightarrow> string \<Rightarrow> instant \<Rightarrow> keyed_request \<Rightarrow> bool" where
  "keyed_ok dp w key T q \<longleftrightarrow> header_get (rq_Header (kq_request q)) ''Idempotency-Key'' = key
    \<and> (\<exists>ws. FromContext (kq_request q) = Some ws \<and> claim_in (dp_codec dp) w T (av_idem (kq_env q), ws_WorkspaceID ws, [], day))"

text \<open>What else may happen meanwhile: other writes to the tenant database and other uses of the key table.\<close>

datatype 'db background = TenantWrite "'db \<Rightarrow> 'db" | IdemOp idem_op

fun background_step :: "codec \<Rightarrow> 'db background \<Rightarrow> ('l, 'm, 'db, 'x) gateway_world_scheme \<Rightarrow> ('l, 'm, 'db, 'x) gateway_world_scheme" where
  "background_step cd (TenantWrite f) s = s\<lparr>gw_tenant := f (gw_tenant s)\<rparr>"
| "background_step cd (IdemOp x) s = s\<lparr>gw_idem := idem_step cd (gw_idem s) x\<rparr>"

fun background_ok :: "instant \<Rightarrow> 'db background \<Rightarrow> bool" where
  "background_ok T (TenantWrite f) \<longleftrightarrow> True"
| "background_ok T (IdemOp x) \<longleftrightarrow> op_before T x"

lemma keyed_claim_step:
  assumes "keyed_ok dp w key T q" "key \<noteq> []"
  obtains ws where "claim_in (dp_codec dp) w T (av_idem (kq_env q), ws, [], day)"
    "keyed_step (dp_codec dp) (av_idem (kq_env q)) ws key s (snd (keyed_claim dp q s))"
proof -
  from assms(1) obtain ws where "FromContext (kq_request q) = Some ws"
    "claim_in (dp_codec dp) w T (av_idem (kq_env q), ws_WorkspaceID ws, [], day)"
    "header_get (rq_Header (kq_request q)) ''Idempotency-Key'' = key"
    by (auto simp: keyed_ok_def)
  moreover from this have "keyed_step (dp_codec dp) (av_idem (kq_env q)) (ws_WorkspaceID ws) key s
      (outcome_world (keyed_handler dp (kq_env q) (kq_endpoint q) (kq_request q) (kq_writer q) s))"
    using assms(2) by (cases "kq_endpoint q") (simp_all add: handleSQLExecute_keyed handleRPCCall_keyed)
  ultimately show thesis using that by (simp add: keyed_claim_def Let_def)
qed

lemma Complete_held:
  assumes "wf_idem db" "held T w key (\<lambda>_. True) db"
  shows "held T w key (\<lambda>_. True) (snd (Complete cd env ws key' st body good db))"
  using held_step[of db T w key "\<lambda>_. True" "IComplete env ws key' st body good" cd] assms by simp

lemma Complete_wf: "wf_idem db \<Longrightarrow> wf_idem (snd (Complete cd env ws key st body good db))"
  using step_wf_idem[of db cd "IComplete env ws key st body good"] by simp

text \<open>How such a step relates to the state of the key.\<close>

lemma keyed_step_wf:
  assumes "keyed_step cd P ws key s s'" "wf_idem (gw_idem s)"
  shows "wf_idem (gw_idem s')"
  using assms(1) unfolding keyed_step_def
proof (elim disjE exE conjE)
  fix h ans i assume b: "BeginOrReplay cd P 0 ws key h day (gw_idem s) = (ans, i)"
    and r: "if is_grant ans then \<exists>env st body good. gw_idem s' = snd (Complete cd env ws key st body good i)
           else gw_tenant s' = gw_tenant s \<and> gw_idem s' = i"
  have "wf_idem i" using Begin_wf[OF assms(2), of cd P 0 ws key h day] b by simp
  then show ?thesis using r by (auto simp: Complete_wf split: if_splits)
qed (use assms(2) in simp)

lemma keyed_step_held:
  assumes "keyed_step cd P ws key s s'" "wf_idem (gw_idem s)" "claim_in cd w T (P, ws, [], day)"
    and "held T w key (\<lambda>_. True) (gw_idem s)"
  shows "gw_tenant s' = gw_tenant s \<and> held T w key (\<lambda>_. True) (gw_idem s')"
  using assms(1) unfolding keyed_step_def
proof (elim disjE exE conjE)
  fix h ans i assume b: "BeginOrReplay cd P 0 ws key h day (gw_idem s) = (ans, i)"
    and r: "if is_grant ans then \<exists>env st body good. gw_idem s' = snd (Complete cd env ws key st body good i)
           else gw_tenant s' = gw_tenant s \<and> gw_idem s' = i"
  have c: "claim_in cd w T (P, ws, h, day)" using assms(3) by (simp add: claim_in_def)
  have "\<not> is_grant ans" "held T w key (\<lambda>_. True) i"
    using idem_claim.taken_refuses[OF assms(2) c assms(4)] idem_claim.taken_claim[OF assms(2) c assms(4)] b
    by (simp_all add: claim_key_def)
  with r show ?thesis by simp
qed (use assms(4) in auto)

lemma keyed_step_takes:
  assumes "keyed_step cd P ws key s s'" "wf_idem (gw_idem s)" "claim_in cd w T (P, ws, [], day)"
    and "gw_tenant s' \<noteq> gw_tenant s"
  shows "held T w key (\<lambda>_. True) (gw_idem s')"
proof -
  from assms(1,4) obtain h ans i env st body good where
    b: "BeginOrReplay cd P 0 ws key h day (gw_idem s) = (ans, i)" "is_grant ans"
    "gw_idem s' = snd (Complete cd env ws key st body good i)"
    by (auto simp: keyed_step_def split: if_splits)
  have c: "claim_in cd w T (P, ws, h, day)" using assms(3) by (simp add: claim_in_def)
  have "held T w key (\<lambda>_. True) i" "wf_idem i"
    using idem_claim.grant_takes[OF assms(2) c, of key] idem_claim.inv_claim[OF assms(2) c, of key] b
    by (simp_all add: claim_key_def)
  with b(3) show ?thesis by (simp add: Complete_held)
qed

lemma keyed_claim_grant: "is_grant (fst (keyed_claim dp q s)) \<longleftrightarrow> gw_tenant (snd (keyed_claim dp q s)) \<noteq> gw_tenant s"
  by (simp add: keyed_claim_def is_grant_def Let_def)

lemma background_held:
  assumes "wf_idem (gw_idem s)" "held T w key (\<lambda>_. True) (gw_idem s)" "background_ok T x"
  shows "held T w key (\<lambda>_. True) (gw_idem (background_step cd x s))"
  using assms by (cases x) (simp_all add: held_step)

text \<open>The handlers provide the interface that the table of keys provides: the key is claimed by the first
  request that has an effect.  A request whose key is empty is no claim.\<close>

interpretation api_claim: exclusive_claim "keyed_claim dp" "background_step (dp_codec dp)"
  "\<lambda>q. key \<noteq> [] \<and> keyed_ok dp w key T q" "background_ok T" "\<lambda>s. wf_idem (gw_idem s)"
  "\<lambda>s. held T w key (\<lambda>_. True) (gw_idem s)"
  for dp :: "('v, 'db, 'sc) Deps" and key w T
proof (unfold_locales, goal_cases)
  case (1 s q)
  then obtain ws where "claim_in (dp_codec dp) w T (av_idem (kq_env q), ws, [], day)"
    "keyed_step (dp_codec dp) (av_idem (kq_env q)) ws key s (snd (keyed_claim dp q s))"
    by (elim conjE) (rule keyed_claim_step)
  with 1 show ?case by (auto simp: keyed_claim_grant intro: keyed_step_takes)
next
  case (2 s q)
  then obtain ws where "claim_in (dp_codec dp) w T (av_idem (kq_env q), ws, [], day)"
    "keyed_step (dp_codec dp) (av_idem (kq_env q)) ws key s (snd (keyed_claim dp q s))"
    by (elim conjE) (rule keyed_claim_step)
  with 2 show ?case by (auto simp: keyed_claim_grant dest: keyed_step_held)
next
  case (3 s q)
  then obtain ws where "claim_in (dp_codec dp) w T (av_idem (kq_env q), ws, [], day)"
    "keyed_step (dp_codec dp) (av_idem (kq_env q)) ws key s (snd (keyed_claim dp q s))"
    by (elim conjE) (rule keyed_claim_step)
  with 3 show ?case by (auto dest: keyed_step_held)
next
  case (4 s x)
  then show ?case by (intro background_held) simp_all
next
  case (5 s q)
  then obtain ws where "keyed_step (dp_codec dp) (av_idem (kq_env q)) ws key s (snd (keyed_claim dp q s))"
    by (elim conjE) (rule keyed_claim_step)
  with 5 show ?case by (auto intro: keyed_step_wf)
next
  case (6 s x)
  then show ?case by (cases x) (simp_all add: step_wf_idem)
qed

text \<open>A gateway over a tenant database that counts the procedure calls made on it.\<close>

definition sample_deps :: "(goval, nat, unit) Deps" where
  "sample_deps = \<lparr> dp_MaxResponseBodyBytes = 0, dp_StatementTimeout = 0, dp_IdleInTxTimeout = 0, dp_KeyRotateOverlap = 0,
     dp_Version = ([], [], []), dp_Auditor = None,
     dp_Validator = NewValidator \<lparr> vcf_MaxStatementBytes = 0, vcf_MaxStatementParams = 0 \<rparr>,
     dp_Executor = sample_exec_cfg, dp_Registry = sample_reg, dp_parse = (\<lambda>_. Inr None), dp_scan = (\<lambda>_. Inr []),
     dp_schema = (\<lambda>_ _. None),
     dp_user = \<lparr> pu_query = (\<lambda>_ _ _ n. (Inl (Opaque []), n)), pu_exec = (\<lambda>_ _ _ n. (Inr 1, Suc n)) \<rparr>,
     dp_rpcq = sample_rpcq, dp_any = (\<lambda>x. x), dp_cell = (\<lambda>_. None), dp_float = (\<lambda>_. []), dp_jerr = (\<lambda>_. []),
     dp_codec = plain_codec, dp_idkey = (\<lambda>_ _ _ _ _ _. []) \<rparr>"

definition sample_world :: "((string \<times> cachedKey) list, (string \<times> nat) list, nat) gateway_world" where
  "sample_world = \<lparr> aw_auth = trace_auth [] {} [] [], lw_limit = NewRateLimit [] 1 1, ow_metrics = NewMetrics ([], [], []),
     ow_log = [], gw_keys = sample_db, gw_idem = empty_idem, gw_tenant = 0, gw_audit = [] \<rparr>"

definition sample_api_env :: "instant \<Rightarrow> api_env" where
  "sample_api_env t = \<lparr> av_idem = (\<lambda>_. fine_pass t ''1''), av_complete = pg_fine t, av_exec = pg_fine t, av_exec_elapsed = 0,
     av_run = pg_fine t, av_run_elapsed = 0, av_keys = pg_fine t,
     av_mint = \<lparr> me_id = Inr [], me_secret = Inr [], me_salt = Inr [], me_uuid = ''2'', me_now = t \<rparr>,
     av_audit = pg_fine t, av_audit_id = [], av_elapsed = 0 \<rparr>"

definition sample_ctx :: WorkspaceContext where
  "sample_ctx = \<lparr> ws_WorkspaceID = ''w'', ws_KeyID = ''k'', ws_KeyDBID = ''1'', ws_PgRole = ''dbuser'', ws_Env = ''dev'' \<rparr>"

text \<open>A call of the sample procedure with an idempotency key.\<close>

definition sample_keyed :: "instant \<Rightarrow> keyed_request" where
  "sample_keyed t = \<lparr> kq_endpoint = RpcCall, kq_env = sample_api_env t,
     kq_request = \<lparr> rq_Method = ''POST'', rq_Path = ''/rpc/call'', rq_Header = [(''Idempotency-Key'', ''k'')],
       rq_Body = (''{}'', None), rq_RemoteAddr = [], rq_ctx_ws = Some sample_ctx, rq_ctx_request_id = None \<rparr>,
     kq_writer = new_writer \<rparr>"





definition sample_front :: front_env where
  "sample_front = \<lparr> fv_auth = trace_env 0, fv_find = pg_fine 0, fv_rate = \<lparr> rv_new = 0, rv_allow = 0, rv_tokens = 0 \<rparr> \<rparr>"

definition bare_request :: request where
  "bare_request = \<lparr> rq_Method = ''POST'', rq_Path = ''/sql/execute'', rq_Header = [], rq_Body = ([], None),
     rq_RemoteAddr = [], rq_ctx_ws = None, rq_ctx_request_id = None \<rparr>"


subsection \<open>Who can make keys\<close>

lemma Create_adds:
  "snd (Create up idkey me env inp db) = db
    \<or> (\<exists>row. snd (Create up idkey me env inp db) = db\<lparr>kd_api_keys := kd_api_keys db @ [row]\<rparr>
        \<and> up (in_WorkspaceID inp) = Inr (ak_workspace_id row) \<and> ak_pg_role row = in_PgRole inp)"
proof (cases "up (in_WorkspaceID inp)")
  case (Inr wsID)
  have "snd (in_tx env (create_tx env inp u wsID k h) db) = db
    \<or> (\<exists>row. snd (in_tx env (create_tx env inp u wsID k h) db) = db\<lparr>kd_api_keys := kd_api_keys db @ [row]\<rparr>
        \<and> wsID = ak_workspace_id row \<and> ak_pg_role row = in_PgRole inp)" for u k h
    using in_tx_state[of env "create_tx env inp u wsID k h" db]
    by (auto simp: create_tx_ok insert_api_key_ok)
  with Inr show ?thesis unfolding Create_def by (auto simp: snd_case_result split: sum.split)
qed (simp add: Create_def)

lemma Rotate_adds:
  "snd (Rotate up iv idkey me env oldID ov db) = db
    \<or> (\<exists>old\<in>set (kd_api_keys db). \<exists>row t. up oldID = Inr (ak_id old)
        \<and> ak_workspace_id row = ak_workspace_id old \<and> ak_pg_role row = ak_pg_role old \<and> ak_env row = ak_env old
        \<and> snd (Rotate up iv idkey me env oldID ov db) = db\<lparr>kd_api_keys :=
            upd_rows (\<lambda>r. ak_id r = ak_id old \<and> ak_revoked_at r = None) (\<lambda>r. r\<lparr>ak_expires_at := Some t\<rparr>) (kd_api_keys db @ [row])\<rparr>)"
proof (cases "up oldID")
  case (Inr u)
  show ?thesis
    using in_tx_state[of env "rotate_tx iv idkey me env u ov" db]
  proof (elim disjE exE)
    fix ck assume "rotate_tx iv idkey me env u ov db = Inr (ck, snd (in_tx env (rotate_tx iv idkey me env u ov) db))"
    then obtain old keyID hash db1 dt where "old \<in> set (kd_api_keys db)" "ak_id old = u"
      "insert_api_key (rotated_row me env old keyID hash) db = Inr db1"
      "update_api_keys (\<lambda>r. ak_id r = u \<and> ak_revoked_at r = None)
        (\<lambda>r. r\<lparr>ak_expires_at := Some (pg_now env + dt)\<rparr>) db1 = Inr (snd (in_tx env (rotate_tx iv idkey me env u ov) db))"
      by (rule rotate_tx_ok) blast
    with Inr show ?thesis
      by (intro disjI2 bexI[of _ old] exI[of _ "rotated_row me env old keyID hash"] exI[of _ "pg_now env + dt"])
        (auto simp: Rotate_def rotated_row_def insert_api_key_ok update_api_keys_def)
  qed (simp add: Rotate_def Inr)
qed (simp add: Rotate_def)

lemma other_handlers_keep_keys:
  assumes "FromContext r = Some ws"
  shows "gw_keys (outcome_world (handleSQLExecute dp env r w s)) = gw_keys s"
    "gw_keys (outcome_world (handleRPCCall dp env r w s)) = gw_keys s"
    "gw_keys (outcome_world (handleMe dp r w s)) = gw_keys s"
proof -
  have "gw_keys (outcome_world (sql_idem dp env ws b req res r w s)) = gw_keys s" for b req res
    by (auto simp: sql_idem_def Let_def sql_run_state(1) counters split: prod.split sum.split)
  then show "gw_keys (outcome_world (handleSQLExecute dp env r w s)) = gw_keys s"
    using assms by (auto simp: handleSQLExecute_def MustFromContext_def counters split: sum.split)
  show "gw_keys (outcome_world (handleRPCCall dp env r w s)) = gw_keys s"
    using assms by (auto simp: handleRPCCall_def MustFromContext_def counters Let_def split: sum.split prod.split option.split)
  show "gw_keys (outcome_world (handleMe dp r w s)) = gw_keys s"
    using assms by (simp add: handleMe_def MustFromContext_def)
qed

text \<open>What a request may do to the table of keys on behalf of the workspace context \<open>ws\<close>.\<close>

definition keys_change :: "codec \<Rightarrow> string \<Rightarrow> WorkspaceContext \<Rightarrow> key_db \<Rightarrow> key_db \<Rightarrow> bool" where
  "keys_change cd path ws k k' \<longleftrightarrow>
    path = ''/auth/keys'' \<and> ws_PgRole ws = ''dbadmin''
      \<and> (\<exists>row. k' = k\<lparr>kd_api_keys := kd_api_keys k @ [row]\<rparr> \<and> cd_uuid cd (ws_WorkspaceID ws) = Inr (ak_workspace_id row))
    \<or> path = ''/auth/keys/rotate''
      \<and> (\<exists>old\<in>set (kd_api_keys k). \<exists>row t. cd_uuid cd (ws_KeyDBID ws) = Inr (ak_id old)
          \<and> ak_workspace_id row = ak_workspace_id old \<and> ak_pg_role row = ak_pg_role old \<and> ak_env row = ak_env old
          \<and> k' = k\<lparr>kd_api_keys := upd_rows (\<lambda>r. ak_id r = ak_id old \<and> ak_revoked_at r = None)
                (\<lambda>r. r\<lparr>ak_expires_at := Some t\<rparr>) (kd_api_keys k @ [row])\<rparr>)"

lemma handleKeyCreate_keys:
  assumes "FromContext r = Some ws"
  shows "gw_keys (outcome_world (handleKeyCreate dp env r w s)) = gw_keys s
    \<or> keys_change (dp_codec dp) ''/auth/keys'' ws (gw_keys s) (gw_keys (outcome_world (handleKeyCreate dp env r w s)))"
proof (cases "Decode (dp_jerr dp) decode_create (rq_Body r)")
  case (Inr req)
  let ?inp = "\<lparr> in_WorkspaceID = ws_WorkspaceID ws, in_Env = (if ck_Env req = [] then ws_Env ws else ck_Env req),
          in_PgRole = ck_PgRole req, in_Name = ck_Name req, in_ExpiresAt = None \<rparr>"
  let ?c = "Create (cd_uuid (dp_codec dp)) (dp_idkey dp) (av_mint env) (av_keys env) ?inp (gw_keys s)"
  obtain x k where c: "?c = (x, k)" by fastforce
  have "gw_keys (outcome_world (handleKeyCreate dp env r w s)) = gw_keys s
    \<or> ws_PgRole ws = ''dbadmin'' \<and> gw_keys (outcome_world (handleKeyCreate dp env r w s)) = k"
    using assms Inr c by (cases x) (simp_all add: handleKeyCreate_def MustFromContext_def)
  moreover have "k = gw_keys s \<or> (\<exists>row. k = (gw_keys s)\<lparr>kd_api_keys := kd_api_keys (gw_keys s) @ [row]\<rparr>
        \<and> cd_uuid (dp_codec dp) (ws_WorkspaceID ws) = Inr (ak_workspace_id row))"
    using Create_adds[of "cd_uuid (dp_codec dp)" "dp_idkey dp" "av_mint env" "av_keys env" ?inp "gw_keys s"] c
    by auto
  ultimately show ?thesis by (auto simp: keys_change_def)
qed (use assms in \<open>simp add: handleKeyCreate_def MustFromContext_def\<close>)

lemma handleKeyRotate_keys:
  assumes "FromContext r = Some ws"
  shows "gw_keys (outcome_world (handleKeyRotate dp env r w s)) = gw_keys s
    \<or> keys_change (dp_codec dp) ''/auth/keys/rotate'' ws (gw_keys s) (gw_keys (outcome_world (handleKeyRotate dp env r w s)))"
proof -
  have "gw_keys (outcome_world (handleKeyRotate dp env r w s)) = snd (Rotate (cd_uuid (dp_codec dp)) (cd_interval (dp_codec dp))
      (dp_idkey dp) (av_mint env) (av_keys env) (ws_KeyDBID ws) (dp_KeyRotateOverlap dp) (gw_keys s))"
    using assms by (auto simp: handleKeyRotate_def MustFromContext_def split: sum.split prod.split)
  with Rotate_adds[of "cd_uuid (dp_codec dp)" "cd_interval (dp_codec dp)" "dp_idkey dp" "av_mint env" "av_keys env"
      "ws_KeyDBID ws" "dp_KeyRotateOverlap dp" "gw_keys s"]
  show ?thesis unfolding keys_change_def by simp
qed

lemma wrap_keys:
  assumes "\<And>r' w s ws. FromContext r' = Some ws \<Longrightarrow> gw_keys (outcome_world (h r' w s)) = gw_keys s
    \<or> keys_change cd path ws (gw_keys s) (gw_keys (outcome_world (h r' w s)))"
  shows "gw_keys (outcome_world (wrap cops lops dp fe h r w s)) = gw_keys s
    \<or> (\<exists>ws a. front_auth cops dp fe r s = (Admit ws, a)
        \<and> keys_change cd path ws (gw_keys s) (gw_keys (outcome_world (wrap cops lops dp fe h r w s))))"
proof (cases rule: wrap_cases[of cops lops dp fe h r w s])
  case (passed ws a m w1)
  with assms[of "NewContext r ws" ws w1 "s\<lparr>aw_auth := a, lw_limit := m\<rparr>"] show ?thesis by auto
qed simp

text \<open>
  (C29) Who can make keys: whatever the request and whatever fails, the table
  of keys is as before, or the request was authenticated as some workspace
  context and is one of two: a \<^verbatim>\<open>POST /v1/auth/keys\<close> by a key with the
  role dbadmin, which has added one row, in the caller's own workspace; or a
  \<^verbatim>\<open>POST /v1/auth/keys/rotate\<close>, which has added one row with the
  workspace, role and environment of the caller's key and otherwise only set
  the expiry of that key.
\<close>

theorem api_keys_confined:
  "gw_keys (outcome_world (Routes cops lops dp fe env r w s)) = gw_keys s
    \<or> (\<exists>ws a. front_auth cops dp fe r s = (Admit ws, a) \<and> rq_Method r = ''POST''
        \<and> keys_change (dp_codec dp) (rq_Path r) ws (gw_keys s) (gw_keys (outcome_world (Routes cops lops dp fe env r w s))))"
proof -
  have main: ?thesis if "Routes cops lops dp fe env r w s = wrap cops lops dp fe h r w s" "rq_Method r = ''POST''"
    "\<And>r' w s ws. FromContext r' = Some ws \<Longrightarrow> gw_keys (outcome_world (h r' w s)) = gw_keys s
      \<or> keys_change (dp_codec dp) (rq_Path r) ws (gw_keys s) (gw_keys (outcome_world (h r' w s)))" for h
    using wrap_keys[where cops = cops and lops = lops and dp = dp and fe = fe and r = r and w = w and s = s, OF that(3)] that(1,2)
    by auto
  show ?thesis
  proof (cases rule: Routes_cases[of r cops lops dp fe env w s])
    case sql
    then show ?thesis by (intro main) (auto intro: disjI1 other_handlers_keep_keys)
  next
    case rpc
    then show ?thesis by (intro main) (auto intro: disjI1 other_handlers_keep_keys)
  next
    case rotate
    then show ?thesis by (intro main) (simp_all, erule handleKeyRotate_keys)
  next
    case create
    then show ?thesis by (intro main) (simp_all, erule handleKeyCreate_keys)
  next
    case me
    have "gw_keys (outcome_world (wrap cops lops dp fe (handleMe dp) r w s)) = gw_keys s"
      by (cases rule: wrap_cases[of cops lops dp fe "handleMe dp" r w s]) (simp_all add: other_handlers_keep_keys(3)[OF FromContext_NewContext])
    with me show ?thesis by simp
  qed simp
qed

end
