(* ===== verification/DirectDoer.thy ===== *)
theory DirectDoer
  imports Mcp ApiSpec
begin

text \<open>
  The \<^verbatim>\<open>Doer\<close> of the MCP endpoint embedded in the server
  (\<^verbatim>\<open>cmd/server/direct_doer.go\<close>), over the state of the gateway, and its equivalence
  with the REST handlers.

  The context of a call is the request \<open>r\<close> that carries it and the workspace
  \<open>ws\<close> that \<^verbatim>\<open>MustFromContext\<close> returns.
\<close>

section \<open>Operations\<close>

definition dd_audit ::
  "('v, 'db, 'sc) Deps \<Rightarrow> api_env \<Rightarrow> request \<Rightarrow> WorkspaceContext \<Rightarrow> string \<Rightarrow> string \<Rightarrow> string \<Rightarrow> goval list option
    \<Rightarrow> int \<Rightarrow> go_error option \<Rightarrow> ('l, 'm, 'db, 'x) gateway_world_scheme \<Rightarrow> ('l, 'm, 'db, 'x) gateway_world_scheme" where
  "dd_audit dp env r ws endpoint command sql params st err s =
    write_entry dp env
      \<lparr> au_RequestID = GetRequestID r, au_WorkspaceID = ws_WorkspaceID ws, au_KeyDBID = ws_KeyDBID ws,
        au_Endpoint = endpoint, au_Command = command, au_SQL = sql, au_Params = params,
        au_DurationMS = Milliseconds (av_elapsed env), au_StatusCode = st,
        au_ErrorCode = (case err of None \<Rightarrow> [] | Some _ \<Rightarrow> p_Title (MapError err)),
        au_SQLState = [], au_ClientIP = [] \<rparr> s"

text \<open>The executor makes a slice of columns exactly when the statement returns rows; a slice of rows, when there is one.\<close>

definition sql_result_of :: "Result \<Rightarrow> 'v Response \<Rightarrow> 'v SQLResult" where
  "sql_result_of res resp =
    \<lparr> sq_Command = re_Command resp,
      sq_Columns = (if rs_IsSelect res \<or> rs_HasReturning res then Some (re_Columns resp) else None),
      sq_Rows = (if re_Rows resp = [] then None else Some (re_Rows resp)),
      sq_RowsAffected = re_RowsAffected resp, sq_DurationMS = re_DurationMS resp \<rparr>"

definition dd_SQLExecute ::
  "('v, 'db, 'sc) Deps \<Rightarrow> api_env \<Rightarrow> WorkspaceContext \<Rightarrow> request \<Rightarrow> string \<Rightarrow> goval list option \<Rightarrow> string
    \<Rightarrow> ('l, 'm, 'db, 'x) gateway_world_scheme \<Rightarrow> 'v SQLResult result \<times> ('l, 'm, 'db, 'x) gateway_world_scheme" where
  "dd_SQLExecute dp env ws r sql params _ s =
    (let ps = (case params of None \<Rightarrow> [] | Some ps \<Rightarrow> ps);
         audit = (\<lambda>cmd. dd_audit dp env r ws ''MCP sql_execute'' cmd sql params) in
     case Validate (dp_parse dp) (dp_scan dp) (dp_Validator dp) sql ps of
       Inl e \<Rightarrow> (Inl e, audit [] (p_Status (MapError (Some e))) (Some e) s)
     | Inr res \<Rightarrow>
     case Execute (dp_Executor dp) (dp_user dp) (\<lambda>vs. no_bytes (row_json (dp_cell dp) vs)) (av_exec env) (av_exec_elapsed env)
        \<lparr> ei_WorkspaceID = ws_WorkspaceID ws, ei_PgRole = ws_PgRole ws, ei_SQL = sql,
          ei_Params = map (dp_any dp) ps, ei_Result = Some res \<rparr> (gw_tenant s) of
       (Inl e, d) \<Rightarrow> (Inl e, audit (rs_Command res) (p_Status (MapError (Some e))) (Some e) (s\<lparr>gw_tenant := d\<rparr>))
     | (Inr resp, d) \<Rightarrow> (Inr (sql_result_of res resp), audit (rs_Command res) 200 None (s\<lparr>gw_tenant := d\<rparr>)))"

text \<open>\<^verbatim>\<open>json.Unmarshal\<close> into a nil map.\<close>

definition decode_map :: "json \<Rightarrow> (string \<times> goval) list option option" where
  "decode_map v = map_field (\<lambda>m. m) (\<lambda>x _. x) v None"

definition dd_RPCCall ::
  "('v, 'db, 'sc) Deps \<Rightarrow> api_env \<Rightarrow> WorkspaceContext \<Rightarrow> request \<Rightarrow> string \<Rightarrow> (string \<times> goval) list option
    \<Rightarrow> ('l, 'm, 'db, 'x) gateway_world_scheme \<Rightarrow> (string \<times> goval) list option result \<times> ('l, 'm, 'db, 'x) gateway_world_scheme" where
  "dd_RPCCall dp env ws r procedure args s =
    (case Call (dp_Registry dp) (dp_schema dp) (dp_codec dp) (dp_rpcq dp) (dp_float dp) (call_env_of env)
        \<lparr> ci_WorkspaceID = ws_WorkspaceID ws, ci_PgRole = ws_PgRole ws, ci_Name = procedure, ci_Args = args,
          ci_IdempotencyKey = [], ci_RequestHash = [],
          ci_StatementTimeout = dp_StatementTimeout dp, ci_IdleInTxTimeout = dp_IdleInTxTimeout dp \<rparr>
        (gw_idem s) (gw_tenant s) of
      (out, i, d, warn) \<Rightarrow>
        let s0 = s\<lparr>gw_idem := i, gw_tenant := d\<rparr>;
            s1 = (case warn of None \<Rightarrow> s0 | Some e \<Rightarrow> emit (LogWarn ''idempotency complete failed'' e []) s0);
            audit = dd_audit dp env r ws ''MCP rpc_call'' ''RPC'' procedure (Some [args_any args]) in
        (case out of
           Inl e \<Rightarrow> (Inl e, audit (p_Status (MapError (Some e))) (Some e) s1)
         | Inr x \<Rightarrow>
            (case cr_Result x of None \<Rightarrow> (Inr None, audit 200 None s1)
             | Some b \<Rightarrow>
                (case Unmarshal (dp_jerr dp) decode_map b of
                   Inl e \<Rightarrow> let e' = Errorf ''unmarshal rpc result: '' e '''' in (Inl e', audit 500 (Some e') s1)
                 | Inr m \<Rightarrow> (Inr m, audit 200 None s1)))))"

definition dd_Me :: "WorkspaceContext \<Rightarrow> 's \<Rightarrow> MeResult result \<times> 's" where
  "dd_Me ws s = (Inr \<lparr> mr_WorkspaceID = ws_WorkspaceID ws, mr_KeyID = ws_KeyID ws, mr_Role = ws_PgRole ws,
     mr_Env = ws_Env ws \<rparr>, s)"

text \<open>\<open>ping\<close> is None for a nil pool, else what the ping returns.\<close>

definition dd_Health :: "go_error option option \<Rightarrow> 's \<Rightarrow> HealthResult result \<times> 's" where
  "dd_Health ping s =
    (case ping of
       None \<Rightarrow> (Inr \<lparr> hr_Healthy = False, hr_Ready = False, hr_Detail = ''database pool not initialized'' \<rparr>, s)
     | Some (Some e) \<Rightarrow> (Inr \<lparr> hr_Healthy = False, hr_Ready = False, hr_Detail = ''database ping failed: '' @ error_text e \<rparr>, s)
     | Some None \<Rightarrow> (Inr \<lparr> hr_Healthy = True, hr_Ready = True, hr_Detail = [] \<rparr>, s))"

definition directDoer ::
  "('v, 'db, 'sc) Deps \<Rightarrow> api_env \<Rightarrow> go_error option option \<Rightarrow> WorkspaceContext \<Rightarrow> request
    \<Rightarrow> ('v, ('l, 'm, 'db, 'x) gateway_world_scheme) Doer" where
  "directDoer dp env ping ws r =
    \<lparr> do_SQLExecute = dd_SQLExecute dp env ws r, do_RPCCall = dd_RPCCall dp env ws r,
      do_Me = dd_Me ws, do_Health = dd_Health ping \<rparr>"

section \<open>Lemmas\<close>

text \<open>The stores on which the two paths must agree.\<close>

definition same_stores :: "('l, 'm, 'db, 'x) gateway_world_scheme \<Rightarrow> ('l, 'm, 'db, 'x) gateway_world_scheme \<Rightarrow> bool" where
  "same_stores s t \<longleftrightarrow> gw_keys s = gw_keys t \<and> gw_idem s = gw_idem t \<and> gw_tenant s = gw_tenant t
     \<and> aw_auth s = aw_auth t \<and> lw_limit s = lw_limit t \<and> length (gw_audit s) = length (gw_audit t)"

text \<open>What the REST handler answers for the outcome of the \<^verbatim>\<open>Doer\<close>.\<close>

definition response_of :: "'v SQLResult \<Rightarrow> 'v Response" where
  "response_of x = \<lparr> re_Command = sq_Command x, re_Columns = (case sq_Columns x of None \<Rightarrow> [] | Some cs \<Rightarrow> cs),
     re_Rows = (case sq_Rows x of None \<Rightarrow> [] | Some rs \<Rightarrow> rs), re_RowsAffected = sq_RowsAffected x, re_DurationMS = sq_DurationMS x \<rparr>"

definition rest_answer :: "('v, 'db, 'sc) Deps \<Rightarrow> 'v SQLResult result \<Rightarrow> response_writer \<Rightarrow> response_writer" where
  "rest_answer dp out w =
    (case out of Inl e \<Rightarrow> WriteProblem (MapError (Some e)) w
     | Inr x \<Rightarrow>
        let body = no_bytes (response_json (dp_cell dp) (response_of x)) in
        if dp_MaxResponseBodyBytes dp > 0 \<and> int (length body) > dp_MaxResponseBodyBytes dp then WriteProblem too_large w
        else write_body body (write_header 200 (set_header ''Content-Type'' ''application/json'' w)))"

lemma Execute_columns:
  assumes "Execute cfg pu marshal env elapsed inp db = (Inr resp, d)" "ei_Result inp = Some res"
    and "\<not> rs_IsSelect res" "\<not> rs_HasReturning res"
  shows "re_Columns resp = []"
  using assms
  by (auto simp: Execute_def in_tx_def execute_tx_def Let_def split: option.splits sum.splits prod.splits)

lemma response_of_result:
  "(\<not> rs_IsSelect res \<Longrightarrow> \<not> rs_HasReturning res \<Longrightarrow> re_Columns resp = []) \<Longrightarrow> response_of (sql_result_of res resp) = resp"
  by (auto simp: response_of_def sql_result_of_def)

text \<open>Whether a row is added depends on its id, its workspace and its key alone.\<close>

lemma insert_audit_alike:
  assumes "al_id r = al_id r'" "al_workspace_id r = al_workspace_id r'" "al_key_id r = al_key_id r'"
  shows "(\<exists>e. insert_audit kd r rows = Inl e \<and> insert_audit kd r' rows = Inl e)
    \<or> insert_audit kd r rows = Inr (rows @ [r]) \<and> insert_audit kd r' rows = Inr (rows @ [r'])"
  unfolding insert_audit_def assms pg_fail_def by simp

lemma pool_exec_length:
  assumes "(\<exists>e. f db = Inl e \<and> g db = Inl e) \<or> f db = Inr (db @ [r]) \<and> g db = Inr (db @ [r'])"
  shows "length (snd (pool_exec env n f db)) = length (snd (pool_exec env n g db))"
  using assms by (cases "pg_stmt env n") (auto simp: pool_exec_def)

lemma audit_Write_rows:
  "fst (audit_Write u ff env i w kd e rows) =
    (if wr_disabled w \<or> \<not> wr_pool w then rows else snd (pool_exec env 0 (insert_audit kd (audit_row_of u ff w i e)) rows))"
  by (simp add: audit_Write_def split: prod.split option.split)

lemma gw_audit_write_entry:
  "gw_audit (write_entry dp env e s) =
    (case dp_Auditor dp of None \<Rightarrow> gw_audit s
     | Some w \<Rightarrow> fst (audit_Write (cd_uuid (dp_codec dp)) (dp_float dp) (av_audit env) (av_audit_id env) w (gw_keys s) e (gw_audit s)))"
  by (simp add: write_entry_def split: option.split prod.split)

lemma write_entry_length:
  assumes "au_WorkspaceID e = au_WorkspaceID e'" "au_KeyDBID e = au_KeyDBID e'"
    and "gw_keys s = gw_keys t" "gw_audit s = gw_audit t"
  shows "length (gw_audit (write_entry dp env e s)) = length (gw_audit (write_entry dp env e' t))"
proof -
  have "length (snd (pool_exec pe 0 (insert_audit kd (audit_row_of u ff w i e)) rows))
      = length (snd (pool_exec pe 0 (insert_audit kd (audit_row_of u ff w i e')) rows))" for pe kd u ff w i rows
    by (rule pool_exec_length[OF insert_audit_alike]) (simp_all add: audit_row_of_def assms(1,2))
  with assms(3,4) show ?thesis by (simp add: gw_audit_write_entry audit_Write_rows split: option.split)
qed

lemma write_entry_stores:
  assumes "au_WorkspaceID e = au_WorkspaceID e'" "au_KeyDBID e = au_KeyDBID e'" "gw_audit s = gw_audit t" "same_stores s t"
  shows "same_stores (write_entry dp env e s) (write_entry dp env e' t)"
  using assms write_entry_length[of e e' s t dp env]
  by (simp add: same_stores_def) (simp add: write_entry_def split: option.split prod.split)

lemma same_stores_refl [simp]: "same_stores s s"
  by (simp add: same_stores_def)

lemma same_stores_count [simp]:
  "same_stores (count_sql c st s) t = same_stores s t" "same_stores (count_rpc c st s) t = same_stores s t"
  "same_stores (count_miss s) t = same_stores s t" "same_stores (count_hit s) t = same_stores s t"
  by (simp_all add: same_stores_def counters measure_by_def)

lemma audits_agree:
  "same_stores (api_audit dp env r ws ep cmd q ps st err s) (dd_audit dp env r ws ep' cmd' q' ps' st' err' s)"
  by (auto simp: api_audit_def dd_audit_def api_entry_def intro!: write_entry_stores split: option.split)

section \<open>Properties\<close>

text \<open>
  (C35) The embedded MCP endpoint and the REST API run a statement alike: for
  an authenticated request without idempotency key whose body decodes to a
  statement and its parameters, \<^verbatim>\<open>directDoer.SQLExecute\<close> and
  \<^verbatim>\<open>handleSQLExecute\<close> leave the tenant database, the keys, the idempotency table,
  the caches and the limiter in the same state and add equally many audit
  rows, and the HTTP response is a function of what the \<^verbatim>\<open>Doer\<close> returned: the
  problem document of its error, or the JSON of its result, or 413 when that
  exceeds the limit (the one check the embedded path does not make).
\<close>
theorem embedded_matches_rest:
  assumes "FromContext r = Some ws" "ReadAll (rq_Body r) = Inr b" "Unmarshal (dp_jerr dp) decode_sql b = Inr req"
    and "header_get (rq_Header r) ''Idempotency-Key'' = []"
    and "do_SQLExecute (directDoer dp env ping ws r) (sr_SQL req) (sr_Params req) key s = (out, t)"
  shows "\<exists>s'. handleSQLExecute dp env r w s = Returned (rest_answer dp out w) s' \<and> same_stores s' t"
proof (cases "Validate (dp_parse dp) (dp_scan dp) (dp_Validator dp) (sr_SQL req) (case sr_Params req of None \<Rightarrow> [] | Some ps \<Rightarrow> ps)")
  case (Inl e)
  then show ?thesis using assms
    by (auto simp: handleSQLExecute_def MustFromContext_def directDoer_def dd_SQLExecute_def rest_answer_def Let_def audits_agree)
next
  case (Inr res)
  let ?x = "Execute (dp_Executor dp) (dp_user dp) (\<lambda>vs. no_bytes (row_json (dp_cell dp) vs)) (av_exec env) (av_exec_elapsed env)
        \<lparr> ei_WorkspaceID = ws_WorkspaceID ws, ei_PgRole = ws_PgRole ws, ei_SQL = sr_SQL req,
          ei_Params = map (dp_any dp) (case sr_Params req of None \<Rightarrow> [] | Some ps \<Rightarrow> ps), ei_Result = Some res \<rparr> (gw_tenant s)"
  have h: "handleSQLExecute dp env r w s = sql_run dp env ws req res [] r w s"
    using assms(1-4) Inr by (simp add: handleSQLExecute_def MustFromContext_def sql_idem_def)
  obtain o1 d where x: "?x = (o1, d)" by fastforce
  show ?thesis
  proof (cases o1)
    case (Inl e)
    with x assms(5) Inr show ?thesis
      by (auto simp: h sql_run_def directDoer_def dd_SQLExecute_def rest_answer_def Let_def sql_complete_def audits_agree)
  next
    case o: (Inr resp)
    have "response_of (sql_result_of res resp) = resp"
      using Execute_columns[OF x[unfolded o]] by (intro response_of_result) simp
    with o x assms(5) Inr show ?thesis
      by (auto simp: h sql_run_def directDoer_def dd_SQLExecute_def rest_answer_def Let_def sql_complete_def audits_agree)
  qed
qed

text \<open>A statement the sample validator rejects.\<close>

lemma empty_document: "jparse ''{}'' = Some (JObj [])"
  by code_simp

theorem embedded_matches_rest_witness:
  "\<exists>s'. handleSQLExecute sample_deps (sample_api_env 5)
      (bare_request\<lparr>rq_Body := (''{}'', None), rq_ctx_ws := Some sample_ctx\<rparr>) new_writer sample_world
    = Returned (rest_answer sample_deps (fst (dd_SQLExecute sample_deps (sample_api_env 5) sample_ctx
        (bare_request\<lparr>rq_Body := (''{}'', None), rq_ctx_ws := Some sample_ctx\<rparr>) [] None [] sample_world)) new_writer) s'
    \<and> same_stores s' (snd (dd_SQLExecute sample_deps (sample_api_env 5) sample_ctx
        (bare_request\<lparr>rq_Body := (''{}'', None), rq_ctx_ws := Some sample_ctx\<rparr>) [] None [] sample_world))"
  by (rule embedded_matches_rest[where ws = sample_ctx and b = "''{}''" and key = "[]" and ping = None
        and req = "\<lparr> sr_SQL = [], sr_Params = None \<rparr>"])
    (simp_all add: bare_request_def FromContext_def header_get_def directDoer_def sample_deps_def ReadAll_def Unmarshal_def
      empty_document decode_sql_def decode_struct_def)

text \<open>Procedures likewise, up to the form of the result: without a key the request hash does not matter.\<close>

lemma run_tx_hash: "run_tx q ff env proc (inp\<lparr>ci_RequestHash := h\<rparr>) = run_tx q ff env proc inp"
  by (rule ext) (simp add: run_tx_def split: sum.split)

lemma Call_without_key:
  "ci_IdempotencyKey inp = [] \<Longrightarrow> Call reg vd cd q ff env (inp\<lparr>ci_RequestHash := h\<rparr>) i d = Call reg vd cd q ff env inp i d"
  by (simp add: Call_def call_run_def rpc_run_def run_tx_hash split: option.split)

lemma embedded_rpc_matches_rest:
  assumes "FromContext r = Some ws" "ReadAll (rq_Body r) = Inr b" "Unmarshal (dp_jerr dp) decode_rpc b = Inr req"
    and "header_get (rq_Header r) ''Idempotency-Key'' = []"
    and "do_RPCCall (directDoer dp env ping ws r) (rr_Procedure req) (rr_Args req) s = (out, t)"
  shows "\<exists>w' s'. handleRPCCall dp env r w s = Returned w' s' \<and> gw_tenant s' = gw_tenant t \<and> gw_idem s' = gw_idem t
     \<and> gw_keys s' = gw_keys t"
proof -
  let ?inp = "\<lparr> ci_WorkspaceID = ws_WorkspaceID ws, ci_PgRole = ws_PgRole ws, ci_Name = rr_Procedure req, ci_Args = rr_Args req,
      ci_IdempotencyKey = [], ci_RequestHash = [],
      ci_StatementTimeout = dp_StatementTimeout dp, ci_IdleInTxTimeout = dp_IdleInTxTimeout dp \<rparr>"
  obtain o1 i d warn where c: "Call (dp_Registry dp) (dp_schema dp) (dp_codec dp) (dp_rpcq dp) (dp_float dp) (call_env_of env) ?inp
      (gw_idem s) (gw_tenant s) = (o1, i, d, warn)" by (metis prod_cases4)
  show ?thesis using assms c
      Call_without_key[of ?inp "dp_Registry dp" "dp_schema dp" "dp_codec dp" "dp_rpcq dp" "dp_float dp" "call_env_of env"
        "HashRequest (rq_Method r) (rq_Path r) b" "gw_idem s" "gw_tenant s"]
    by (auto simp: handleRPCCall_def MustFromContext_def directDoer_def dd_RPCCall_def dd_audit_def Let_def counters
        split: sum.splits option.splits if_splits)
qed

end
