(* ===== verification/PyRetry.thy ===== *)
theory PyRetry
  imports Float64 Json
begin

text \<open>
  The Python client's text helpers, its error classes
  (\<^verbatim>\<open>clients/python/src/agentcoopdb/errors.py\<close>) and its retry loop
  (\<^verbatim>\<open>retry.py\<close>).

  A Python \<^verbatim>\<open>str\<close> is a \<^typ>\<open>string\<close> of code points below 256; the character
  classes and case mappings are those of Unicode on that range.  Numbers of
  type \<^verbatim>\<open>float\<close> are reals, with \<^const>\<open>fl64\<close> where an operation rounds.
\<close>

section \<open>Text\<close>

definition cp :: "char \<Rightarrow> nat" where "cp c = of_char c"

definition py_isspace :: "char \<Rightarrow> bool" where
  "py_isspace c \<longleftrightarrow> cp c \<in> {9, 10, 11, 12, 13, 28, 29, 30, 31, 32, 133, 160}"

definition py_isdigit :: "char \<Rightarrow> bool" where
  "py_isdigit c \<longleftrightarrow> is_digit c \<or> cp c \<in> {178, 179, 185}"

definition py_islower :: "char \<Rightarrow> bool" where
  "py_islower c \<longleftrightarrow> 97 \<le> cp c \<and> cp c \<le> 122 \<or> cp c \<in> {170, 181, 186} \<or> 223 \<le> cp c \<and> cp c \<noteq> 247"

text \<open>\<^verbatim>\<open>str.upper\<close> may leave the range: it gives code points.\<close>

definition py_upper1 :: "char \<Rightarrow> nat list" where
  "py_upper1 c =
    (if cp c = 223 then [83, 83]
     else if cp c = 181 then [924]
     else if cp c = 255 then [376]
     else if 97 \<le> cp c \<and> cp c \<le> 122 \<or> 224 \<le> cp c \<and> cp c \<noteq> 247 then [cp c - 32]
     else [cp c])"

definition py_upper :: "string \<Rightarrow> nat list" where
  "py_upper s = concat (map py_upper1 s)"

definition py_lstrip :: "string \<Rightarrow> string" where
  "py_lstrip = dropWhile py_isspace"

definition rstrip_by :: "(char \<Rightarrow> bool) \<Rightarrow> string \<Rightarrow> string" where
  "rstrip_by p s = rev (dropWhile p (rev s))"

definition strip_by :: "(char \<Rightarrow> bool) \<Rightarrow> string \<Rightarrow> string" where
  "strip_by p s = rstrip_by p (dropWhile p s)"

definition starts_with :: "'a list \<Rightarrow> 'a list \<Rightarrow> bool" where
  "starts_with p s \<longleftrightarrow> take (length p) s = p"

section \<open>Errors\<close>

datatype error_class =
    AgentCoopDBError | AuthError | ValidationError | IdempotencyConflict | RateLimited | ServerError | NetworkError | QueueFullError

record py_error =
  pe_class :: error_class
  pe_message :: string
  pe_status :: "int option"
  pe_problem :: "(string \<times> json) list"
  pe_retry_after :: real

text \<open>An exception of the package's hierarchy, or a builtin one.\<close>

datatype exc = Raised py_error | Builtin string

type_synonym 'a py = "exc + 'a"

definition class_name :: "error_class \<Rightarrow> string" where
  "class_name c =
    (case c of AgentCoopDBError \<Rightarrow> ''AgentCoopDBError'' | AuthError \<Rightarrow> ''AuthError'' | ValidationError \<Rightarrow> ''ValidationError''
     | IdempotencyConflict \<Rightarrow> ''IdempotencyConflict'' | RateLimited \<Rightarrow> ''RateLimited'' | ServerError \<Rightarrow> ''ServerError''
     | NetworkError \<Rightarrow> ''NetworkError'' | QueueFullError \<Rightarrow> ''QueueFullError'')"

definition mk_error :: "error_class \<Rightarrow> string \<Rightarrow> int option \<Rightarrow> (string \<times> json) list \<Rightarrow> py_error" where
  "mk_error c msg st p = \<lparr> pe_class = c, pe_message = msg, pe_status = st, pe_problem = p, pe_retry_after = 1 \<rparr>"

text \<open>\<^verbatim>\<open>str(x)\<close> of a decoded JSON value; \<open>rp\<close> is Python's \<^verbatim>\<open>repr\<close> of numbers, lists and dicts.\<close>

definition py_str :: "(json \<Rightarrow> string) \<Rightarrow> json \<Rightarrow> string" where
  "py_str rp v =
    (case v of JNull \<Rightarrow> ''None'' | JBool b \<Rightarrow> (if b then ''True'' else ''False'') | JStr s \<Rightarrow> s | _ \<Rightarrow> rp v)"

text \<open>A dict is an association list without repeated keys.\<close>

definition dict_get :: "(string \<times> json) list \<Rightarrow> string \<Rightarrow> json option" where
  "dict_get d k = map_of d k"

definition error_title :: "(json \<Rightarrow> string) \<Rightarrow> py_error \<Rightarrow> string" where
  "error_title rp e =
    (let t = (case dict_get (pe_problem e) ''title'' of None \<Rightarrow> [] | Some v \<Rightarrow> py_str rp v)
     in if t = [] then class_name (pe_class e) else t)"

definition error_sqlstate :: "(json \<Rightarrow> string) \<Rightarrow> py_error \<Rightarrow> string" where
  "error_sqlstate rp e = (case dict_get (pe_problem e) ''sqlstate'' of None \<Rightarrow> [] | Some v \<Rightarrow> py_str rp v)"

section \<open>Backoff and retry\<close>

text \<open>\<open>u\<close> is what \<^verbatim>\<open>random.random()\<close> returns, a number in [0, 1).\<close>

definition backoff :: "real \<Rightarrow> nat \<Rightarrow> real \<Rightarrow> real \<Rightarrow> real" where
  "backoff u attempt base cap = (let upper = min cap (base * 2 ^ attempt) in fl64 (u * upper))"

datatype retry_decision = Retry real | Reraise

text \<open>What the handlers around \<^verbatim>\<open>fn()\<close> do with an exception: sleep and go on, or let it through.\<close>

definition on_error :: "real \<Rightarrow> nat \<Rightarrow> exc \<Rightarrow> retry_decision" where
  "on_error u attempt x =
    (case x of Builtin _ \<Rightarrow> Reraise
     | Raised e \<Rightarrow>
        (case pe_class e of
           RateLimited \<Rightarrow> Retry (max (pe_retry_after e) (backoff u attempt 1 300))
         | NetworkError \<Rightarrow> Retry (backoff u attempt 1 300)
         | ServerError \<Rightarrow> Retry (backoff u attempt 1 300)
         | _ \<Rightarrow> Reraise))"

text \<open>The loop from attempt \<open>k\<close> on with \<open>n\<close> attempts left: the outcome, the delays slept and the
  state of the callee.  \<open>rnd\<close> gives the random number of each attempt.\<close>

fun retry_loop ::
  "(nat \<Rightarrow> real) \<Rightarrow> (nat \<Rightarrow> 's \<Rightarrow> 'a py \<times> 's) \<Rightarrow> nat \<Rightarrow> nat \<Rightarrow> exc option \<Rightarrow> 's \<Rightarrow> 'a py \<times> real list \<times> 's" where
  "retry_loop rnd fn k 0 prev s = (Inl (case prev of None \<Rightarrow> Builtin ''AssertionError'' | Some e \<Rightarrow> e), [], s)"
| "retry_loop rnd fn k (Suc n) prev s =
    (case fn k s of
       (Inr x, s') \<Rightarrow> (Inr x, [], s')
     | (Inl e, s') \<Rightarrow>
        (case on_error (rnd k) k e of
           Reraise \<Rightarrow> (Inl e, [], s')
         | Retry d \<Rightarrow>
            (case retry_loop rnd fn (Suc k) n (Some e) s' of (r, ds, s'') \<Rightarrow> (r, d # ds, s''))))"

definition with_retry ::
  "(nat \<Rightarrow> real) \<Rightarrow> (nat \<Rightarrow> 's \<Rightarrow> 'a py \<times> 's) \<Rightarrow> nat \<Rightarrow> 's \<Rightarrow> 'a py \<times> real list \<times> 's" where
  "with_retry rnd fn max_attempts s = retry_loop rnd fn 0 max_attempts None s"

definition transient :: "exc \<Rightarrow> bool" where
  "transient x = (case x of Builtin _ \<Rightarrow> False | Raised e \<Rightarrow> pe_class e \<in> {RateLimited, NetworkError, ServerError})"

section \<open>Lemmas\<close>

lemma on_error_Retry: "(\<exists>d. on_error u k x = Retry d) \<longleftrightarrow> transient x"
  by (auto simp: on_error_def transient_def split: exc.splits error_class.splits)

text \<open>The states before each attempt, as long as the attempts fail with transient errors.\<close>

primrec after_failures :: "(nat \<Rightarrow> 's \<Rightarrow> 'a py \<times> 's) \<Rightarrow> nat \<Rightarrow> nat \<Rightarrow> 's \<Rightarrow> 's" where
  "after_failures fn k 0 s = s"
| "after_failures fn k (Suc j) s = after_failures fn (Suc k) j (snd (fn k s))"

definition answer_at :: "(nat \<Rightarrow> 's \<Rightarrow> 'a py \<times> 's) \<Rightarrow> nat \<Rightarrow> nat \<Rightarrow> 's \<Rightarrow> 'a py" where
  "answer_at fn k j s = fst (fn (k + j) (after_failures fn k j s))"

definition is_transient :: "'a py \<Rightarrow> bool" where
  "is_transient r = (case r of Inl x \<Rightarrow> transient x | Inr a \<Rightarrow> False)"

lemma answer_at_0: "answer_at fn k 0 s = fst (fn k s)"
  by (simp add: answer_at_def)

lemma answer_at_Suc: "answer_at fn k (Suc j) s = answer_at fn (Suc k) j (snd (fn k s))"
  by (simp add: answer_at_def)

text \<open>One round of the loop.\<close>

lemma retry_loop_round:
  assumes "fn k s = (a, s1)"
  shows "\<not> is_transient a \<Longrightarrow> retry_loop rnd fn k (Suc n) prev s = (a, [], s1)"
    and "is_transient a \<Longrightarrow> \<exists>e d. a = Inl e \<and> on_error (rnd k) k e = Retry d \<and>
      retry_loop rnd fn k (Suc n) prev s
        = (case retry_loop rnd fn (Suc k) n (Some e) s1 of (r, ds, s'') \<Rightarrow> (r, d # ds, s''))"
proof -
  show "retry_loop rnd fn k (Suc n) prev s = (a, [], s1)" if "\<not> is_transient a"
  proof (cases a)
    case (Inl e)
    with that have "on_error (rnd k) k e = Reraise"
      using on_error_Retry[of "rnd k" k e] by (cases "on_error (rnd k) k e") (simp_all add: is_transient_def)
    with Inl assms show ?thesis by simp
  qed (simp add: assms)
  show "\<exists>e d. a = Inl e \<and> on_error (rnd k) k e = Retry d \<and>
      retry_loop rnd fn k (Suc n) prev s
        = (case retry_loop rnd fn (Suc k) n (Some e) s1 of (r, ds, s'') \<Rightarrow> (r, d # ds, s''))" if "is_transient a"
  proof (cases a)
    case (Inl e)
    with that obtain d where "on_error (rnd k) k e = Retry d"
      using on_error_Retry[of "rnd k" k e] by (auto simp: is_transient_def)
    with Inl assms show ?thesis by simp
  qed (use that in \<open>simp add: is_transient_def\<close>)
qed

text \<open>The loop returns the first answer that is not transient, or the last one; each delay is the one
  its failed attempt asks for.\<close>

definition delays_ok :: "(nat \<Rightarrow> real) \<Rightarrow> (nat \<Rightarrow> 's \<Rightarrow> 'a py \<times> 's) \<Rightarrow> nat \<Rightarrow> 's \<Rightarrow> real list \<Rightarrow> bool" where
  "delays_ok rnd fn k s ds \<longleftrightarrow>
    (\<forall>i<length ds. \<exists>x. answer_at fn k i s = Inl x \<and> on_error (rnd (k + i)) (k + i) x = Retry (ds ! i))"

lemma delays_ok_Cons:
  "delays_ok rnd fn k s (d # ds) \<longleftrightarrow>
    (\<exists>x. fst (fn k s) = Inl x \<and> on_error (rnd k) k x = Retry d) \<and> delays_ok rnd fn (Suc k) (snd (fn k s)) ds"
  unfolding delays_ok_def by (simp add: All_less_Suc2 answer_at_0 answer_at_Suc)

lemma retry_loop_run:
  assumes "retry_loop rnd fn k (Suc n) prev s = (r, ds, s')"
  shows "delays_ok rnd fn k s ds \<and> (\<exists>j\<le>n. (\<forall>i<j. is_transient (answer_at fn k i s)) \<and> r = answer_at fn k j s
    \<and> s' = after_failures fn k (Suc j) s \<and> (is_transient r \<longrightarrow> j = n) \<and> length ds = (if is_transient r then Suc n else j))"
  using assms
proof (induction n arbitrary: k prev s ds)
  case 0
  obtain a s1 where f: "fn k s = (a, s1)" by fastforce
  show ?case
  proof (cases "is_transient a")
    case True
    from retry_loop_round(2)[where rnd = rnd and fn = fn and prev = prev and n = 0, OF f True] 0 f show ?thesis
      using True by (auto simp: answer_at_0 delays_ok_Cons delays_ok_def)
  next
    case False
    from retry_loop_round(1)[where rnd = rnd and fn = fn and prev = prev and n = 0, OF f False] 0 f show ?thesis
      using False by (simp add: answer_at_0 delays_ok_def)
  qed
next
  case (Suc n)
  obtain a s1 where f: "fn k s = (a, s1)" by fastforce
  show ?case
  proof (cases "is_transient a")
    case True
    from retry_loop_round(2)[where rnd = rnd and fn = fn and prev = prev and n = "Suc n", OF f True] Suc.prems
    obtain e d ds1 where e: "a = Inl e" "on_error (rnd k) k e = Retry d"
      and l: "retry_loop rnd fn (Suc k) (Suc n) (Some e) s1 = (r, ds1, s')" "ds = d # ds1"
      by (auto split: prod.splits)
    from Suc.IH[OF l(1)] obtain j where j: "delays_ok rnd fn (Suc k) s1 ds1" "j \<le> n"
      "\<forall>i<j. is_transient (answer_at fn (Suc k) i s1)" "r = answer_at fn (Suc k) j s1"
      "s' = after_failures fn (Suc k) (Suc j) s1" "is_transient r \<longrightarrow> j = n"
      "length ds1 = (if is_transient r then Suc n else j)" by (elim conjE exE)
    have "\<forall>i<Suc j. is_transient (answer_at fn k i s)"
      using j(3) True f by (simp add: All_less_Suc2 answer_at_0 answer_at_Suc)
    moreover have "delays_ok rnd fn k s ds" using j(1) e f l(2) by (simp add: delays_ok_Cons)
    ultimately show ?thesis using j(2,4,5,6,7) l(2) f
      by (intro conjI exI[of _ "Suc j"]) (simp_all add: answer_at_Suc)
  next
    case False
    from retry_loop_round(1)[where rnd = rnd and fn = fn and prev = prev and n = "Suc n", OF f False] Suc.prems f show ?thesis
      using False by (intro conjI exI[of _ 0]) (simp_all add: answer_at_0 delays_ok_def)
  qed
qed

text \<open>A delay is never negative and never above its bound, also after rounding.\<close>

lemma backoff_bounds:
  assumes "0 \<le> u" "u \<le> 1" "c \<le> 2 ^ 53"
  shows "0 \<le> backoff u k (real b) (real c)" "backoff u k (real b) (real c) \<le> min (real c) (real b * 2 ^ k)"
proof -
  define m where "m = min c (b * 2 ^ k)"
  have m: "min (real c) (real b * 2 ^ k) = real m" by (simp add: m_def of_nat_min)
  have "int m \<le> 2 ^ 53" using assms(3) by (simp add: m_def min_le_iff_disj)
  then have f: "fl64 (real m) = real m" using ieee.fl_int[of "int m"] by simp
  show "0 \<le> backoff u k (real b) (real c)"
    using ieee.fl_nonneg[of "u * real m"] assms(1) by (simp add: backoff_def m)
  have "fl64 (u * real m) \<le> fl64 (real m)"
    using assms(1,2) by (intro ieee.fl_mono) (simp add: mult_left_le_one_le)
  then show "backoff u k (real b) (real c) \<le> min (real c) (real b * 2 ^ k)"
    by (simp add: backoff_def m f)
qed

section \<open>Properties\<close>

text \<open>
  (C32) Retrying: a call with \<open>n + 1\<close> attempts allowed makes attempts until
  one does not fail with a rate limit, network or server error, or until all
  have been made, and returns the outcome of its last attempt, error or not;
  any other error ends it at once.  It sleeps after every attempt that fails
  with a transient error, the last one included, for a delay that is never
  negative, at least as long as a rate-limited response asks for, and
  otherwise at most \<open>2^i\<close> and 300 seconds after attempt \<open>i\<close>.
\<close>

theorem with_retry_spec:
  assumes "with_retry rnd fn (Suc n) s = (r, ds, s')" "\<And>k. 0 \<le> rnd k \<and> rnd k < 1"
  shows "\<exists>j\<le>n. (\<forall>i<j. is_transient (answer_at fn 0 i s)) \<and> r = answer_at fn 0 j s \<and> s' = after_failures fn 0 (Suc j) s
    \<and> (is_transient r \<longrightarrow> j = n) \<and> length ds = (if is_transient r then Suc n else j)
    \<and> (\<forall>i<length ds. \<exists>e. answer_at fn 0 i s = Inl (Raised e)
        \<and> (if pe_class e = RateLimited then pe_retry_after e \<le> ds ! i else 0 \<le> ds ! i \<and> ds ! i \<le> min 300 (2 ^ i)))"
proof -
  have b: "0 \<le> backoff (rnd i) i 1 300" "backoff (rnd i) i 1 300 \<le> min 300 (2 ^ i)" for i
    using backoff_bounds[of "rnd i" 300 i 1] assms(2)[of i] by simp_all
  have "\<exists>e. answer_at fn 0 i s = Inl (Raised e)
      \<and> (if pe_class e = RateLimited then pe_retry_after e \<le> ds ! i else 0 \<le> ds ! i \<and> ds ! i \<le> min 300 (2 ^ i))"
    if "answer_at fn 0 i s = Inl x" "on_error (rnd i) i x = Retry (ds ! i)" for i x
  proof (cases x)
    case (Raised e)
    from that(2) have "ds ! i = (if pe_class e = RateLimited then max (pe_retry_after e) (backoff (rnd i) i 1 300)
        else backoff (rnd i) i 1 300)"
      by (cases "pe_class e") (simp_all add: on_error_def Raised)
    then show ?thesis using that(1) Raised b[of i] by simp
  qed (use that(2) in \<open>simp add: on_error_def\<close>)
  then show ?thesis
    using retry_loop_run[OF assms(1)[unfolded with_retry_def]] unfolding delays_ok_def by fastforce
qed

text \<open>Two rate-limited attempts, then success.\<close>

definition flaky :: "nat \<Rightarrow> nat \<Rightarrow> string py \<times> nat" where
  "flaky k s = (if s < 2 then Inl (Raised (mk_error RateLimited ''slow down'' (Some 429) [])) else Inr ''done'', Suc s)"

theorem with_retry_spec_witness:
  "with_retry (\<lambda>_. 0) flaky (Suc 4) 0 = (Inr ''done'', [1, 1], 3)
    \<and> (\<exists>j\<le>4. (\<forall>i<j. is_transient (answer_at flaky 0 i 0)) \<and> Inr ''done'' = answer_at flaky 0 j 0 \<and> j = 2)"
proof -
  have r: "with_retry (\<lambda>_. 0) flaky (Suc 4) 0 = (Inr ''done'', [1, 1], 3)"
    by (simp add: with_retry_def flaky_def numeral_eq_Suc on_error_def mk_error_def backoff_def Let_def)
  have t: "\<not> is_transient (Inr ''done'' :: string py)" by (simp add: is_transient_def)
  have "\<exists>j\<le>4. (\<forall>i<j. is_transient (answer_at flaky 0 i 0)) \<and> Inr ''done'' = answer_at flaky 0 j 0
      \<and> length [1, 1 :: real] = (if is_transient (Inr ''done'' :: string py) then Suc 4 else j)"
  proof -
    have "\<And>k::nat. 0 \<le> (0::real) \<and> (0::real) < 1" by simp
    from with_retry_spec[OF r this] show ?thesis by (elim exE conjE) (intro exI conjI)
  qed
  with r t show ?thesis by (auto simp: numeral_2_eq_2)
qed

end
