(* ===== verification/PyClient.thy ===== *)
theory PyClient
  imports PyRetry
begin

text \<open>
  The Python client (\<^verbatim>\<open>clients/python/src/agentcoopdb/client.py\<close>): building
  requests, mapping responses to results and errors, and the transaction
  builder with its renumbering of placeholders.

  The HTTP library \<^verbatim>\<open>requests\<close> is a parameter: \<open>send\<close> takes the number of the
  attempt and the request and gives a response, or the text of a
  \<^verbatim>\<open>RequestException\<close>; \<open>rp_json\<close> is what \<^verbatim>\<open>r.json()\<close> makes of the response.
\<close>

section \<open>Interpreter\<close>

text \<open>What the interpreter does with numbers as text, and a fresh \<^verbatim>\<open>uuid4\<close>.\<close>

record py_rt =
  rt_float :: "string \<Rightarrow> real option"      \<comment> \<open>\<^verbatim>\<open>float(str)\<close>; None is a ValueError\<close>
  rt_repr :: "json \<Rightarrow> string"              \<comment> \<open>\<^verbatim>\<open>repr\<close> of a value\<close>
  rt_int :: "string \<Rightarrow> int"                \<comment> \<open>the integer part of a JSON number\<close>
  rt_int_text :: "string \<Rightarrow> int option"    \<comment> \<open>\<^verbatim>\<open>int(str)\<close>; None is a ValueError\<close>
  rt_random :: "nat \<Rightarrow> real"
  rt_uuid :: string

text \<open>\<^verbatim>\<open>json.dumps\<close> with its defaults: ASCII only, a blank after each comma and colon.\<close>

definition py_escape :: "char \<Rightarrow> string" where
  "py_escape c =
    (if c = CHR 0x22 then [CHR 0x5C, CHR 0x22]
     else if c = CHR 0x5C then [CHR 0x5C, CHR 0x5C]
     else if cp c = 10 then [CHR 0x5C, CHR ''n'']
     else if cp c = 13 then [CHR 0x5C, CHR ''r'']
     else if cp c = 9 then [CHR 0x5C, CHR ''t'']
     else if cp c = 12 then [CHR 0x5C, CHR ''f'']
     else if cp c = 8 then [CHR 0x5C, CHR ''b'']
     else if 32 \<le> cp c \<and> cp c \<le> 126 then [c]
     else [CHR 0x5C, CHR ''u'', CHR ''0'', CHR ''0''] @ hex_byte c)"

definition py_quote :: "string \<Rightarrow> string" where
  "py_quote s = [CHR 0x22] @ concat (map py_escape s) @ [CHR 0x22]"

definition py_join :: "'a list \<Rightarrow> 'a list list \<Rightarrow> 'a list" where
  "py_join sep xs = concat (case xs of [] \<Rightarrow> [] | x # r \<Rightarrow> x # map (\<lambda>y. sep @ y) r)"

fun py_dumps :: "json \<Rightarrow> string" where
  "py_dumps JNull = ''null''"
| "py_dumps (JBool b) = (if b then ''true'' else ''false'')"
| "py_dumps (JNum t) = t"
| "py_dumps (JStr s) = py_quote s"
| "py_dumps (JArr vs) = ''['' @ py_join '', '' (map py_dumps vs) @ '']''"
| "py_dumps (JObj ms) = ''{'' @ py_join '', '' (map (\<lambda>m. py_quote (fst m) @ '': '' @ py_dumps (snd m)) ms) @ ''}''"

definition dict_set :: "(string \<times> json) list \<Rightarrow> string \<Rightarrow> json \<Rightarrow> (string \<times> json) list" where
  "dict_set d k v = (if k \<in> set (map fst d) then map (\<lambda>m. if fst m = k then (k, v) else m) d else d @ [(k, v)])"

text \<open>\<^verbatim>\<open>list(x or [])\<close> and \<^verbatim>\<open>int(x)\<close> of a decoded JSON value.\<close>

definition py_list :: "json \<Rightarrow> json list py" where
  "py_list v =
    (case v of JNull \<Rightarrow> Inr [] | JArr vs \<Rightarrow> Inr vs | JStr s \<Rightarrow> Inr (map (\<lambda>c. JStr [c]) s)
     | JObj ms \<Rightarrow> Inr (map (JStr \<circ> fst) ms) | JBool b \<Rightarrow> (if b then Inl (Builtin ''TypeError'') else Inr [])
     | JNum t \<Rightarrow> (if num_val t = 0 then Inr [] else Inl (Builtin ''TypeError'')))"

definition py_int :: "py_rt \<Rightarrow> json \<Rightarrow> int py" where
  "py_int rt v =
    (case v of JNum t \<Rightarrow> Inr (rt_int rt t) | JBool b \<Rightarrow> Inr (if b then 1 else 0)
     | JStr s \<Rightarrow> (case rt_int_text rt s of Some n \<Rightarrow> Inr n | None \<Rightarrow> Inl (Builtin ''ValueError''))
     | _ \<Rightarrow> Inl (Builtin ''TypeError''))"

section \<open>Responses\<close>

record http_response =
  rp_status :: int
  rp_headers :: "(string \<times> string) list"
  rp_content :: bytes
  rp_json :: "string + json"     \<comment> \<open>Inl: the text of the decode error\<close>
  rp_text :: string

record ExecuteResult =
  er_command :: string
  er_columns :: "json list"
  er_rows :: "json list"
  er_rows_affected :: int
  er_duration_ms :: int
  er_replayed :: bool

definition server_error :: "string \<Rightarrow> exc" where
  "server_error msg = Raised (mk_error ServerError msg None [])"

definition handle_ok :: "http_response \<Rightarrow> (string \<times> json) list py" where
  "handle_ok r =
    (if rp_content r = [] then Inr []
     else case rp_json r of Inl e \<Rightarrow> Inl (server_error (''invalid JSON in response: '' @ e))
     | Inr data \<Rightarrow>
        let res = (case data of JObj d \<Rightarrow> d | _ \<Rightarrow> [(''data'', data)]) in
        Inr (if map_of (rp_headers r) ''X-Idempotent-Replayed'' = Some ''true''
             then dict_set res ''_replayed'' (JBool True) else res))"

text \<open>The exception for an error response with the problem document \<open>d\<close>.\<close>

definition handle_problem :: "py_rt \<Rightarrow> http_response \<Rightarrow> (string \<times> json) list \<Rightarrow> exc" where
  "handle_problem rt r d =
    (let title = (case dict_get d ''title'' of None \<Rightarrow> [] | Some v \<Rightarrow> py_str (rt_repr rt) v);
         detail = (case dict_get d ''detail'' of None \<Rightarrow> title | Some v \<Rightarrow> py_str (rt_repr rt) v);
         st = rp_status r;
         err = (\<lambda>c. Raised (mk_error c detail (Some st) d)) in
     if st = 401 \<or> st = 403 then err AuthError
     else if st = 400 then err ValidationError
     else if st = 409 \<and> title = ''idempotency_conflict'' then err IdempotencyConflict
     else if st = 429 then
       (case map_of (rp_headers r) ''Retry-After'' of
          None \<Rightarrow> err RateLimited
        | Some t \<Rightarrow> if t = [] then err RateLimited
            else case rt_float rt t of None \<Rightarrow> Builtin ''ValueError''
            | Some x \<Rightarrow> Raised ((mk_error RateLimited detail (Some st) d)\<lparr>pe_retry_after := x\<rparr>))
     else if st \<ge> 500 then err ServerError
     else err AgentCoopDBError)"

definition handle_error :: "py_rt \<Rightarrow> http_response \<Rightarrow> exc" where
  "handle_error rt r =
    (case rp_json r of
       Inl _ \<Rightarrow> handle_problem rt r [(''title'', JStr ''non_json_error''), (''detail'', JStr (rp_text r))]
     | Inr (JObj d) \<Rightarrow> handle_problem rt r d
     | Inr _ \<Rightarrow> Builtin ''AttributeError'')"

definition handle :: "py_rt \<Rightarrow> http_response \<Rightarrow> (string \<times> json) list py" where
  "handle rt r = (if rp_status r < 300 then handle_ok r else Inl (handle_error rt r))"

section \<open>Requests\<close>

record Client =
  cl_base_url :: string
  cl_api_key :: string

definition mk_client :: "string \<Rightarrow> string \<Rightarrow> Client" where
  "mk_client url key = \<lparr> cl_base_url = rstrip_by (\<lambda>c. c = CHR ''/'') url, cl_api_key = key \<rparr>"

definition session_headers :: "Client \<Rightarrow> (string \<times> string) list" where
  "session_headers c = [(''Authorization'', ''Bearer '' @ cl_api_key c), (''Content-Type'', ''application/json''),
     (''User-Agent'', ''agentcoopdb-python/0.1.0'')]"

record py_request =
  pq_method :: string
  pq_url :: string
  pq_headers :: "(string \<times> string) list"
  pq_body :: string

type_synonym 's transport = "nat \<Rightarrow> py_request \<Rightarrow> 's \<Rightarrow> (string + http_response) \<times> 's"

text \<open>One attempt: the function the retry loop runs.\<close>

definition attempt :: "py_rt \<Rightarrow> 's transport \<Rightarrow> py_request \<Rightarrow> nat \<Rightarrow> 's \<Rightarrow> (string \<times> json) list py \<times> 's" where
  "attempt rt send q k s =
    (case send k q s of
       (Inl msg, s') \<Rightarrow> (Inl (Raised (mk_error NetworkError msg None [])), s')
     | (Inr r, s') \<Rightarrow> (handle rt r, s'))"

definition py_get :: "py_rt \<Rightarrow> 's transport \<Rightarrow> Client \<Rightarrow> string \<Rightarrow> 's \<Rightarrow> (string \<times> json) list py \<times> real list \<times> 's" where
  "py_get rt send c path s =
    with_retry (rt_random rt) (attempt rt send
      \<lparr> pq_method = ''GET'', pq_url = cl_base_url c @ path, pq_headers = session_headers c, pq_body = [] \<rparr>) 5 s"

definition merge_headers :: "py_rt \<Rightarrow> (string \<times> string) list \<Rightarrow> bool \<Rightarrow> (string \<times> string) list" where
  "merge_headers rt headers auto =
    (if auto \<and> ''Idempotency-Key'' \<notin> set (map fst headers) then headers @ [(''Idempotency-Key'', rt_uuid rt)] else headers)"

definition post_request :: "py_rt \<Rightarrow> Client \<Rightarrow> string \<Rightarrow> json \<Rightarrow> (string \<times> string) list \<Rightarrow> bool \<Rightarrow> py_request" where
  "post_request rt c path body headers auto =
    \<lparr> pq_method = ''POST'', pq_url = cl_base_url c @ path, pq_headers = session_headers c @ merge_headers rt headers auto,
      pq_body = py_dumps body \<rparr>"

definition py_post ::
  "py_rt \<Rightarrow> 's transport \<Rightarrow> Client \<Rightarrow> string \<Rightarrow> json \<Rightarrow> (string \<times> string) list \<Rightarrow> bool \<Rightarrow> 's
    \<Rightarrow> (string \<times> json) list py \<times> real list \<times> 's" where
  "py_post rt send c path body headers auto s =
    with_retry (rt_random rt) (attempt rt send (post_request rt c path body headers auto)) 5 s"

section \<open>Public methods\<close>

definition is_read :: "string \<Rightarrow> bool" where
  "is_read sql \<longleftrightarrow> (let u = py_upper (py_lstrip sql) in
     starts_with (map cp ''SELECT'') u \<or> starts_with (map cp ''SHOW'') u \<or> starts_with (map cp ''EXPLAIN'') u)"

definition key_headers :: "string option \<Rightarrow> (string \<times> string) list" where
  "key_headers k = (case k of None \<Rightarrow> [] | Some v \<Rightarrow> if v = [] then [] else [(''Idempotency-Key'', v)])"

definition sql_body :: "string \<Rightarrow> json list \<Rightarrow> json" where
  "sql_body sql params = JObj [(''sql'', JStr sql), (''params'', JArr params)]"

definition py_bool :: "json \<Rightarrow> bool" where
  "py_bool v = (case v of JNull \<Rightarrow> False | JBool b \<Rightarrow> b | JNum t \<Rightarrow> num_val t \<noteq> 0 | JStr s \<Rightarrow> s \<noteq> []
     | JArr vs \<Rightarrow> vs \<noteq> [] | JObj ms \<Rightarrow> ms \<noteq> [])"

definition get_or :: "(string \<times> json) list \<Rightarrow> string \<Rightarrow> json \<Rightarrow> json" where
  "get_or d k v = (case dict_get d k of None \<Rightarrow> v | Some x \<Rightarrow> x)"

definition execute_result :: "py_rt \<Rightarrow> (string \<times> json) list \<Rightarrow> ExecuteResult py" where
  "execute_result rt d =
    (case py_list (get_or d ''columns'' JNull) of Inl e \<Rightarrow> Inl e | Inr cols \<Rightarrow>
     case py_list (get_or d ''rows'' JNull) of Inl e \<Rightarrow> Inl e | Inr rows \<Rightarrow>
     case py_int rt (get_or d ''rows_affected'' (JNum ''0'')) of Inl e \<Rightarrow> Inl e | Inr n \<Rightarrow>
     case py_int rt (get_or d ''duration_ms'' (JNum ''0'')) of Inl e \<Rightarrow> Inl e | Inr ms \<Rightarrow>
     Inr \<lparr> er_command = py_str (rt_repr rt) (get_or d ''command'' (JStr [])), er_columns = cols, er_rows = rows,
           er_rows_affected = n, er_duration_ms = ms, er_replayed = py_bool (get_or d ''_replayed'' JNull) \<rparr>)"

definition execute ::
  "py_rt \<Rightarrow> 's transport \<Rightarrow> Client \<Rightarrow> string \<Rightarrow> json list \<Rightarrow> string option \<Rightarrow> 's \<Rightarrow> ExecuteResult py \<times> 's" where
  "execute rt send c sql params key s =
    (case py_post rt send c ''/v1/sql/execute'' (sql_body sql params) (key_headers key) (\<not> is_read sql) s of
       (Inl e, _, s') \<Rightarrow> (Inl e, s')
     | (Inr d, _, s') \<Rightarrow> (execute_result rt d, s'))"

text \<open>\<^verbatim>\<open>dict(zip(columns, row))\<close>: later columns replace earlier ones of the same name.\<close>

definition row_dict :: "json list \<Rightarrow> json list \<Rightarrow> (json \<times> json) list" where
  "row_dict cols row = fold (\<lambda>(k, v) d. if k \<in> set (map fst d) then map (\<lambda>m. if fst m = k then (k, v) else m) d else d @ [(k, v)])
     (zip cols row) []"

fun row_dicts :: "json list \<Rightarrow> json list \<Rightarrow> (json \<times> json) list list py" where
  "row_dicts cols [] = Inr []"
| "row_dicts cols (r # rs) =
    (case py_list r of Inl e \<Rightarrow> Inl e | Inr row \<Rightarrow>
     (case row_dicts cols rs of Inl e \<Rightarrow> Inl e | Inr ds \<Rightarrow> Inr (row_dict cols row # ds)))"

definition py_select ::
  "py_rt \<Rightarrow> 's transport \<Rightarrow> Client \<Rightarrow> string \<Rightarrow> json list \<Rightarrow> 's \<Rightarrow> (json \<times> json) list list py \<times> 's" where
  "py_select rt send c sql params s =
    (case execute rt send c sql params None s of
       (Inl e, s') \<Rightarrow> (Inl e, s')
     | (Inr res, s') \<Rightarrow>
        if er_command res \<noteq> ''SELECT''
        then (Inl (Raised (mk_error ValidationError (''select() expects a SELECT statement, got '' @ er_command res) (Some 400) [])), s')
        else (row_dicts (er_columns res) (er_rows res), s'))"

definition rpc_call ::
  "py_rt \<Rightarrow> 's transport \<Rightarrow> Client \<Rightarrow> string \<Rightarrow> (string \<times> json) list \<Rightarrow> string option \<Rightarrow> 's \<Rightarrow> (string \<times> json) list py \<times> real list \<times> 's" where
  "rpc_call rt send c name args key s =
    py_post rt send c ''/v1/rpc/call'' (JObj [(''procedure'', JStr name), (''args'', JObj args)]) (key_headers key) True s"

definition rotate_key :: "py_rt \<Rightarrow> 's transport \<Rightarrow> Client \<Rightarrow> 's \<Rightarrow> (string \<times> json) list py \<times> real list \<times> 's" where
  "rotate_key rt send c s = py_post rt send c ''/v1/auth/keys/rotate'' (JObj []) [] True s"

definition py_health :: "py_rt \<Rightarrow> 's transport \<Rightarrow> Client \<Rightarrow> 's \<Rightarrow> (string \<times> json) list py \<times> real list \<times> 's" where
  "py_health rt send c s = py_get rt send c ''/healthz'' s"

definition py_me :: "py_rt \<Rightarrow> 's transport \<Rightarrow> Client \<Rightarrow> 's \<Rightarrow> (string \<times> json) list py \<times> real list \<times> 's" where
  "py_me rt send c s = py_get rt send c ''/v1/me'' s"

section \<open>Vectors\<close>

definition safe_ident :: "py_rt \<Rightarrow> string \<Rightarrow> string py" where
  "safe_ident rt s =
    (if s = [] \<or> length s > 63 \<or> \<not> list_all (\<lambda>c. py_islower c \<or> py_isdigit c \<or> c = CHR ''_'') s
     then Inl (Raised (mk_error ValidationError (''unsafe identifier: '' @ rt_repr rt (JStr s)) None [])) else Inr s)"

text \<open>\<open>fr\<close> is \<^verbatim>\<open>repr\<close> of a float.\<close>

definition py_format_vector :: "(real \<Rightarrow> string) \<Rightarrow> real list \<Rightarrow> string" where
  "py_format_vector fr v = ''['' @ py_join '','' (map fr v) @ '']''"

record vector_row =
  vr_id :: json
  vr_metadata :: "json option"
  vr_vector :: "real list"

definition upsert_clause :: "nat \<Rightarrow> string" where
  "upsert_clause i = ''($'' @ show_nat (i * 3 + 1) @ '', $'' @ show_nat (i * 3 + 2) @ ''::jsonb, $'' @ show_nat (i * 3 + 3) @ ''::vector)''"

definition upsert_sql :: "string \<Rightarrow> nat \<Rightarrow> string" where
  "upsert_sql table n = ''INSERT INTO '' @ table @ '' (id, metadata, embedding) VALUES ''
     @ py_join '', '' (map upsert_clause [0..<n])
     @ '' ON CONFLICT (id) DO UPDATE SET metadata = EXCLUDED.metadata, embedding = EXCLUDED.embedding''"

definition upsert_params :: "(real \<Rightarrow> string) \<Rightarrow> vector_row list \<Rightarrow> json list" where
  "upsert_params fr rows = concat (map (\<lambda>r. [vr_id r,
     JStr (py_dumps (case vr_metadata r of None \<Rightarrow> JObj [] | Some v \<Rightarrow> v)), JStr (py_format_vector fr (vr_vector r))]) rows)"

definition vector_upsert ::
  "py_rt \<Rightarrow> (real \<Rightarrow> string) \<Rightarrow> 's transport \<Rightarrow> Client \<Rightarrow> string \<Rightarrow> vector_row list \<Rightarrow> 's \<Rightarrow> int py \<times> 's" where
  "vector_upsert rt fr send c table rows s =
    (if rows = [] then (Inr 0, s)
     else case safe_ident rt table of Inl e \<Rightarrow> (Inl e, s) | Inr t \<Rightarrow>
     case execute rt send c (upsert_sql t (length rows)) (upsert_params fr rows) None s of
       (Inl e, s') \<Rightarrow> (Inl e, s')
     | (Inr res, s') \<Rightarrow> (Inr (er_rows_affected res), s'))"

definition search_sql :: "string \<Rightarrow> string" where
  "search_sql table = ''SELECT id, metadata, embedding <=> $1::vector AS distance FROM '' @ table
     @ '' ORDER BY embedding <=> $1::vector LIMIT $2''"

definition vector_search ::
  "py_rt \<Rightarrow> (real \<Rightarrow> string) \<Rightarrow> 's transport \<Rightarrow> Client \<Rightarrow> string \<Rightarrow> real list \<Rightarrow> int \<Rightarrow> 's \<Rightarrow> (json \<times> json) list list py \<times> 's" where
  "vector_search rt fr send c table query k s =
    (case safe_ident rt table of Inl e \<Rightarrow> (Inl e, s)
     | Inr t \<Rightarrow> py_select rt send c (search_sql t) [JStr (py_format_vector fr query), JNum (Itoa k)] s)"

section \<open>Transactions\<close>

text \<open>\<^verbatim>\<open>int\<close> of a run of digits: the superscripts are digits but no numerals, and there is a length limit.\<close>

definition py_numeral :: "string \<Rightarrow> nat option" where
  "py_numeral ds = (if list_all is_digit ds \<and> length ds \<le> 4300 then Some (read_nat ds) else None)"

text \<open>The number a placeholder gets: its old one is remembered in \<open>ph\<close>.\<close>

definition assign :: "nat \<Rightarrow> nat \<Rightarrow> (nat \<times> nat) list \<Rightarrow> nat \<times> nat \<times> (nat \<times> nat) list" where
  "assign n next_idx ph =
    (case map_of ph n of Some k \<Rightarrow> (k, next_idx, ph) | None \<Rightarrow> (Suc next_idx, Suc next_idx, (n, Suc next_idx) # ph))"

text \<open>The loop of \<^verbatim>\<open>_renumber\<close>; None is the ValueError.\<close>

function renum :: "nat \<Rightarrow> (nat \<times> nat) list \<Rightarrow> string \<Rightarrow> (string \<times> nat) option" where
  "renum next_idx ph [] = Some ([], next_idx)"
| "renum next_idx ph (c # cs) =
    (if c = CHR ''$'' \<and> cs \<noteq> [] \<and> py_isdigit (hd cs) then
       (case py_numeral (takeWhile py_isdigit cs) of None \<Rightarrow> None
        | Some n \<Rightarrow>
           (case assign n next_idx ph of (k, next1, ph1) \<Rightarrow>
             (case renum next1 ph1 (dropWhile py_isdigit cs) of None \<Rightarrow> None
              | Some (t, i) \<Rightarrow> Some (CHR ''$'' # show_nat k @ t, i))))
     else
       (case renum next_idx ph cs of None \<Rightarrow> None | Some (t, i) \<Rightarrow> Some (c # t, i)))"
  by pat_completeness auto
termination
  by (relation "measure (\<lambda>(n, ph, s). length s)") (simp_all add: length_dropWhile_le le_imp_less_Suc)

definition renumber :: "string \<Rightarrow> nat \<Rightarrow> (string \<times> nat) option" where
  "renumber sql start = renum start [] sql"

text \<open>The common table expressions for all statements but the last.\<close>

fun commit_ctes :: "nat \<Rightarrow> nat \<Rightarrow> (string \<times> json list) list \<Rightarrow> (string list \<times> json list \<times> nat) option" where
  "commit_ctes i idx [] = Some ([], [], idx)"
| "commit_ctes i idx ((sql, params) # rest) =
    (case renumber sql idx of None \<Rightarrow> None
     | Some (t, idx1) \<Rightarrow>
        (case commit_ctes (Suc i) idx1 rest of None \<Rightarrow> None
         | Some (ctes, ps, idx2) \<Rightarrow> Some ((''_agentcoopdb_w'' @ show_nat i @ '' AS ('' @ t @ '')'') # ctes, params @ ps, idx2)))"

definition commit_chain :: "(string \<times> json list) list \<Rightarrow> (string \<times> json list) option" where
  "commit_chain stmts =
    (case commit_ctes 0 0 (butlast stmts) of None \<Rightarrow> None
     | Some (ctes, ps, idx) \<Rightarrow>
        (case renumber (fst (last stmts)) idx of None \<Rightarrow> None
         | Some (t, _) \<Rightarrow> Some (''WITH '' @ py_join '', '' ctes @ '' '' @ t, ps @ snd (last stmts))))"

definition commit :: "py_rt \<Rightarrow> 's transport \<Rightarrow> Client \<Rightarrow> (string \<times> json list) list \<Rightarrow> 's \<Rightarrow> unit py \<times> 's" where
  "commit rt send c stmts s =
    (case stmts of [] \<Rightarrow> (Inr (), s)
     | [(sql, params)] \<Rightarrow>
        (case execute rt send c sql params None s of (Inl e, s') \<Rightarrow> (Inl e, s') | (Inr _, s') \<Rightarrow> (Inr (), s'))
     | _ \<Rightarrow>
        (case commit_chain stmts of None \<Rightarrow> (Inl (Builtin ''ValueError''), s)
         | Some (full, ps) \<Rightarrow>
            (case execute rt send c full ps None s of (Inl e, s') \<Rightarrow> (Inl e, s') | (Inr _, s') \<Rightarrow> (Inr (), s'))))"

section \<open>What a statement binds\<close>

text \<open>
  A statement text as a sequence of characters and values: every \<open>$N\<close> of the
  text is replaced by the value of the parameter \<open>N\<close>, as \<^verbatim>\<open>_renumber\<close> reads
  the text (also inside quotes).
\<close>

datatype 'v piece = Txt char | Val 'v

function bound :: "(nat \<Rightarrow> 'v) \<Rightarrow> string \<Rightarrow> 'v piece list" where
  "bound b [] = []"
| "bound b (c # cs) =
    (if c = CHR ''$'' \<and> cs \<noteq> [] \<and> py_isdigit (hd cs)
     then Val (b (read_nat (takeWhile py_isdigit cs))) # bound b (dropWhile py_isdigit cs)
     else Txt c # bound b cs)"
  by pat_completeness auto
termination
  by (relation "measure (\<lambda>(b, s). length s)") (simp_all add: length_dropWhile_le le_imp_less_Suc)

definition param :: "'v list \<Rightarrow> nat \<Rightarrow> 'v" where
  "param ps n = ps ! (n - 1)"

text \<open>The placeholders are numerals that first appear in the order 1, 2, ...; the result is how many there
  are, beyond the \<open>j\<close> that have been seen.\<close>

function order_ok :: "nat \<Rightarrow> string \<Rightarrow> nat option" where
  "order_ok j [] = Some j"
| "order_ok j (c # cs) =
    (if c = CHR ''$'' \<and> cs \<noteq> [] \<and> py_isdigit (hd cs) then
       (case py_numeral (takeWhile py_isdigit cs) of None \<Rightarrow> None
        | Some n \<Rightarrow>
           if 1 \<le> n \<and> n \<le> j then order_ok j (dropWhile py_isdigit cs)
           else if n = Suc j then order_ok (Suc j) (dropWhile py_isdigit cs) else None)
     else order_ok j cs)"
  by pat_completeness auto
termination
  by (relation "measure (\<lambda>(j, s). length s)") (simp_all add: length_dropWhile_le le_imp_less_Suc)

subsection \<open>Lemmas\<close>

definition starts_digit :: "string \<Rightarrow> bool" where
  "starts_digit s \<longleftrightarrow> s \<noteq> [] \<and> py_isdigit (hd s)"

lemma dollar_no_digit [simp]: "\<not> py_isdigit (CHR ''$'')"
  by (simp add: py_isdigit_def is_digit_def cp_def)

lemma digit_is_py_digit: "is_digit c \<Longrightarrow> py_isdigit c"
  by (simp add: py_isdigit_def)

lemma dropWhile_no_digit: "\<not> starts_digit (dropWhile py_isdigit cs)"
  using hd_dropWhile[of py_isdigit cs] by (auto simp: starts_digit_def)

lemma takeWhile_digits: "list_all py_isdigit ds \<Longrightarrow> \<not> starts_digit t \<Longrightarrow>
    takeWhile py_isdigit (ds @ t) = ds \<and> dropWhile py_isdigit (ds @ t) = t"
  by (induction ds) (cases t; simp add: starts_digit_def)+

lemma show_nat_py_digits: "list_all py_isdigit (show_nat k)"
  using show_nat_digits[of k] by (auto simp: list_all_iff digit_is_py_digit)

lemma bound_Cons:
  "starts_digit cs \<Longrightarrow> bound b (CHR ''$'' # cs) = Val (b (read_nat (takeWhile py_isdigit cs))) # bound b (dropWhile py_isdigit cs)"
  "\<not> (c = CHR ''$'' \<and> starts_digit cs) \<Longrightarrow> bound b (c # cs) = Txt c # bound b cs"
  by (auto simp: starts_digit_def)

lemma order_Cons:
  "starts_digit cs \<Longrightarrow> order_ok j (CHR ''$'' # cs) = Some m \<Longrightarrow>
    \<exists>n. py_numeral (takeWhile py_isdigit cs) = Some n \<and>
      (1 \<le> n \<and> n \<le> j \<and> order_ok j (dropWhile py_isdigit cs) = Some m
       \<or> n = Suc j \<and> order_ok (Suc j) (dropWhile py_isdigit cs) = Some m)"
  "\<not> (c = CHR ''$'' \<and> starts_digit cs) \<Longrightarrow> order_ok j (c # cs) = order_ok j cs"
  by (auto simp: starts_digit_def split: option.splits if_splits)

lemma renum_Cons:
  "starts_digit cs \<Longrightarrow> py_numeral (takeWhile py_isdigit cs) = Some n \<Longrightarrow> assign n i ph = (k, i1, ph1) \<Longrightarrow>
    renum i1 ph1 (dropWhile py_isdigit cs) = Some (t, i2) \<Longrightarrow> renum i ph (CHR ''$'' # cs) = Some (CHR ''$'' # show_nat k @ t, i2)"
  "\<not> (c = CHR ''$'' \<and> starts_digit cs) \<Longrightarrow> renum i ph cs = Some (t, i2) \<Longrightarrow> renum i ph (c # cs) = Some (c # t, i2)"
  by (auto simp: starts_digit_def)

lemma py_numeral_value: "py_numeral ds = Some n \<Longrightarrow> read_nat ds = n"
  by (simp add: py_numeral_def split: if_splits)

lemma renum_start:
  "renum i ph s = Some (t, i') \<Longrightarrow> starts_digit t = starts_digit s"
  by (cases s) (auto simp: starts_digit_def split: if_splits option.splits prod.splits)

declare bound.simps(2) [simp del] order_ok.simps(2) [simp del] renum.simps(2) [simp del]

lemma bound_no_dollar: "CHR ''$'' \<notin> set t \<Longrightarrow> bound b (t @ s) = map Txt t @ bound b s"
  by (induction t) (auto simp: bound_Cons)

lemma takeWhile_digits_append:
  "\<not> starts_digit s \<Longrightarrow> takeWhile py_isdigit (cs @ s) = takeWhile py_isdigit cs"
  "\<not> starts_digit s \<Longrightarrow> dropWhile py_isdigit (cs @ s) = dropWhile py_isdigit cs @ s"
  by (induction cs) (cases s; simp add: starts_digit_def)+

lemma starts_digit_append: "\<not> starts_digit s \<Longrightarrow> starts_digit (cs @ s) = starts_digit cs"
  by (cases cs) (simp_all add: starts_digit_def)

lemma bound_append: "\<not> starts_digit s \<Longrightarrow> bound b (t @ s) = bound b t @ bound b s"
proof (induction b t rule: bound.induct)
  case (2 b c cs)
  show ?case
  proof (cases "c = CHR ''$'' \<and> starts_digit cs")
    case True
    with 2(1)[OF _ 2(3)] have "bound b (dropWhile py_isdigit cs @ s) = bound b (dropWhile py_isdigit cs) @ bound b s"
      by (simp add: starts_digit_def)
    with True 2(3) show ?thesis by (simp add: bound_Cons(1) starts_digit_append takeWhile_digits_append)
  next
    case False
    with 2(2)[OF _ 2(3)] have "bound b (cs @ s) = bound b cs @ bound b s" by (auto simp: starts_digit_def)
    with False 2(3) show ?thesis by (simp add: bound_Cons(2) starts_digit_append)
  qed
qed simp

lemma bound_placeholder:
  assumes "\<not> starts_digit t"
  shows "bound b (CHR ''$'' # show_nat k @ t) = Val (b k) # bound b t"
proof -
  have "starts_digit (show_nat k @ t)"
    using show_nat_py_digits[of k] show_nat_nonempty[of k] by (cases "show_nat k") (simp_all add: starts_digit_def)
  with takeWhile_digits[OF show_nat_py_digits assms, of k] show ?thesis by (simp add: bound_Cons(1))
qed

text \<open>A statement in order looks only at its own parameters.\<close>

lemma bound_cong:
  assumes "order_ok j s = Some m" "\<And>n. 1 \<le> n \<Longrightarrow> n \<le> m \<Longrightarrow> b n = b' n"
  shows "j \<le> m \<and> bound b s = bound b' s"
  using assms(1)
proof (induction j s rule: order_ok.induct)
  case (2 j c cs)
  show ?case
  proof (cases "c = CHR ''$'' \<and> starts_digit cs")
    case True
    with order_Cons(1)[of cs j m] 2(4) obtain n where n: "py_numeral (takeWhile py_isdigit cs) = Some n"
      "1 \<le> n \<and> n \<le> j \<and> order_ok j (dropWhile py_isdigit cs) = Some m
       \<or> n = Suc j \<and> order_ok (Suc j) (dropWhile py_isdigit cs) = Some m" by blast
    have c: "c = CHR ''$'' \<and> cs \<noteq> [] \<and> py_isdigit (hd cs)" using True by (simp add: starts_digit_def)
    from n(2) have "j \<le> m \<and> n \<le> m \<and> 1 \<le> n \<and> bound b (dropWhile py_isdigit cs) = bound b' (dropWhile py_isdigit cs)"
      using 2(1)[OF c n(1)] 2(2)[OF c n(1)] by auto
    then show ?thesis using True assms(2)[of n] py_numeral_value[OF n(1)] by (simp add: bound_Cons(1))
  next
    case False
    then have "order_ok j cs = Some m" using 2(4) by (simp add: order_Cons(2))
    with 2(3) False show ?thesis by (auto simp: bound_Cons(2) starts_digit_def)
  qed
qed simp

text \<open>Renumbering a statement in order shifts its placeholders.\<close>

lemma renum_shifts:
  assumes "order_ok j s = Some m" "\<And>n. map_of ph n = (if 1 \<le> n \<and> n \<le> j then Some (base + n) else None)"
  shows "\<exists>t. renum (base + j) ph s = Some (t, base + m) \<and> bound b t = bound (\<lambda>n. b (base + n)) s"
  using assms
proof (induction j s arbitrary: ph rule: order_ok.induct)
  case (1 j)
  then show ?case by simp
next
  case (2 j c cs)
  show ?case
  proof (cases "c = CHR ''$'' \<and> starts_digit cs")
    case True
    with order_Cons(1)[of cs j m] 2(4) obtain n where n: "py_numeral (takeWhile py_isdigit cs) = Some n"
      "1 \<le> n \<and> n \<le> j \<and> order_ok j (dropWhile py_isdigit cs) = Some m
       \<or> n = Suc j \<and> order_ok (Suc j) (dropWhile py_isdigit cs) = Some m" by blast
    have c: "c = CHR ''$'' \<and> cs \<noteq> [] \<and> py_isdigit (hd cs)" using True by (simp add: starts_digit_def)
    obtain i1 ph1 t where t: "assign n (base + j) ph = (base + n, i1, ph1)"
      "renum i1 ph1 (dropWhile py_isdigit cs) = Some (t, base + m)" "bound b t = bound (\<lambda>n. b (base + n)) (dropWhile py_isdigit cs)"
      using n(2)
    proof
      assume a: "1 \<le> n \<and> n \<le> j \<and> order_ok j (dropWhile py_isdigit cs) = Some m"
      then have "assign n (base + j) ph = (base + n, base + j, ph)" using 2(5) by (simp add: assign_def)
      with 2(1)[OF c n(1) _ _ 2(5)] a that show ?thesis by blast
    next
      assume a: "n = Suc j \<and> order_ok (Suc j) (dropWhile py_isdigit cs) = Some m"
      then have "assign n (base + j) ph = (base + n, base + Suc j, (n, base + n) # ph)" using 2(5) by (simp add: assign_def)
      moreover have "map_of ((n, base + n) # ph) k = (if 1 \<le> k \<and> k \<le> Suc j then Some (base + k) else None)" for k
        using a 2(5) by auto
      ultimately show ?thesis using 2(2)[OF c n(1) _ _, of "(n, base + n) # ph"] a that by auto
    qed
    from renum_Cons(1)[OF _ n(1) t(1,2)] True have "renum (base + j) ph (c # cs) = Some (CHR ''$'' # show_nat (base + n) @ t, base + m)"
      by simp
    moreover have "\<not> starts_digit t" using renum_start[OF t(2)] dropWhile_no_digit by simp
    ultimately show ?thesis using True t(3) py_numeral_value[OF n(1)] by (simp add: bound_placeholder bound_Cons(1))
  next
    case False
    then have "order_ok j cs = Some m" using 2(4) by (simp add: order_Cons(2))
    moreover have "\<not> (c = CHR ''$'' \<and> cs \<noteq> [] \<and> py_isdigit (hd cs))" using False by (simp add: starts_digit_def)
    ultimately obtain t where t: "renum (base + j) ph cs = Some (t, base + m)" "bound b t = bound (\<lambda>n. b (base + n)) cs"
      using 2(3)[OF _ _ 2(5)] by blast
    moreover have "\<not> (c = CHR ''$'' \<and> starts_digit t)" using False renum_start[OF t(1)] by simp
    ultimately show ?thesis using renum_Cons(2)[OF False t(1)] False by (simp add: bound_Cons(2))
  qed
qed

lemma starts_digit_concat: "list_all (\<lambda>x. \<not> starts_digit x) xs \<Longrightarrow> \<not> starts_digit s \<Longrightarrow> \<not> starts_digit (concat xs @ s)"
  by (induction xs) (simp_all add: starts_digit_append)

lemma bound_concat:
  "list_all (\<lambda>x. \<not> starts_digit x) xs \<Longrightarrow> \<not> starts_digit s \<Longrightarrow> bound b (concat xs @ s) = concat (map (bound b) xs) @ bound b s"
  by (induction xs) (simp_all add: bound_append starts_digit_concat)

lemma bound_join:
  assumes "list_all (\<lambda>x. \<not> starts_digit x) xs" "\<not> starts_digit s"
  shows "bound b (py_join '', '' xs @ s) = py_join (map Txt '', '') (map (bound b) xs) @ bound b s"
proof (cases xs)
  case (Cons x r)
  have m: "bound b ('', '' @ y) = map Txt '', '' @ bound b y" for y by (rule bound_no_dollar) simp
  have d: "list_all (\<lambda>x. \<not> starts_digit x) (map (\<lambda>y. '', '' @ y) r)"
    by (simp add: list_all_iff starts_digit_def py_isdigit_def is_digit_def cp_def)
  have "bound b ((x @ concat (map (\<lambda>y. '', '' @ y) r)) @ s) = bound b x @ concat (map (bound b) (map (\<lambda>y. '', '' @ y) r)) @ bound b s"
    using bound_append[OF starts_digit_concat[OF d assms(2)], of b x] bound_concat[OF d assms(2), of b] by simp
  then show ?thesis unfolding Cons py_join_def by (simp only: list.simps list.case concat.simps map_map comp_def m append_assoc)
qed (simp add: py_join_def)

lemma param_shift: "1 \<le> n \<Longrightarrow> n \<le> length ps \<Longrightarrow> param (pre @ ps @ post) (length pre + n) = param ps n"
  by (cases n) (simp_all add: param_def nth_append)

lemma renumber_binds:
  assumes "order_ok 0 sql = Some (length ps)"
  obtains t where "renumber sql (length pre) = Some (t, length (pre @ ps))"
    "bound (param (pre @ ps @ post)) t = bound (param ps) sql"
proof -
  obtain t where t: "renum (length pre + 0) [] sql = Some (t, length pre + length ps)"
    "bound (param (pre @ ps @ post)) t = bound (\<lambda>n. param (pre @ ps @ post) (length pre + n)) sql"
    using renum_shifts[OF assms, of "[]" "length pre" "param (pre @ ps @ post)"] by fastforce
  moreover have "bound (\<lambda>n. param (pre @ ps @ post) (length pre + n)) sql = bound (param ps) sql"
    by (rule bound_cong[OF assms, THEN conjunct2]) (rule param_shift)
  ultimately show thesis using that by (simp add: renumber_def)
qed

text \<open>What the transaction is meant to bind: each statement its own parameters.\<close>

definition cte_pieces :: "nat \<Rightarrow> string \<times> json list \<Rightarrow> json piece list" where
  "cte_pieces i st = map Txt (''_agentcoopdb_w'' @ show_nat i @ '' AS ('') @ bound (param (snd st)) (fst st) @ [Txt (CHR '')'')]"

definition chain_pieces :: "(string \<times> json list) list \<Rightarrow> json piece list" where
  "chain_pieces stmts = map Txt ''WITH '' @ py_join (map Txt '', '') (map (\<lambda>(i, st). cte_pieces i st) (enumerate 0 (butlast stmts)))
     @ [Txt (CHR '' '')] @ bound (param (snd (last stmts))) (fst (last stmts))"

lemma bound_cte:
  "bound b (''_agentcoopdb_w'' @ show_nat i @ '' AS ('' @ t @ '')'')
    = map Txt (''_agentcoopdb_w'' @ show_nat i @ '' AS ('') @ bound b t @ [Txt (CHR '')'')]"
proof -
  have "CHR ''$'' \<notin> set (show_nat i)"
    using show_nat_py_digits[of i] dollar_no_digit by (auto simp: list_all_iff)
  then have n: "CHR ''$'' \<notin> set (''_agentcoopdb_w'' @ show_nat i @ '' AS ('')" by simp
  have "\<not> starts_digit '')''" by (simp add: starts_digit_def py_isdigit_def is_digit_def cp_def)
  then have "bound b (t @ '')'') = bound b t @ [Txt (CHR '')'')]" by (simp add: bound_append bound_Cons(2))
  with bound_no_dollar[OF n, of b "t @ '')''"] show ?thesis by simp
qed

lemma commit_ctes_binds:
  assumes "\<forall>st\<in>set stmts. order_ok 0 (fst st) = Some (length (snd st))"
  shows "\<exists>ctes. commit_ctes i (length pre) stmts = Some (ctes, concat (map snd stmts), length (pre @ concat (map snd stmts)))
    \<and> map (bound (param (pre @ concat (map snd stmts) @ post))) ctes = map (\<lambda>(i, st). cte_pieces i st) (enumerate i stmts)
    \<and> list_all (\<lambda>x. \<not> starts_digit x) ctes"
  using assms
proof (induction stmts arbitrary: i pre)
  case (Cons st stmts)
  obtain sql ps where st: "st = (sql, ps)" by (cases st)
  with Cons.prems have o: "order_ok 0 sql = Some (length ps)" by simp
  obtain t where t: "renumber sql (length pre) = Some (t, length (pre @ ps))"
    "bound (param (pre @ ps @ concat (map snd stmts) @ post)) t = bound (param ps) sql"
    by (rule renumber_binds[OF o])
  obtain ctes where c: "commit_ctes (Suc i) (length (pre @ ps)) stmts
      = Some (ctes, concat (map snd stmts), length ((pre @ ps) @ concat (map snd stmts)))"
    "map (bound (param ((pre @ ps) @ concat (map snd stmts) @ post))) ctes = map (\<lambda>(i, st). cte_pieces i st) (enumerate (Suc i) stmts)"
    "list_all (\<lambda>x. \<not> starts_digit x) ctes"
    using Cons.IH[of "Suc i" "pre @ ps"] Cons.prems by auto
  define cte where "cte = ''_agentcoopdb_w'' @ show_nat i @ '' AS ('' @ t @ '')''"
  have "\<not> starts_digit cte"
    by (simp add: cte_def starts_digit_def py_isdigit_def is_digit_def cp_def)
  moreover have "bound (param (pre @ ps @ concat (map snd stmts) @ post)) cte = cte_pieces i st"
    unfolding cte_def cte_pieces_def st bound_cte fst_conv snd_conv t(2) ..
  moreover have "commit_ctes i (length pre) (st # stmts)
      = Some (cte # ctes, ps @ concat (map snd stmts), length (pre @ ps @ concat (map snd stmts)))"
    using t(1) c(1) by (simp add: st cte_def)
  ultimately show ?case using c(2,3) st by simp
qed simp

section \<open>Properties\<close>

text \<open>
  (C33) A transaction binds the right values: if in every statement the
  placeholders first appear in the order \<open>$1\<close>, \<open>$2\<close>, ... and there are as many
  as it has parameters, the single statement the builder sends has the
  parameters of all statements in sequence, and binding them gives the chain
  of common table expressions in which every statement has its own values at
  its own placeholders.
\<close>

theorem transaction_binds:
  assumes "stmts \<noteq> []" "\<forall>st\<in>set stmts. order_ok 0 (fst st) = Some (length (snd st))"
  shows "\<exists>full. commit_chain stmts = Some (full, concat (map snd stmts))
    \<and> bound (param (concat (map snd stmts))) full = chain_pieces stmts"
proof -
  let ?init = "butlast stmts" and ?sql = "fst (last stmts)" and ?ps = "snd (last stmts)"
  have all: "concat (map snd stmts) = concat (map snd ?init) @ ?ps"
    using assms(1) by (cases stmts rule: rev_cases) simp_all
  obtain ctes where c: "commit_ctes 0 0 ?init = Some (ctes, concat (map snd ?init), length (concat (map snd ?init)))"
    "map (bound (param (concat (map snd stmts)))) ctes = map (\<lambda>(i, st). cte_pieces i st) (enumerate 0 ?init)"
    "list_all (\<lambda>x. \<not> starts_digit x) ctes"
    using commit_ctes_binds[of ?init 0 "[]" ?ps] assms(2) by (auto simp: all dest: in_set_butlastD)
  have "order_ok 0 ?sql = Some (length ?ps)" using assms by simp
  then obtain t where t: "renumber ?sql (length (concat (map snd ?init))) = Some (t, length (concat (map snd ?init) @ ?ps))"
    "bound (param (concat (map snd ?init) @ ?ps @ [])) t = bound (param ?ps) ?sql"
    by (rule renumber_binds)
  have w: "\<not> starts_digit ('' '' @ t)" by (simp add: starts_digit_def py_isdigit_def is_digit_def cp_def)
  have "bound b (''WITH '' @ py_join '', '' ctes @ '' '' @ t)
      = map Txt ''WITH '' @ py_join (map Txt '', '') (map (bound b) ctes) @ [Txt (CHR '' '')] @ bound b t" for b :: "nat \<Rightarrow> json"
    using bound_no_dollar[of "''WITH ''" b "py_join '', '' ctes @ '' '' @ t"] bound_join[OF c(3) w, of b]
      bound_no_dollar[of "'' ''" b t] by simp
  with c(1,2) t all show ?thesis by (simp add: commit_chain_def chain_pieces_def)
qed

lemma digit_char_simps:
  "digit_char 0 = CHR ''0''" "digit_char (Suc 0) = CHR ''1''" "digit_char 1 = CHR ''1''" "digit_char 2 = CHR ''2''" "digit_char 3 = CHR ''3''"
  "digit_char (Suc (Suc 0)) = CHR ''2''" "digit_char (Suc (Suc (Suc 0))) = CHR ''3''"
  by (simp_all add: digit_char_def char_of_def bit_iff_odd)

theorem transaction_binds_witness:
  "\<exists>full. commit_chain [(''A $1 $2'', [JStr ''x'', JNull]), (''B $1'', [JBool True])] = Some (full, [JStr ''x'', JNull, JBool True])
    \<and> full = ''WITH _agentcoopdb_w0 AS (A $1 $2) B $3''"
proof -
  let ?st = "[(''A $1 $2'', [JStr ''x'', JNull]), (''B $1'', [JBool True])]"
  have o: "order_ok 0 ''A $1 $2'' = Some 2" "order_ok 0 ''B $1'' = Some 1"
    by (simp_all add: order_ok.simps py_isdigit_def is_digit_def cp_def py_numeral_def read_nat_def)
  have "commit_chain ?st = Some (''WITH _agentcoopdb_w0 AS (A $1 $2) B $3'', [JStr ''x'', JNull, JBool True])"
    by (simp add: commit_chain_def renumber_def renum.simps py_isdigit_def is_digit_def cp_def py_numeral_def read_nat_def
        assign_def show_nat.simps digit_char_simps py_join_def)
  moreover have "\<exists>full. commit_chain ?st = Some (full, concat (map snd ?st))"
    using transaction_binds[of ?st] o by (auto simp: numeral_2_eq_2)
  ultimately show ?thesis by simp
qed

text \<open>If they do not, values are swapped: the update below would write 1 into the row 5 where 5 was to go into row 1.\<close>

lemma renumber_swaps_values:
  "\<exists>full. commit_chain [(''SELECT $1'', [JNum ''9'']), (''UPDATE t SET v = $2 WHERE id = $1'', [JNum ''1'', JNum ''5''])]
      = Some (full, [JNum ''9'', JNum ''1'', JNum ''5''])
    \<and> full = ''WITH _agentcoopdb_w0 AS (SELECT $1) UPDATE t SET v = $2 WHERE id = $3''"
  by (simp add: commit_chain_def renumber_def renum.simps py_isdigit_def is_digit_def cp_def py_numeral_def read_nat_def
        assign_def show_nat.simps digit_char_simps py_join_def)

text \<open>Placeholders inside string literals are renumbered as well.\<close>

lemma renumber_touches_literals:
  "renumber ([CHR 0x27] @ ''$7'' @ [CHR 0x27]) 2 = Some ([CHR 0x27] @ ''$3'' @ [CHR 0x27], 3)"
  by (simp add: renumber_def renum.simps py_isdigit_def is_digit_def cp_def py_numeral_def read_nat_def
        assign_def show_nat.simps digit_char_simps)

end
