(* ===== verification/PyQueue.thy ===== *)
theory PyQueue
  imports PyClient "HOL-Library.Multiset"
begin

text \<open>
  The Python client's durable queue for offline writes
  (\<^verbatim>\<open>clients/python/src/agentcoopdb/queue.py\<close>) over its two SQLite tables.

  The connections are in autocommit mode, so each SQL statement is a
  transaction of its own: an operation is the list of its statements.
  Parameters are kept as values: the tables hold their \<^verbatim>\<open>json.dumps\<close>, which
  \<^verbatim>\<open>json.loads\<close> undoes.
\<close>

section \<open>Tables\<close>

record pending_row =
  pd_id :: nat
  pd_sql :: string
  pd_params :: "json list"
  pd_key :: string
  pd_attempts :: nat
  pd_last_error :: "string option"
  pd_next_attempt_at :: real
  pd_created_at :: real

record dead_row =
  dd_id :: nat
  dd_sql :: string
  dd_params :: "json list"
  dd_key :: string
  dd_attempts :: nat
  dd_last_error :: string
  dd_moved_at :: real

text \<open>\<^verbatim>\<open>AUTOINCREMENT\<close> keeps the largest id ever given out.\<close>

record queue_db =
  qd_pending :: "pending_row list"
  qd_seq :: nat
  qd_dead :: "dead_row list"
  qd_dead_seq :: nat

definition empty_queue :: queue_db where
  "empty_queue = \<lparr> qd_pending = [], qd_seq = 0, qd_dead = [], qd_dead_seq = 0 \<rparr>"

record QueueItem =
  qi_id :: nat
  qi_sql :: string
  qi_params :: "json list"
  qi_key :: string
  qi_attempts :: nat
  qi_last_error :: "string option"
  qi_next_attempt_at :: real

definition MAX_ATTEMPTS :: nat where "MAX_ATTEMPTS = 12"
definition DEFAULT_MAX_SIZE :: nat where "DEFAULT_MAX_SIZE = 10000"

section \<open>Statements\<close>

definition delete_pending :: "nat \<Rightarrow> queue_db \<Rightarrow> queue_db" where
  "delete_pending i d = d\<lparr>qd_pending := filter (\<lambda>r. pd_id r \<noteq> i) (qd_pending d)\<rparr>"

definition insert_dead :: "QueueItem \<Rightarrow> nat \<Rightarrow> string \<Rightarrow> real \<Rightarrow> queue_db \<Rightarrow> queue_db" where
  "insert_dead it attempts err now d = d\<lparr>qd_dead := qd_dead d @ [\<lparr> dd_id = Suc (qd_dead_seq d), dd_sql = qi_sql it,
     dd_params = qi_params it, dd_key = qi_key it, dd_attempts = attempts, dd_last_error = err, dd_moved_at = now \<rparr>],
     qd_dead_seq := Suc (qd_dead_seq d)\<rparr>"

definition update_pending :: "nat \<Rightarrow> nat \<Rightarrow> string \<Rightarrow> real \<Rightarrow> queue_db \<Rightarrow> queue_db" where
  "update_pending i attempts err next_at d = d\<lparr>qd_pending := map (\<lambda>r. if pd_id r = i
     then r\<lparr>pd_attempts := attempts, pd_last_error := Some err, pd_next_attempt_at := next_at\<rparr> else r) (qd_pending d)\<rparr>"

definition run_statements :: "(queue_db \<Rightarrow> queue_db) list \<Rightarrow> queue_db \<Rightarrow> queue_db" where
  "run_statements = fold (\<lambda>f. f)"

section \<open>Operations\<close>

definition enqueue :: "nat \<Rightarrow> real \<Rightarrow> string \<Rightarrow> json list \<Rightarrow> string \<Rightarrow> queue_db \<Rightarrow> nat py \<times> queue_db" where
  "enqueue max_size now sql params key d =
    (if length (qd_pending d) \<ge> max_size
     then (Inl (Raised (mk_error QueueFullError (''local queue is full ('' @ show_nat max_size @ '' pending writes)'') None [])), d)
     else (Inr (Suc (qd_seq d)),
       d\<lparr>qd_pending := qd_pending d @ [\<lparr> pd_id = Suc (qd_seq d), pd_sql = sql, pd_params = params, pd_key = key,
           pd_attempts = 0, pd_last_error = None, pd_next_attempt_at = now, pd_created_at = now \<rparr>],
         qd_seq := Suc (qd_seq d)\<rparr>))"

definition depth :: "queue_db \<Rightarrow> nat" where
  "depth d = length (qd_pending d)"

definition dead_letter_count :: "queue_db \<Rightarrow> nat" where
  "dead_letter_count d = length (qd_dead d)"

definition item_of :: "pending_row \<Rightarrow> QueueItem" where
  "item_of r = \<lparr> qi_id = pd_id r, qi_sql = pd_sql r, qi_params = pd_params r, qi_key = pd_key r, qi_attempts = pd_attempts r,
     qi_last_error = pd_last_error r, qi_next_attempt_at = pd_next_attempt_at r \<rparr>"

definition next_due :: "real \<Rightarrow> nat \<Rightarrow> queue_db \<Rightarrow> QueueItem list" where
  "next_due now limit d =
    map item_of (take limit (sort_key pd_id (filter (\<lambda>r. pd_next_attempt_at r \<le> now) (qd_pending d))))"

definition ack :: "nat \<Rightarrow> queue_db \<Rightarrow> queue_db" where
  "ack i = run_statements [delete_pending i]"

text \<open>\<open>now\<close> and \<open>u\<close> are the clock reading and the random number the call draws.\<close>

definition fail_statements :: "real \<Rightarrow> real \<Rightarrow> QueueItem \<Rightarrow> string \<Rightarrow> (queue_db \<Rightarrow> queue_db) list" where
  "fail_statements now u it err =
    (let attempts = Suc (qi_attempts it) in
     if attempts \<ge> MAX_ATTEMPTS then [insert_dead it attempts err now, delete_pending (qi_id it)]
     else [update_pending (qi_id it) attempts err (fl64 (now + backoff u attempts 2 300))])"

definition fail :: "real \<Rightarrow> real \<Rightarrow> QueueItem \<Rightarrow> string \<Rightarrow> queue_db \<Rightarrow> queue_db" where
  "fail now u it err = run_statements (fail_statements now u it err)"

definition dead_statements :: "real \<Rightarrow> QueueItem \<Rightarrow> string \<Rightarrow> (queue_db \<Rightarrow> queue_db) list" where
  "dead_statements now it err = [insert_dead it (Suc (qi_attempts it)) err now, delete_pending (qi_id it)]"

section \<open>Flush\<close>

datatype batch_end = BatchDone | BatchNetwork | BatchRaised string

text \<open>What the loop has done so far: the counters, the items sent, the tables and the sender's state.\<close>

record 's flush_state =
  fs_sent :: "QueueItem list"
  fs_failed :: nat
  fs_db :: queue_db
  fs_world :: 's

text \<open>One batch; \<open>clock\<close> and \<open>rnd\<close> are indexed by the item.\<close>

fun flush_batch ::
  "(nat \<Rightarrow> real) \<Rightarrow> (nat \<Rightarrow> real) \<Rightarrow> (QueueItem \<Rightarrow> 's \<Rightarrow> unit py \<times> 's) \<Rightarrow> QueueItem list \<Rightarrow> 's flush_state
    \<Rightarrow> batch_end \<times> 's flush_state" where
  "flush_batch clock rnd send [] s = (BatchDone, s)"
| "flush_batch clock rnd send (it # its) s =
    (case send it (fs_world s) of
       (Inr _, w) \<Rightarrow> flush_batch clock rnd send its
          (s\<lparr>fs_db := ack (qi_id it) (fs_db s), fs_sent := fs_sent s @ [it], fs_world := w\<rparr>)
     | (Inl (Raised e), w) \<Rightarrow>
         if pe_class e = NetworkError
         then (BatchNetwork, s\<lparr>fs_db := fail (clock (qi_id it)) (rnd (qi_id it)) it (pe_message e) (fs_db s),
                 fs_failed := Suc (fs_failed s), fs_world := w\<rparr>)
         else flush_batch clock rnd send its
           (s\<lparr>fs_db := run_statements (dead_statements (clock (qi_id it)) it (pe_message e)) (fs_db s),
              fs_failed := Suc (fs_failed s), fs_world := w\<rparr>)
     | (Inl (Builtin m), w) \<Rightarrow> (BatchRaised m, s\<lparr>fs_world := w\<rparr>))"

text \<open>The items of a batch are gone from the table when the batch is done.\<close>

definition gone :: "nat set \<Rightarrow> queue_db \<Rightarrow> queue_db \<Rightarrow> bool" where
  "gone ids d d' \<longleftrightarrow> qd_pending d' = filter (\<lambda>r. pd_id r \<notin> ids) (qd_pending d)"

lemma run_statements_simps [simp]:
  "run_statements [] d = d" "run_statements (f # fs) d = run_statements fs (f d)"
  by (simp_all add: run_statements_def)

lemma gone_step: "qd_pending d1 = filter (\<lambda>r. pd_id r \<noteq> i) (qd_pending d) \<Longrightarrow> gone ids d1 d2 \<Longrightarrow> gone (insert i ids) d d2"
  by (auto simp: gone_def intro: filter_cong)

lemma flush_batch_done:
  assumes "flush_batch clock rnd send its s = (BatchDone, s')"
  shows "gone (qi_id ` set its) (fs_db s) (fs_db s')"
  using assms
proof (induction its arbitrary: s)
  case (Cons it its)
  then obtain s1 where "flush_batch clock rnd send its s1 = (BatchDone, s')"
    and p: "qd_pending (fs_db s1) = filter (\<lambda>r. pd_id r \<noteq> qi_id it) (qd_pending (fs_db s))"
    by (auto simp: ack_def delete_pending_def dead_statements_def insert_dead_def
        split: prod.splits sum.splits exc.splits if_splits)
  from gone_step[OF p Cons.IH[OF this(1)]] show ?case by simp
qed (simp add: gone_def)

lemma next_due_mem: "it \<in> set (next_due now m d) \<Longrightarrow> \<exists>r\<in>set (qd_pending d). it = item_of r \<and> pd_next_attempt_at r \<le> now"
  by (auto simp: next_due_def dest!: in_set_takeD)

text \<open>The outer loop; \<open>clocks n\<close> are the clock readings of its n-th round, the first for the query.  It ends because
  a batch that is done has emptied the table of its items.\<close>

function flush_loop ::
  "(nat \<Rightarrow> real \<times> (nat \<Rightarrow> real)) \<Rightarrow> (nat \<Rightarrow> real) \<Rightarrow> (QueueItem \<Rightarrow> 's \<Rightarrow> unit py \<times> 's) \<Rightarrow> nat \<Rightarrow> 's flush_state
    \<Rightarrow> (nat \<times> nat) py \<times> 's flush_state" where
  "flush_loop clocks rnd send n s =
    (let batch = next_due (fst (clocks n)) 64 (fs_db s) in
     if batch = [] then (Inr (length (fs_sent s), fs_failed s), s)
     else case flush_batch (snd (clocks n)) rnd send batch s of
       (BatchDone, s') \<Rightarrow> flush_loop clocks rnd send (Suc n) s'
     | (BatchNetwork, s') \<Rightarrow> (Inr (length (fs_sent s'), fs_failed s'), s')
     | (BatchRaised m, s') \<Rightarrow> (Inl (Builtin m), s'))"
  by pat_completeness auto
termination
proof (relation "measure (\<lambda>(clocks, rnd, send, n, s). length (qd_pending (fs_db s)))", goal_cases)
  case (2 clocks rnd send n s batch x s')
  then have "flush_batch (snd (clocks n)) rnd send batch s = (BatchDone, s')" by simp
  from flush_batch_done[OF this]
  have p: "qd_pending (fs_db s') = filter (\<lambda>r. pd_id r \<notin> qi_id ` set batch) (qd_pending (fs_db s))" by (simp add: gone_def)
  obtain it where "it \<in> set batch" using 2(2) by (cases batch) auto
  then obtain r where "r \<in> set (qd_pending (fs_db s))" "it = item_of r" using 2(1) next_due_mem by blast
  with \<open>it \<in> set batch\<close> have "r \<in> set (qd_pending (fs_db s))" "\<not> pd_id r \<notin> qi_id ` set batch"
    by (auto simp: item_of_def rev_image_eqI)
  then have "length (qd_pending (fs_db s')) < length (qd_pending (fs_db s))"
    unfolding p by (rule length_filter_less)
  then show ?case by simp
qed simp

declare flush_loop.simps [simp del]

definition flush ::
  "(nat \<Rightarrow> real \<times> (nat \<Rightarrow> real)) \<Rightarrow> (nat \<Rightarrow> real) \<Rightarrow> (QueueItem \<Rightarrow> 's \<Rightarrow> unit py \<times> 's) \<Rightarrow> queue_db \<Rightarrow> 's
    \<Rightarrow> (nat \<times> nat) py \<times> 's flush_state" where
  "flush clocks rnd send d w =
    flush_loop clocks rnd send 0 \<lparr> fs_sent = [], fs_failed = 0, fs_db = d, fs_world = w \<rparr>"

section \<open>Where a write is\<close>

type_synonym queued_write = "string \<times> json list \<times> string"

definition row_write :: "pending_row \<Rightarrow> queued_write" where
  "row_write r = (pd_sql r, pd_params r, pd_key r)"

definition dead_write :: "dead_row \<Rightarrow> queued_write" where
  "dead_write r = (dd_sql r, dd_params r, dd_key r)"

definition item_write :: "QueueItem \<Rightarrow> queued_write" where
  "item_write it = (qi_sql it, qi_params it, qi_key it)"

text \<open>The writes in the two tables, and those that were sent.\<close>

definition stored_writes :: "queue_db \<Rightarrow> queued_write multiset" where
  "stored_writes d = image_mset row_write (mset (qd_pending d)) + image_mset dead_write (mset (qd_dead d))"

definition sent_writes :: "QueueItem list \<Rightarrow> queued_write multiset" where
  "sent_writes its = image_mset item_write (mset its)"

definition wf_queue :: "queue_db \<Rightarrow> bool" where
  "wf_queue d \<longleftrightarrow> distinct (map pd_id (qd_pending d))
     \<and> (\<forall>r\<in>set (qd_pending d). pd_id r \<le> qd_seq d \<and> pd_attempts r < MAX_ATTEMPTS)"

lemma remove_row:
  "distinct (map pd_id rs) \<Longrightarrow> r \<in> set rs \<Longrightarrow> mset rs = add_mset r (mset (filter (\<lambda>x. pd_id x \<noteq> pd_id r) rs))"
proof (induction rs)
  case (Cons a rs)
  show ?case
  proof (cases "a = r")
    case True
    with Cons.prems(1) have "\<forall>x\<in>set rs. pd_id x \<noteq> pd_id r" by (metis distinct.simps(2) image_eqI list.set_map list.simps(9))
    then have "filter (\<lambda>x. pd_id x \<noteq> pd_id r) rs = rs" by (simp add: filter_id_conv)
    with True show ?thesis by simp
  next
    case False
    with Cons.prems have "pd_id a \<noteq> pd_id r" by (auto simp: image_iff)
    with Cons False show ?thesis by simp
  qed
qed simp

lemma wf_delete_pending: "wf_queue d \<Longrightarrow> wf_queue (delete_pending i d)"
  by (auto simp: wf_queue_def delete_pending_def distinct_map_filter)

lemma wf_insert_dead: "wf_queue (insert_dead it n err now d) = wf_queue d"
  by (simp add: wf_queue_def insert_dead_def)

lemma wf_update_pending: "wf_queue d \<Longrightarrow> n < MAX_ATTEMPTS \<Longrightarrow> wf_queue (update_pending i n err t d)"
proof -
  assume w: "wf_queue d" "n < MAX_ATTEMPTS"
  have "map pd_id (qd_pending (update_pending i n err t d)) = map pd_id (qd_pending d)"
    by (simp add: update_pending_def)
  moreover have "\<forall>r\<in>set (qd_pending (update_pending i n err t d)). pd_id r \<le> qd_seq d \<and> pd_attempts r < MAX_ATTEMPTS"
    using w by (auto simp: wf_queue_def update_pending_def)
  moreover have "qd_seq (update_pending i n err t d) = qd_seq d" by (simp add: update_pending_def)
  ultimately show ?thesis using w(1) by (simp add: wf_queue_def)
qed

text \<open>What each statement does to the stored writes.\<close>

lemma stored_delete:
  assumes "wf_queue d" "r \<in> set (qd_pending d)"
  shows "stored_writes d = add_mset (row_write r) (stored_writes (delete_pending (pd_id r) d))"
proof -
  have "mset (qd_pending d) = add_mset r (mset (filter (\<lambda>x. pd_id x \<noteq> pd_id r) (qd_pending d)))"
    using remove_row[OF _ assms(2)] assms(1) by (simp add: wf_queue_def)
  then have "image_mset row_write (mset (qd_pending d))
      = add_mset (row_write r) (image_mset row_write (mset (filter (\<lambda>x. pd_id x \<noteq> pd_id r) (qd_pending d))))"
    by (metis image_mset_add_mset)
  then show ?thesis by (simp add: stored_writes_def delete_pending_def)
qed

lemma stored_insert_dead: "stored_writes (insert_dead it n err now d) = add_mset (item_write it) (stored_writes d)"
  by (simp add: stored_writes_def insert_dead_def dead_write_def item_write_def)

lemma stored_update: "stored_writes (update_pending i n err t d) = stored_writes d"
proof -
  have "map row_write (qd_pending (update_pending i n err t d)) = map row_write (qd_pending d)"
    by (simp add: update_pending_def row_write_def)
  then have "image_mset row_write (mset (qd_pending (update_pending i n err t d))) = image_mset row_write (mset (qd_pending d))"
    by (metis mset_map)
  then show ?thesis by (simp add: stored_writes_def update_pending_def)
qed

lemma pending_insert_dead [simp]: "qd_pending (insert_dead it n err now d) = qd_pending d"
  by (simp add: insert_dead_def)

lemma item_of_simps [simp]: "qi_id (item_of r) = pd_id r" "item_write (item_of r) = row_write r" "qi_attempts (item_of r) = pd_attempts r"
  by (simp_all add: item_of_def item_write_def row_write_def)

lemma stored_dead:
  assumes "wf_queue d" "r \<in> set (qd_pending d)"
  shows "stored_writes (delete_pending (pd_id r) (insert_dead (item_of r) n err now d)) = stored_writes d"
  using stored_delete[of "insert_dead (item_of r) n err now d" r] assms by (simp add: wf_insert_dead stored_insert_dead)

lemma fail_keeps:
  assumes "wf_queue d" "r \<in> set (qd_pending d)"
  shows "wf_queue (fail now u (item_of r) err d)" "stored_writes (fail now u (item_of r) err d) = stored_writes d"
  using assms stored_dead[OF assms]
  by (simp_all add: fail_def fail_statements_def Let_def wf_delete_pending wf_insert_dead wf_update_pending stored_update)

text \<open>A crash between two statements of an operation may leave a write in both tables, but loses none.\<close>

lemma crash_loses_nothing:
  assumes "wf_queue d" "r \<in> set (qd_pending d)" "fs \<in> {fail_statements now u (item_of r) err, dead_statements now (item_of r) err}"
  shows "stored_writes d \<subseteq># stored_writes (run_statements (take k fs) d)"
proof -
  have "stored_writes d \<subseteq># stored_writes (run_statements (take k [insert_dead (item_of r) n err now, delete_pending (pd_id r)]) d)" for n
    using stored_dead[OF assms(1,2)] by (cases k; cases "k - 1") (simp_all add: stored_insert_dead)
  moreover have "stored_writes d \<subseteq># stored_writes (run_statements (take k [update_pending (pd_id r) n err t]) d)" for n t
    by (cases k) (simp_all add: stored_update)
  ultimately show ?thesis using assms(3) by (auto simp: fail_statements_def dead_statements_def Let_def)
qed

text \<open>The items still to be sent are rows of the table.\<close>

definition batch_ok :: "QueueItem list \<Rightarrow> queue_db \<Rightarrow> bool" where
  "batch_ok its d \<longleftrightarrow> distinct (map qi_id its) \<and> (\<forall>it\<in>set its. \<exists>r\<in>set (qd_pending d). it = item_of r)"

lemma batch_ok_delete:
  assumes "batch_ok (it # its) d"
  shows "batch_ok its (delete_pending (qi_id it) d)"
proof -
  have "\<exists>r\<in>set (qd_pending (delete_pending (qi_id it) d)). x = item_of r" if x: "x \<in> set its" for x
  proof -
    from assms x obtain r where r: "r \<in> set (qd_pending d)" "x = item_of r" by (auto simp: batch_ok_def)
    moreover have "qi_id x \<noteq> qi_id it" using assms x by (force simp: batch_ok_def)
    ultimately show ?thesis by (intro bexI[of _ r]) (simp_all add: delete_pending_def)
  qed
  with assms show ?thesis by (simp add: batch_ok_def)
qed

lemma flush_batch_conserves:
  assumes "flush_batch clock rnd send its s = (x, s')" "wf_queue (fs_db s)" "batch_ok its (fs_db s)"
  shows "wf_queue (fs_db s') \<and> stored_writes (fs_db s) + sent_writes (fs_sent s) = stored_writes (fs_db s') + sent_writes (fs_sent s')
    \<and> (x = BatchNetwork \<longrightarrow> 0 < fs_failed s')"
  using assms
proof (induction its arbitrary: s)
  case (Cons it its)
  from Cons.prems(3) obtain r where r: "r \<in> set (qd_pending (fs_db s))" "it = item_of r" by (auto simp: batch_ok_def)
  obtain y w where y: "send it (fs_world s) = (y, w)" by fastforce
  let ?d = "fs_db s"
  note bd = batch_ok_delete[OF Cons.prems(3)]
  consider (sent) v where "y = Inr v" | (net) e where "y = Inl (Raised e)" "pe_class e = NetworkError"
    | (dead) e where "y = Inl (Raised e)" "pe_class e \<noteq> NetworkError" | (builtin) m where "y = Inl (Builtin m)"
    by (metis exc.exhaust sum.exhaust)
  then show ?case
  proof cases
    case sent
    let ?s = "s\<lparr>fs_db := ack (qi_id it) ?d, fs_sent := fs_sent s @ [it], fs_world := w\<rparr>"
    have a: "flush_batch clock rnd send its ?s = (x, s')" using Cons.prems(1) y sent by simp
    have "wf_queue (fs_db ?s)" "batch_ok its (fs_db ?s)"
      using Cons.prems(2) bd by (simp_all add: ack_def wf_delete_pending)
    with Cons.IH[OF a] stored_delete[OF Cons.prems(2) r(1)] r(2) show ?thesis
      by (simp add: ack_def sent_writes_def)
  next
    case net
    then show ?thesis using Cons.prems(1,2) y r fail_keeps[OF Cons.prems(2) r(1)] by auto
  next
    case dead
    let ?d1 = "run_statements (dead_statements (clock (qi_id it)) it (pe_message e)) ?d"
    let ?s = "s\<lparr>fs_db := ?d1, fs_failed := Suc (fs_failed s), fs_world := w\<rparr>"
    have a: "flush_batch clock rnd send its ?s = (x, s')" using Cons.prems(1) y dead by simp
    have "wf_queue (fs_db ?s)"
      using Cons.prems(2) by (simp add: dead_statements_def wf_delete_pending wf_insert_dead)
    moreover have "batch_ok its (fs_db ?s)"
      using bd by (simp add: dead_statements_def batch_ok_def delete_pending_def)
    ultimately show ?thesis using Cons.IH[OF a] stored_dead[OF Cons.prems(2) r(1)] r(2)
      by (simp add: dead_statements_def)
  next
    case builtin
    then show ?thesis using Cons.prems(1,2) y by auto
  qed
qed auto

lemma next_due_ok: "wf_queue d \<Longrightarrow> batch_ok (next_due now m d) d"
proof -
  assume "wf_queue d"
  then have "distinct (map pd_id (sort_key pd_id (filter (\<lambda>r. pd_next_attempt_at r \<le> now) (qd_pending d))))"
    by (simp add: wf_queue_def distinct_map_filter distinct_map inj_on_def)
  then have "distinct (map qi_id (next_due now m d))"
    by (simp add: next_due_def comp_def distinct_take flip: take_map)
  then show ?thesis using next_due_mem[of _ now m d] by (auto simp: batch_ok_def)
qed

lemma flush_loop_conserves:
  assumes "flush_loop clocks rnd send n s = (r, s')" "wf_queue (fs_db s)"
  shows "wf_queue (fs_db s') \<and> stored_writes (fs_db s) + sent_writes (fs_sent s) = stored_writes (fs_db s') + sent_writes (fs_sent s')
    \<and> (\<forall>p. r = Inr p \<longrightarrow> p = (length (fs_sent s'), fs_failed s')
        \<and> (fs_failed s' = 0 \<longrightarrow> (\<exists>n. next_due (fst (clocks n)) 64 (fs_db s') = [])))"
  using assms
proof (induction clocks rnd send n s rule: flush_loop.induct)
  case (1 clocks rnd send n s)
  let ?batch = "next_due (fst (clocks n)) 64 (fs_db s)"
  show ?case
  proof (cases "?batch = []")
    case True
    then show ?thesis using 1(2,3) by (auto simp: flush_loop.simps[of clocks rnd send n s])
  next
    case False
    obtain x s1 where b: "flush_batch (snd (clocks n)) rnd send ?batch s = (x, s1)" by fastforce
    note c = flush_batch_conserves[OF b 1(3) next_due_ok[OF 1(3)]]
    show ?thesis
    proof (cases x)
      case BatchDone
      have "flush_loop clocks rnd send (Suc n) s1 = (r, s')"
        using 1(2) False b BatchDone by (simp add: flush_loop.simps[of clocks rnd send n s])
      from 1(1)[OF refl False b[symmetric] BatchDone this] c show ?thesis by simp
    next
      case BatchNetwork
      then show ?thesis using 1(2) False b c by (auto simp: flush_loop.simps[of clocks rnd send n s])
    next
      case (BatchRaised m)
      then show ?thesis using 1(2) False b c by (auto simp: flush_loop.simps[of clocks rnd send n s])
    qed
  qed
qed

lemma enqueue_wf:
  assumes "wf_queue d"
  shows "wf_queue (snd (enqueue m now sql ps key d))"
  using assms by (fastforce simp: enqueue_def wf_queue_def MAX_ATTEMPTS_def)

section \<open>Properties\<close>

text \<open>
  (C34) The queue loses no write: whatever the sender answers, \<^verbatim>\<open>flush\<close> ends,
  and afterwards every write that was pending or dead is in exactly one of
  three places: still pending, in the dead letters, or among those whose send
  succeeded.  The counts it returns are true, and if nothing failed, it
  stopped because no write was due.  The table stays well-formed: distinct
  ids, and no pending write has used up its attempts.
\<close>

theorem flush_conserves_writes:
  assumes "wf_queue d" "flush clocks rnd send d w = (r, s')"
  shows "wf_queue (fs_db s') \<and> stored_writes d = stored_writes (fs_db s') + sent_writes (fs_sent s')
    \<and> (\<forall>p. r = Inr p \<longrightarrow> p = (length (fs_sent s'), fs_failed s')
        \<and> (fs_failed s' = 0 \<longrightarrow> (\<exists>n. next_due (fst (clocks n)) 64 (fs_db s') = [])))"
  using flush_loop_conserves[OF assms(2)[unfolded flush_def]] assms(1) by (simp add: sent_writes_def)

text \<open>Two writes, and a sender that fails once with the given error.\<close>

definition two_writes :: queue_db where
  "two_writes = snd (enqueue 10 0 ''B'' [] ''kb'' (snd (enqueue 10 0 ''A'' [] ''ka'' empty_queue)))"

definition fail_once :: "error_class \<Rightarrow> QueueItem \<Rightarrow> bool \<Rightarrow> unit py \<times> bool" where
  "fail_once c it failed = (if failed then Inr () else Inl (Raised (mk_error c ''down'' None [])), True)"

theorem flush_conserves_writes_witness:
  "stored_writes two_writes = stored_writes (fs_db (snd (flush (\<lambda>_. (1, \<lambda>_. 1)) (\<lambda>_. 0) (fail_once NetworkError) two_writes False)))
    + sent_writes (fs_sent (snd (flush (\<lambda>_. (1, \<lambda>_. 1)) (\<lambda>_. 0) (fail_once NetworkError) two_writes False)))"
proof -
  have "wf_queue two_writes"
    by (simp add: two_writes_def enqueue_def empty_queue_def wf_queue_def MAX_ATTEMPTS_def)
  then show ?thesis by (rule flush_conserves_writes[OF _ surjective_pairing, THEN conjunct2, THEN conjunct1])
qed

text \<open>Replay is not first in, first out: a write in backoff is overtaken by later ones.\<close>

lemma backoff_overtakes:
  "\<exists>d1. fst (flush (\<lambda>_. (1, \<lambda>_. 1)) (\<lambda>_. 1 / 2) (fail_once NetworkError) two_writes False) = Inr (0, 1)
    \<and> d1 = fs_db (snd (flush (\<lambda>_. (1, \<lambda>_. 1)) (\<lambda>_. 1 / 2) (fail_once NetworkError) two_writes False))
    \<and> map qi_sql (fs_sent (snd (flush (\<lambda>_. (2, \<lambda>_. 2)) (\<lambda>_. 0) (fail_once NetworkError) d1 True))) = [''B'']"
proof -
  have f: "fl64 2 = 2" "fl64 3 = 3" using ieee.fl_int[of 2] ieee.fl_int[of 3] by simp_all
  show ?thesis
    by (simp add: flush_def flush_loop.simps next_due_def two_writes_def enqueue_def empty_queue_def item_of_def fail_once_def
        mk_error_def fail_def fail_statements_def MAX_ATTEMPTS_def update_pending_def backoff_def f ack_def delete_pending_def Let_def)
qed

text \<open>A server error or a rate limit is dead-lettered at once.\<close>

lemma server_error_is_dead_lettered:
  "c \<in> {ServerError, RateLimited} \<Longrightarrow>
    map dd_sql (qd_dead (fs_db (snd (flush (\<lambda>_. (1, \<lambda>_. 1)) (\<lambda>_. 0) (fail_once c) two_writes False)))) = [''A'']"
  by (auto simp: flush_def flush_loop.simps next_due_def two_writes_def enqueue_def empty_queue_def item_of_def fail_once_def
      mk_error_def dead_statements_def insert_dead_def ack_def delete_pending_def Let_def)

end
