(* ===== verification/Url.thy ===== *)
theory Url
  imports Net GoErrors
begin

text \<open>
  \<^verbatim>\<open>net/url\<close> as the database helpers use it: \<^verbatim>\<open>Parse\<close>, \<^verbatim>\<open>UserPassword\<close> and
  \<^verbatim>\<open>URL.String\<close>, with percent-encoding by the part of the URL.  Changing the
  password of a parsed URL and printing it gives a URL that parses to the
  same parts with the new password.
\<close>

section \<open>Percent-encoding\<close>

datatype encoding = encodePath | encodeHost | encodeZone | encodeUserPassword | encodeFragment

definition alnum :: "char \<Rightarrow> bool" where
  "alnum c \<longleftrightarrow> byte_in 97 122 c \<or> byte_in 65 90 c \<or> byte_in 48 57 c"

definition host_punct :: string where
  "host_punct = ''!$&'' @ [CHR 0x27] @ ''()*+,;=:[]<>'' @ [CHR 0x22]"

definition shouldEscape :: "char \<Rightarrow> encoding \<Rightarrow> bool" where
  "shouldEscape c m =
    (if alnum c then False
     else if m \<in> {encodeHost, encodeZone} \<and> c \<in> set host_punct then False
     else if c \<in> set ''-_.~'' then False
     else if c \<in> set ''$&+,/:;=?@'' then
       (case m of encodePath \<Rightarrow> c = CHR ''?''
        | encodeUserPassword \<Rightarrow> c \<in> set ''@/?:''
        | encodeFragment \<Rightarrow> False
        | _ \<Rightarrow> True)
     else if m = encodeFragment \<and> c \<in> set ''!()*'' then False
     else True)"

definition upper_hex :: "nat \<Rightarrow> char" where
  "upper_hex d = char_of (if d < 10 then 48 + d else 55 + d)"

definition esc_byte :: "char \<Rightarrow> string" where
  "esc_byte c = [CHR ''%'', upper_hex (of_char c div 16), upper_hex (of_char c mod 16)]"

definition url_escape :: "string \<Rightarrow> encoding \<Rightarrow> string" where
  "url_escape s m = concat (map (\<lambda>c. if shouldEscape c m then esc_byte c else [c]) s)"

definition EscapeError :: "string \<Rightarrow> string" where
  "EscapeError s = ''invalid URL escape '' @ go_quote s"

definition InvalidHostError :: "string \<Rightarrow> string" where
  "InvalidHostError s = ''invalid character '' @ go_quote s @ '' in host name''"

text \<open>Decoding, with the checks for hosts and zones; the left is the text of the error.\<close>

fun url_unescape :: "encoding \<Rightarrow> string \<Rightarrow> string + string" where
  "url_unescape m [] = Inr []"
| "url_unescape m (c # cs) =
    (if c = CHR ''%'' then
       (case cs of a # b # r \<Rightarrow>
          (case (unhex a, unhex b) of
             (Some i, Some j) \<Rightarrow>
               let v = char_of (16 * i + j) in
               if m = encodeHost \<and> i < 8 \<and> [a, b] \<noteq> ''25'' then Inl (EscapeError [c, a, b])
               else if m = encodeZone \<and> [a, b] \<noteq> ''25'' \<and> v \<noteq> CHR '' '' \<and> shouldEscape v encodeHost then Inl (EscapeError [c, a, b])
               else (case url_unescape m r of Inl e \<Rightarrow> Inl e | Inr t \<Rightarrow> Inr (v # t))
           | _ \<Rightarrow> Inl (EscapeError [c, a, b]))
        | _ \<Rightarrow> Inl (EscapeError (c # cs)))
     else if m \<in> {encodeHost, encodeZone} \<and> of_char c < (128::nat) \<and> shouldEscape c m then Inl (InvalidHostError [c])
     else (case url_unescape m cs of Inl e \<Rightarrow> Inl e | Inr t \<Rightarrow> Inr (c # t)))"

definition validEncoded :: "string \<Rightarrow> encoding \<Rightarrow> bool" where
  "validEncoded s m = list_all (\<lambda>c. c \<in> set (''!$&'' @ [CHR 0x27] @ ''()*+,;=:@[]%'') \<or> \<not> shouldEscape c m) s"

section \<open>URLs\<close>

record Userinfo =
  ui_username :: string
  ui_password :: string
  ui_passwordSet :: bool

record URL =
  u_Scheme :: string
  u_Opaque :: string
  u_User :: "Userinfo option"
  u_Host :: string
  u_Path :: string
  u_RawPath :: string
  u_OmitHost :: bool
  u_ForceQuery :: bool
  u_RawQuery :: string
  u_Fragment :: string
  u_RawFragment :: string

definition UserPassword :: "string \<Rightarrow> string \<Rightarrow> Userinfo" where
  "UserPassword name pw = \<lparr> ui_username = name, ui_password = pw, ui_passwordSet = True \<rparr>"

definition url_User :: "string \<Rightarrow> Userinfo" where
  "url_User name = \<lparr> ui_username = name, ui_password = [], ui_passwordSet = False \<rparr>"

text \<open>\<^verbatim>\<open>strings.Cut\<close> at a byte: before, after, found.\<close>

definition cut :: "char \<Rightarrow> string \<Rightarrow> string \<times> string \<times> bool" where
  "cut c s = (takeWhile (\<lambda>x. x \<noteq> c) s, drop 1 (dropWhile (\<lambda>x. x \<noteq> c) s), c \<in> set s)"

definition scheme_letter :: "char \<Rightarrow> bool" where
  "scheme_letter c \<longleftrightarrow> byte_in 97 122 c \<or> byte_in 65 90 c"

definition scheme_char :: "char \<Rightarrow> bool" where
  "scheme_char c \<longleftrightarrow> alnum c \<or> c \<in> set ''+-.''"

text \<open>\<^verbatim>\<open>getScheme\<close>.\<close>

definition getScheme :: "string \<Rightarrow> string + string \<times> string" where
  "getScheme s =
    (let p = takeWhile scheme_char s; r = drop (length p) s in
     if p \<noteq> [] \<and> \<not> scheme_letter (hd p) then Inr ([], s)
     else if r \<noteq> [] \<and> hd r = CHR '':'' then (if p = [] then Inl ''missing protocol scheme'' else Inr (p, drop 1 r))
     else Inr ([], s))"

definition lower :: "string \<Rightarrow> string" where
  "lower s = map (\<lambda>c. if byte_in 65 90 c then char_of (of_char c + 32 :: nat) else c) s"

definition validUserinfo :: "string \<Rightarrow> bool" where
  "validUserinfo s = list_all (\<lambda>c. alnum c \<or> c \<in> set (''-._:~!$&'' @ [CHR 0x27] @ ''()*+,;=%@'')) s"

text \<open>An empty text, or a colon and digits.\<close>

definition validOptionalPort :: "string \<Rightarrow> bool" where
  "validOptionalPort p = (p = [] \<or> hd p = CHR '':'' \<and> list_all is_digit (tl p))"

text \<open>An IPv6 address, with a zone after a percent sign.\<close>

definition ip_literal :: "string \<Rightarrow> bool" where
  "ip_literal s = (let (a, z, found) = cut (CHR ''%'') s in parse_v6 a \<noteq> None \<and> (found \<longrightarrow> z \<noteq> []))"

definition port_error :: "string \<Rightarrow> string" where
  "port_error p = ''invalid port '' @ go_quote p @ '' after host''"

fun find_pct25 :: "string \<Rightarrow> (string \<times> string) option" where
  "find_pct25 [] = None"
| "find_pct25 (c # cs) =
    (if has_prefix (c # cs) ''%25'' then Some ([], c # cs) else map_option (\<lambda>(a, b). (c # a, b)) (find_pct25 cs))"

definition parse_literal :: "string \<Rightarrow> string + string" where
  "parse_literal host =
    (case last_index_byte host (CHR '']'') of None \<Rightarrow> Inl ''missing ']' in host''
     | Some i \<Rightarrow>
       let colonPort = drop (i + 1) host; name = take (i - 1) (drop 1 host) in
       if \<not> validOptionalPort colonPort then Inl (port_error colonPort)
       else case (case find_pct25 name of
           None \<Rightarrow> url_unescape encodeHost name
         | Some (h, z) \<Rightarrow>
             (case url_unescape encodeHost h of Inl e \<Rightarrow> Inl e
              | Inr h1 \<Rightarrow> (case url_unescape encodeZone z of Inl e \<Rightarrow> Inl e | Inr z1 \<Rightarrow> Inr (h1 @ z1)))) of
         Inl e \<Rightarrow> Inl e
       | Inr u \<Rightarrow> if ip_literal u then Inr (''['' @ u @ '']'' @ colonPort) else Inl ''invalid IP-literal'')"

definition parseHost :: "string \<Rightarrow> string + string" where
  "parseHost host =
    (if CHR ''['' \<in> set host then
       (if hd host = CHR ''['' \<and> CHR ''['' \<notin> set (tl host) then parse_literal host else Inl ''invalid IP-literal'')
     else let p = dropWhile (\<lambda>c. c \<noteq> CHR '':'') host in
       if \<not> validOptionalPort p then Inl (port_error p) else url_unescape encodeHost host)"

definition parseAuthority :: "string \<Rightarrow> string + Userinfo option \<times> string" where
  "parseAuthority a =
    (case last_index_byte a (CHR ''@'') of
       None \<Rightarrow> (case parseHost a of Inl e \<Rightarrow> Inl e | Inr h \<Rightarrow> Inr (None, h))
     | Some i \<Rightarrow>
        (case parseHost (drop (i + 1) a) of Inl e \<Rightarrow> Inl e
         | Inr h \<Rightarrow>
           let userinfo = take i a in
           if \<not> validUserinfo userinfo then Inl ''net/url: invalid userinfo''
           else let (name, pw, colon) = cut (CHR '':'') userinfo in
             (case url_unescape encodeUserPassword name of Inl e \<Rightarrow> Inl e
              | Inr n \<Rightarrow>
                 if \<not> colon then Inr (Some (url_User n), h)
                 else (case url_unescape encodeUserPassword pw of Inl e \<Rightarrow> Inl e | Inr p \<Rightarrow> Inr (Some (UserPassword n p), h)))))"

definition setPath :: "string \<Rightarrow> URL \<Rightarrow> string + URL" where
  "setPath p u = (case url_unescape encodePath p of Inl e \<Rightarrow> Inl e
     | Inr path \<Rightarrow> Inr (u\<lparr>u_Path := path, u_RawPath := (if p = url_escape path encodePath then [] else p)\<rparr>))"

definition setFragment :: "string \<Rightarrow> URL \<Rightarrow> string + URL" where
  "setFragment f u = (case url_unescape encodeFragment f of Inl e \<Rightarrow> Inl e
     | Inr frag \<Rightarrow> Inr (u\<lparr>u_Fragment := frag, u_RawFragment := (if f = url_escape frag encodeFragment then [] else f)\<rparr>))"

definition zero_URL :: URL where
  "zero_URL = \<lparr> u_Scheme = [], u_Opaque = [], u_User = None, u_Host = [], u_Path = [], u_RawPath = [], u_OmitHost = False,
     u_ForceQuery = False, u_RawQuery = [], u_Fragment = [], u_RawFragment = [] \<rparr>"

definition ctl_byte :: "char \<Rightarrow> bool" where
  "ctl_byte c \<longleftrightarrow> of_char c < (32::nat) \<or> of_char c = (127::nat)"

text \<open>The query: a single question mark at the end forces an empty one.\<close>

definition cut_query :: "string \<Rightarrow> string \<times> bool \<times> string" where
  "cut_query s =
    (let (a, q, found) = cut (CHR ''?'') s in (a, found \<and> q = [], q))"

text \<open>\<^verbatim>\<open>parse(rawURL, false)\<close>, after the control bytes and the special case of an asterisk.\<close>

definition parse_rest :: "URL \<Rightarrow> string \<Rightarrow> string + URL" where
  "parse_rest u rest =
    (if \<not> has_prefix rest ''/'' \<and> u_Scheme u \<noteq> [] then Inr (u\<lparr>u_Opaque := rest\<rparr>)
     else if \<not> has_prefix rest ''/'' \<and> CHR '':'' \<in> set (fst (cut (CHR ''/'') rest))
     then Inl ''first path segment in URL cannot contain colon''
     else if (u_Scheme u \<noteq> [] \<or> \<not> has_prefix rest ''///'') \<and> has_prefix rest ''//'' then
       (let a = takeWhile (\<lambda>c. c \<noteq> CHR ''/'') (drop 2 rest); p = dropWhile (\<lambda>c. c \<noteq> CHR ''/'') (drop 2 rest) in
        case parseAuthority a of Inl e \<Rightarrow> Inl e | Inr (user, h) \<Rightarrow> setPath p (u\<lparr>u_User := user, u_Host := h\<rparr>))
     else setPath rest (u\<lparr>u_OmitHost := (u_Scheme u \<noteq> [] \<and> has_prefix rest ''/'')\<rparr>))"

definition url_parse :: "string \<Rightarrow> string + URL" where
  "url_parse s =
    (if list_ex ctl_byte s then Inl ''net/url: invalid control character in URL''
     else if s = ''*'' then Inr (zero_URL\<lparr>u_Path := ''*''\<rparr>)
     else case getScheme s of Inl e \<Rightarrow> Inl e
     | Inr (scheme, rest) \<Rightarrow>
        let (r, force, query) = cut_query rest in
        parse_rest (zero_URL\<lparr>u_Scheme := lower scheme, u_ForceQuery := force, u_RawQuery := query\<rparr>) r)"

text \<open>\<^verbatim>\<open>url.Parse\<close>; its error quotes the whole URL.\<close>

definition url_error :: "string \<Rightarrow> string \<Rightarrow> go_error" where
  "url_error raw reason = Opaque (''parse '' @ go_quote raw @ '': '' @ reason)"

definition Parse :: "string \<Rightarrow> URL result" where
  "Parse raw =
    (let (s, frag, _) = cut (CHR ''#'') raw in
     case url_parse s of Inl e \<Rightarrow> Inl (url_error s e)
     | Inr u \<Rightarrow>
        if frag = [] then Inr u
        else case setFragment frag u of Inl e \<Rightarrow> Inl (url_error raw e) | Inr u' \<Rightarrow> Inr u')"

section \<open>Printing\<close>

definition user_string :: "Userinfo \<Rightarrow> string" where
  "user_string ui =
    (if ui_username ui \<noteq> [] \<or> ui_password ui \<noteq> []
     then url_escape (ui_username ui) encodeUserPassword
       @ (if ui_passwordSet ui then '':'' @ url_escape (ui_password ui) encodeUserPassword else [])
     else [])"

definition EscapedPath :: "URL \<Rightarrow> string" where
  "EscapedPath u =
    (if u_RawPath u \<noteq> [] \<and> validEncoded (u_RawPath u) encodePath \<and> url_unescape encodePath (u_RawPath u) = Inr (u_Path u)
     then u_RawPath u else if u_Path u = ''*'' then ''*'' else url_escape (u_Path u) encodePath)"

definition EscapedFragment :: "URL \<Rightarrow> string" where
  "EscapedFragment u =
    (if u_RawFragment u \<noteq> [] \<and> validEncoded (u_RawFragment u) encodeFragment \<and> url_unescape encodeFragment (u_RawFragment u) = Inr (u_Fragment u)
     then u_RawFragment u else url_escape (u_Fragment u) encodeFragment)"

definition url_head :: "URL \<Rightarrow> string" where
  "url_head u =
    (if u_Scheme u \<noteq> [] \<or> u_Host u \<noteq> [] \<or> u_User u \<noteq> None then
       (if u_OmitHost u \<and> u_Host u = [] \<and> u_User u = None then []
        else (if u_Host u \<noteq> [] \<or> u_Path u \<noteq> [] \<or> u_User u \<noteq> None then ''//'' else [])
          @ (case u_User u of None \<Rightarrow> [] | Some ui \<Rightarrow> user_string ui @ ''@'')
          @ url_escape (u_Host u) encodeHost)
     else [])"

definition url_string :: "URL \<Rightarrow> string" where
  "url_string u =
    (let pre = (if u_Scheme u \<noteq> [] then u_Scheme u @ '':'' else []);
         path = EscapedPath u;
         body = (if u_Opaque u \<noteq> [] then u_Opaque u
           else url_head u
             @ (if path \<noteq> [] \<and> hd path \<noteq> CHR ''/'' \<and> u_Host u \<noteq> [] then ''/'' else [])
             @ (if pre @ url_head u = [] \<and> CHR '':'' \<in> set (fst (cut (CHR ''/'') path)) \<and> path \<noteq> [] then ''./'' else [])
             @ path)
     in pre @ body @ (if u_ForceQuery u \<or> u_RawQuery u \<noteq> [] then ''?'' @ u_RawQuery u else [])
        @ (if u_Fragment u \<noteq> [] then ''#'' @ EscapedFragment u else []))"

section \<open>Encoding and decoding\<close>

lemma char_25: "char_of (50::nat) = CHR ''2''" "char_of (53::nat) = CHR ''5''" "char_of (37::nat) = CHR ''%''"
  by code_simp+

lemma of_upper_hex: "d < 16 \<Longrightarrow> of_char (upper_hex d) = (if d < 10 then 48 + d else 55 + d :: nat)"
  by (simp add: upper_hex_def)

lemma unhex_upper_hex: "d < 16 \<Longrightarrow> unhex (upper_hex d) = Some d"
  by (simp add: unhex_def of_upper_hex Let_def)

lemma alnum_upper_hex: "d < 16 \<Longrightarrow> alnum (upper_hex d)"
  by (simp add: alnum_def of_upper_hex)

lemma byte_halves: "(of_char (c::char) :: nat) div 16 < 16" "(of_char c :: nat) mod 16 < 16"
  "char_of (16 * (of_char c div 16 :: nat) + of_char c mod 16) = c"
  by (simp_all add: less_mult_imp_div_less)

lemma unescape_byte:
  assumes "m \<notin> {encodeHost, encodeZone} \<or> m = encodeHost \<and> (128 \<le> (of_char c :: nat) \<or> c = CHR ''%'')"
  shows "url_unescape m (esc_byte c @ r) = (case url_unescape m r of Inl e \<Rightarrow> Inl e | Inr t \<Rightarrow> Inr (c # t))"
proof -
  let ?i = "of_char c div 16 :: nat" and ?j = "of_char c mod 16 :: nat"
  have "m = encodeHost \<Longrightarrow> ?i < 8 \<Longrightarrow> [upper_hex ?i, upper_hex ?j] = ''25''"
    using assms by (auto simp: upper_hex_def char_25)
  then show ?thesis
    using assms unhex_upper_hex[OF byte_halves(1)[of c]] unhex_upper_hex[OF byte_halves(2)[of c]] byte_halves(3)[of c]
    by (auto simp: esc_byte_def Let_def)
qed

lemma unescape_plain:
  assumes "c \<noteq> CHR ''%''" "m \<in> {encodeHost, encodeZone} \<Longrightarrow> \<not> shouldEscape c m"
  shows "url_unescape m (c # r) = (case url_unescape m r of Inl e \<Rightarrow> Inl e | Inr t \<Rightarrow> Inr (c # t))"
  using assms by auto

lemma pct_escaped: "shouldEscape (CHR ''%'') m"
  by (simp add: shouldEscape_def alnum_def host_punct_def)

text \<open>The bytes a host may have: ASCII ones that need no escape, the percent sign, and all others.\<close>

definition host_ok :: "string \<Rightarrow> bool" where
  "host_ok h = list_all (\<lambda>c. 128 \<le> (of_char c :: nat) \<or> c = CHR ''%'' \<or> \<not> shouldEscape c encodeHost) h"

lemma unescape_escape:
  assumes "m \<notin> {encodeHost, encodeZone} \<or> m = encodeHost \<and> host_ok s"
  shows "url_unescape m (url_escape s m) = Inr s"
  using assms
proof (induction s)
  case (Cons c s)
  have tail: "url_unescape m (url_escape s m) = Inr s" using Cons by (auto simp: host_ok_def)
  show ?case
  proof (cases "shouldEscape c m")
    case True
    have "m \<notin> {encodeHost, encodeZone} \<or> m = encodeHost \<and> (128 \<le> (of_char c :: nat) \<or> c = CHR ''%'')"
      using Cons.prems True by (auto simp: host_ok_def)
    from unescape_byte[OF this, of "url_escape s m"] tail True show ?thesis by (simp add: url_escape_def)
  next
    case False
    then have "c \<noteq> CHR ''%''" using pct_escaped by auto
    from unescape_plain[OF this, of m "url_escape s m"] tail False show ?thesis by (simp add: url_escape_def)
  qed
qed (simp add: url_escape_def)

lemma unescape_host_ok: "url_unescape encodeHost s = Inr h \<Longrightarrow> host_ok h"
proof (induction "length s" arbitrary: s h rule: less_induct)
  case less
  show ?case
  proof (cases s)
    case Nil
    with less.prems show ?thesis by (simp add: host_ok_def)
  next
    case s: (Cons c cs)
    show ?thesis
    proof (cases "c = CHR ''%''")
      case False
      with less.prems s obtain t where "url_unescape encodeHost cs = Inr t" "h = c # t"
        "128 \<le> (of_char c :: nat) \<or> \<not> shouldEscape c encodeHost"
        by (auto split: if_splits sum.splits)
      with less.hyps[of cs t] s show ?thesis by (auto simp: host_ok_def)
    next
      case True
      with less.prems s obtain a b r i j t where cs: "cs = a # b # r" and ij: "unhex a = Some i" "unhex b = Some j"
        and g: "\<not> i < 8 \<or> [a, b] = ''25''" and t: "url_unescape encodeHost r = Inr t" "h = char_of (16 * i + j) # t"
        by (auto simp: Let_def split: list.splits option.splits if_splits sum.splits)
      have "128 \<le> 16 * i + j \<and> 16 * i + j < 256 \<or> char_of (16 * i + j) = CHR ''%''"
        using g ij by (auto simp: unhex_def Let_def char_25 split: if_splits)
      with less.hyps[of r t] t s cs show ?thesis by (auto simp: host_ok_def)
    qed
  qed
qed

lemma esc_byte_chars: "x \<in> set (esc_byte c) \<Longrightarrow> x = CHR ''%'' \<or> alnum x"
  using alnum_upper_hex[OF byte_halves(1)[of c]] alnum_upper_hex[OF byte_halves(2)[of c]] by (auto simp: esc_byte_def)

lemma escape_chars: "c \<in> set (url_escape s m) \<Longrightarrow> \<not> shouldEscape c m \<or> c = CHR ''%''"
  using alnum_upper_hex byte_halves(1,2)
  by (auto simp: url_escape_def esc_byte_def shouldEscape_def[of "upper_hex _"] split: if_splits)

lemma escape_Nil [simp]: "url_escape s m = [] \<longleftrightarrow> s = []"
  by (cases s) (auto simp: url_escape_def esc_byte_def)

section \<open>Printing and parsing\<close>

text \<open>What \<^verbatim>\<open>Parse\<close> leaves in a URL with an authority.\<close>

definition wf_url :: "URL \<Rightarrow> bool" where
  "wf_url u \<longleftrightarrow> u_Opaque u = []
    \<and> (u_Scheme u \<noteq> [] \<longrightarrow> scheme_letter (hd (u_Scheme u)) \<and> list_all scheme_char (u_Scheme u) \<and> lower (u_Scheme u) = u_Scheme u)
    \<and> host_ok (u_Host u) \<and> CHR ''['' \<notin> set (u_Host u) \<and> validOptionalPort (dropWhile (\<lambda>c. c \<noteq> CHR '':'') (u_Host u))
    \<and> (u_Path u = [] \<or> hd (u_Path u) = CHR ''/'')
    \<and> (u_RawPath u = [] \<or> hd (u_RawPath u) = CHR ''/'')
    \<and> list_all (\<lambda>c. \<not> ctl_byte c \<and> c \<noteq> CHR ''#'' \<and> c \<noteq> CHR ''?'') (u_RawPath u)
    \<and> list_all (\<lambda>c. \<not> ctl_byte c \<and> c \<noteq> CHR ''#'') (u_RawQuery u)
    \<and> (u_ForceQuery u \<longrightarrow> u_RawQuery u = [])"

definition same_parts :: "URL \<Rightarrow> URL \<Rightarrow> bool" where
  "same_parts u v \<longleftrightarrow> u_Scheme u = u_Scheme v \<and> u_Opaque u = u_Opaque v \<and> u_User u = u_User v \<and> u_Host u = u_Host v
    \<and> u_Path u = u_Path v \<and> u_ForceQuery u = u_ForceQuery v \<and> u_RawQuery u = u_RawQuery v \<and> u_Fragment u = u_Fragment v"

lemma cut_found: "c \<notin> set a \<Longrightarrow> cut c (a @ c # b) = (a, b, True)"
proof -
  assume "c \<notin> set a"
  then have "list_all (\<lambda>x. x \<noteq> c) a" by (auto simp: list_all_iff)
  then show ?thesis by (simp add: cut_def takeWhile_append_stop dropWhile_append_stop)
qed

lemma cut_absent: "c \<notin> set a \<Longrightarrow> cut c a = (a, [], False)"
proof -
  assume "c \<notin> set a"
  then have d: "dropWhile (\<lambda>x. x \<noteq> c) a = []" and t: "takeWhile (\<lambda>x. x \<noteq> c) a = a"
    by (auto simp: dropWhile_eq_Nil_conv takeWhile_eq_all_conv)
  show ?thesis unfolding cut_def d t using \<open>c \<notin> set a\<close> by simp
qed

text \<open>Bytes that never appear in an escaped part.\<close>

lemma ctl_escaped: "ctl_byte c \<Longrightarrow> shouldEscape c m"
proof -
  assume c: "ctl_byte c"
  have "list_all (\<lambda>x. \<not> ctl_byte x) (host_punct @ ''-_.~'' @ ''$&+,/:;=?@'' @ ''!()*'')"
    by (simp add: host_punct_def ctl_byte_def)
  with c have "c \<notin> set (host_punct @ ''-_.~'' @ ''$&+,/:;=?@'' @ ''!()*'')" unfolding list_all_iff by blast
  moreover have "\<not> alnum c" using c by (auto simp: ctl_byte_def alnum_def)
  ultimately show ?thesis unfolding shouldEscape_def set_append Un_iff by presburger
qed

lemma escape_no_ctl: "c \<in> set (url_escape s m) \<Longrightarrow> \<not> ctl_byte c"
  using escape_chars[of c s m] ctl_escaped[of c m] by (auto simp: ctl_byte_def)

lemma always_escaped: "shouldEscape (CHR ''#'') m" "shouldEscape (CHR ''?'') encodePath"
  "shouldEscape (CHR ''?'') encodeHost" "shouldEscape (CHR ''/'') encodeHost" "shouldEscape (CHR ''@'') encodeHost"
  "shouldEscape (CHR ''?'') encodeUserPassword" "shouldEscape (CHR ''/'') encodeUserPassword"
  "shouldEscape (CHR ''@'') encodeUserPassword" "shouldEscape (CHR '':'') encodeUserPassword"
  by (simp_all add: shouldEscape_def alnum_def host_punct_def)

lemma escape_clean: "c \<noteq> CHR ''%'' \<Longrightarrow> shouldEscape c m \<Longrightarrow> c \<notin> set (url_escape s m)"
  using escape_chars by blast

lemma user_escape_valid: "validUserinfo (url_escape s encodeUserPassword)"
proof -
  have "alnum c \<or> c \<in> set (''-._:~!$&'' @ [CHR 0x27] @ ''()*+,;=%@'')" if "\<not> shouldEscape c encodeUserPassword \<or> c = CHR ''%''" for c
    using that by (auto simp: shouldEscape_def split: if_splits)
  then show ?thesis using escape_chars[of _ s encodeUserPassword] unfolding validUserinfo_def list_all_iff by blast
qed

lemma escape_Cons: "url_escape (c # s) m = (if shouldEscape c m then esc_byte c else [c]) @ url_escape s m"
  by (simp add: url_escape_def)

lemma escape_append: "url_escape (a @ b) m = url_escape a m @ url_escape b m"
  by (simp add: url_escape_def)

lemma digits_plain: "list_all is_digit ds \<Longrightarrow> url_escape ds m = ds"
  by (induction ds) (auto simp: url_escape_def shouldEscape_def alnum_def is_digit_def)

text \<open>A port is printed as it is.\<close>

lemma escape_port:
  assumes "validOptionalPort (dropWhile (\<lambda>c. c \<noteq> CHR '':'') h)"
  shows "dropWhile (\<lambda>c. c \<noteq> CHR '':'') (url_escape h encodeHost) = dropWhile (\<lambda>c. c \<noteq> CHR '':'') h"
  using assms
proof (induction h)
  case (Cons c h)
  show ?case
  proof (cases "c = CHR '':''")
    case True
    with Cons.prems have "list_all is_digit h" by (simp add: validOptionalPort_def)
    with True show ?thesis by (simp add: escape_Cons digits_plain shouldEscape_def alnum_def host_punct_def)
  next
    case False
    have "list_all (\<lambda>x. x \<noteq> CHR '':'') (esc_byte c)"
      using esc_byte_chars[of "CHR '':''" c] by (auto simp: list_all_iff alnum_def)
    then have "dropWhile (\<lambda>x. x \<noteq> CHR '':'') (esc_byte c @ t) = dropWhile (\<lambda>x. x \<noteq> CHR '':'') t" for t
      by (simp add: dropWhile_append list_all_iff)
    with False Cons show ?thesis by (auto simp: escape_Cons)
  qed
qed (simp add: url_escape_def)

lemma plain_digits: "list_all is_digit ds \<Longrightarrow> url_unescape encodeHost ds = Inr ds"
proof -
  assume d: "list_all is_digit ds"
  have "host_ok ds" using d by (auto simp: host_ok_def list_all_iff shouldEscape_def alnum_def is_digit_def)
  then show ?thesis using unescape_escape[of encodeHost ds] digits_plain[OF d] by simp
qed

lemma unescape_port:
  assumes "url_unescape encodeHost s = Inr h" "validOptionalPort (dropWhile (\<lambda>c. c \<noteq> CHR '':'') s)"
  shows "validOptionalPort (dropWhile (\<lambda>c. c \<noteq> CHR '':'') h)"
  using assms
proof (induction "length s" arbitrary: s h rule: less_induct)
  case less
  show ?case
  proof (cases s)
    case Nil
    with less.prems show ?thesis by (simp add: validOptionalPort_def)
  next
    case s: (Cons c cs)
    consider (colon) "c = CHR '':''" | (pct) "c = CHR ''%''" | (other) "c \<noteq> CHR '':''" "c \<noteq> CHR ''%''" by blast
    then show ?thesis
    proof cases
      case colon
      with less.prems s have d: "list_all is_digit cs" by (simp add: validOptionalPort_def)
      have "h = s" using less.prems(1) plain_digits[OF d] s colon by (simp add: shouldEscape_def alnum_def host_punct_def)
      with less.prems(2) show ?thesis by simp
    next
      case pct
      with less.prems(1) s obtain a b r i j t where cs: "cs = a # b # r" and ij: "unhex a = Some i" "unhex b = Some j"
        and g: "\<not> i < 8 \<or> [a, b] = ''25''" and t: "url_unescape encodeHost r = Inr t" "h = char_of (16 * i + j) # t"
        by (auto simp: Let_def split: list.splits option.splits if_splits sum.splits)
      have "128 \<le> 16 * i + j \<and> 16 * i + j < 256 \<or> char_of (16 * i + j) = CHR ''%''"
        using g ij by (auto simp: unhex_def Let_def char_25 split: if_splits)
      then have "char_of (16 * i + j) \<noteq> CHR '':''" by (auto dest: arg_cong[of _ _ "of_char :: char \<Rightarrow> nat"])
      moreover have "a \<noteq> CHR '':''" "b \<noteq> CHR '':''" using ij by (auto simp: unhex_def)
      ultimately show ?thesis using less.hyps[of r t] less.prems(2) t s cs pct by simp
    next
      case other
      with less.prems(1) s obtain t where "url_unescape encodeHost cs = Inr t" "h = c # t" by (auto split: if_splits sum.splits)
      with less.hyps[of cs t] less.prems(2) s other show ?thesis by simp
    qed
  qed
qed

text \<open>The printed authority parses to what was printed.\<close>

lemma parse_printed_authority:
  assumes "host_ok h" "CHR ''['' \<notin> set h" "validOptionalPort (dropWhile (\<lambda>c. c \<noteq> CHR '':'') h)"
  shows "parseAuthority (url_escape n encodeUserPassword @ '':'' @ url_escape p encodeUserPassword @ ''@'' @ url_escape h encodeHost)
    = Inr (Some (UserPassword n p), h)"
proof -
  let ?n = "url_escape n encodeUserPassword" and ?p = "url_escape p encodeUserPassword" and ?h = "url_escape h encodeHost"
  have at: "CHR ''@'' \<notin> set ?h" by (rule escape_clean) (simp_all add: always_escaped)
  have idx: "last_index_byte ((?n @ '':'' @ ?p) @ CHR ''@'' # ?h) (CHR ''@'') = Some (length (?n @ '':'' @ ?p))"
    by (rule last_index_append[OF at])
  have br: "CHR ''['' \<notin> set ?h"
  proof
    assume "CHR ''['' \<in> set ?h"
    then obtain c where "c \<in> set h" "CHR ''['' \<in> set (if shouldEscape c encodeHost then esc_byte c else [c])"
      by (auto simp: url_escape_def)
    with assms(2) esc_byte_chars[of "CHR ''[''" c] show False by (auto simp: alnum_def split: if_splits)
  qed
  have host: "parseHost ?h = Inr h"
    using br assms unescape_escape[of encodeHost h] by (simp add: parseHost_def escape_port)
  have valid: "validUserinfo (?n @ '':'' @ ?p)"
    using user_escape_valid[of n] user_escape_valid[of p] by (simp add: validUserinfo_def)
  have "CHR '':'' \<notin> set ?n" by (rule escape_clean) (simp_all add: always_escaped)
  then have "cut (CHR '':'') (?n @ CHR '':'' # ?p) = (?n, ?p, True)" by (rule cut_found)
  then show ?thesis
    using idx host valid unescape_escape[of encodeUserPassword n] unescape_escape[of encodeUserPassword p]
    by (simp add: parseAuthority_def)
qed

lemma escaped_path:
  assumes "wf_url u"
  shows "url_unescape encodePath (EscapedPath u) = Inr (u_Path u)"
    "EscapedPath u = [] \<or> hd (EscapedPath u) = CHR ''/''"
    "c \<in> set (EscapedPath u) \<Longrightarrow> \<not> ctl_byte c \<and> c \<noteq> CHR ''#'' \<and> c \<noteq> CHR ''?''"
proof -
  let ?raw = "u_RawPath u \<noteq> [] \<and> validEncoded (u_RawPath u) encodePath \<and> url_unescape encodePath (u_RawPath u) = Inr (u_Path u)"
  have star: "u_Path u \<noteq> ''*''" using assms by (auto simp: wf_url_def)
  have e: "\<not> ?raw \<Longrightarrow> EscapedPath u = url_escape (u_Path u) encodePath" using star by (auto simp: EscapedPath_def)
  have r: "?raw \<Longrightarrow> EscapedPath u = u_RawPath u" by (simp add: EscapedPath_def)
  show "url_unescape encodePath (EscapedPath u) = Inr (u_Path u)"
    using e r unescape_escape[of encodePath "u_Path u"] by (cases ?raw) simp_all
  have slash: "\<not> shouldEscape (CHR ''/'') encodePath" by (simp add: shouldEscape_def alnum_def)
  show "EscapedPath u = [] \<or> hd (EscapedPath u) = CHR ''/''"
    using assms e r slash by (cases ?raw; cases "u_Path u") (auto simp: wf_url_def escape_Cons url_escape_def)
  show "\<not> ctl_byte c \<and> c \<noteq> CHR ''#'' \<and> c \<noteq> CHR ''?''" if "c \<in> set (EscapedPath u)"
  proof (cases ?raw)
    case True
    with that r assms show ?thesis by (auto simp: wf_url_def list_all_iff)
  next
    case False
    with that e have "c \<in> set (url_escape (u_Path u) encodePath)" by simp
    then show ?thesis using escape_no_ctl escape_clean[of "CHR ''#''" encodePath "u_Path u"]
        escape_clean[of "CHR ''?''" encodePath "u_Path u"] by (auto simp: always_escaped)
  qed
qed

lemma getScheme_printed:
  assumes "wf_url u" "hd t = CHR ''/''" "t \<noteq> []"
  shows "getScheme ((if u_Scheme u \<noteq> [] then u_Scheme u @ '':'' else []) @ t) = Inr (u_Scheme u, t)"
proof (cases "u_Scheme u = []")
  case True
  then show ?thesis using assms(2,3) by (cases t) (simp_all add: getScheme_def scheme_char_def alnum_def)
next
  case False
  then have sc: "list_all scheme_char (u_Scheme u)" "scheme_letter (hd (u_Scheme u))" using assms(1) by (simp_all add: wf_url_def)
  have "\<not> scheme_char (CHR '':'')" by (simp add: scheme_char_def alnum_def)
  then have "takeWhile scheme_char (u_Scheme u @ CHR '':'' # t) = u_Scheme u" by (rule takeWhile_append_stop[OF sc(1)])
  then show ?thesis using sc False by (simp add: getScheme_def Let_def)
qed

text \<open>A well-formed URL with a user and a password is printed without loss.\<close>

lemma parse_rest_printed:
  assumes "wf_url u" "u_User u = Some (UserPassword n p)" "p \<noteq> []" "u_Scheme v = u_Scheme u"
  shows "\<exists>rp. parse_rest v (url_head u @ EscapedPath u)
    = Inr (v\<lparr>u_User := u_User u, u_Host := u_Host u, u_Path := u_Path u, u_RawPath := rp\<rparr>)"
proof -
  let ?n = "url_escape n encodeUserPassword" and ?p = "url_escape p encodeUserPassword" and ?h = "url_escape (u_Host u) encodeHost"
  define a where "a = ?n @ '':'' @ ?p @ ''@'' @ ?h"
  have head: "url_head u = ''//'' @ a"
    using assms(2,3) by (simp add: url_head_def user_string_def UserPassword_def a_def)
  have no: "CHR ''/'' \<notin> set a" unfolding a_def
    using escape_clean[of "CHR ''/''" encodeUserPassword n] escape_clean[of "CHR ''/''" encodeUserPassword p]
      escape_clean[of "CHR ''/''" encodeHost "u_Host u"] by (simp add: always_escaped)
  have ne: "a \<noteq> []" by (simp add: a_def)
  have sp: "takeWhile (\<lambda>c. c \<noteq> CHR ''/'') (a @ EscapedPath u) = a" "dropWhile (\<lambda>c. c \<noteq> CHR ''/'') (a @ EscapedPath u) = EscapedPath u"
  proof -
    have all: "list_all (\<lambda>c. c \<noteq> CHR ''/'') a" using no by (auto simp: list_all_iff)
    show "takeWhile (\<lambda>c. c \<noteq> CHR ''/'') (a @ EscapedPath u) = a" "dropWhile (\<lambda>c. c \<noteq> CHR ''/'') (a @ EscapedPath u) = EscapedPath u"
      using escaped_path(2)[OF assms(1)] takeWhile_append_stop[OF all, of "CHR ''/''"] dropWhile_append_stop[OF all, of "CHR ''/''"] all
      by (cases "EscapedPath u"; force simp: list_all_iff takeWhile_eq_all_conv dropWhile_eq_Nil_conv)+
  qed
  have third: "\<not> has_prefix (''//'' @ a @ EscapedPath u) ''///''"
    using no ne by (cases a) (auto simp: has_prefix_def)
  have auth: "parseAuthority a = Inr (u_User u, u_Host u)"
    unfolding a_def assms(2) using assms(1) by (intro parse_printed_authority) (simp_all add: wf_url_def)
  have "parse_rest v (url_head u @ EscapedPath u) = Inr (v\<lparr>u_User := u_User u, u_Host := u_Host u, u_Path := u_Path u,
      u_RawPath := (if EscapedPath u = url_escape (u_Path u) encodePath then [] else EscapedPath u)\<rparr>)"
    using third sp auth escaped_path(1)[OF assms(1)] assms(4)
    by (simp add: parse_rest_def head has_prefix_def setPath_def)
  then show ?thesis by blast
qed

lemma cut_query_printed:
  assumes "CHR ''?'' \<notin> set a" "force \<longrightarrow> q = []"
  shows "cut_query (a @ (if force \<or> q \<noteq> [] then ''?'' @ q else [])) = (a, force, q)"
  using assms cut_found[OF assms(1), of q] cut_absent[OF assms(1)] by (auto simp: cut_query_def)

lemma escaped_fragment:
  "url_unescape encodeFragment (EscapedFragment u) = Inr (u_Fragment u)" "EscapedFragment u = [] \<Longrightarrow> u_Fragment u = []"
  using unescape_escape[of encodeFragment "u_Fragment u"] by (auto simp: EscapedFragment_def split: if_splits)

lemma head_chars:
  assumes "u_User u = Some (UserPassword n p)" "p \<noteq> []" "c \<in> set (url_head u)"
  shows "\<not> ctl_byte c \<and> c \<noteq> CHR ''#'' \<and> c \<noteq> CHR ''?''"
proof -
  have "c \<in> set ''//:@'' \<or> c \<in> set (url_escape n encodeUserPassword) \<or> c \<in> set (url_escape p encodeUserPassword)
      \<or> c \<in> set (url_escape (u_Host u) encodeHost)"
    using assms by (auto simp: url_head_def user_string_def UserPassword_def)
  moreover have "\<not> ctl_byte c \<and> c \<noteq> CHR ''#'' \<and> c \<noteq> CHR ''?''" if "c \<in> set (url_escape s m)" "m \<in> {encodeUserPassword, encodeHost}" for s m
    using that escape_no_ctl[of c s m] escape_clean[of "CHR ''#''" m s] escape_clean[of "CHR ''?''" m s]
    by (auto simp: always_escaped)
  moreover have "\<not> ctl_byte c \<and> c \<noteq> CHR ''#'' \<and> c \<noteq> CHR ''?''" if "c \<in> set ''//:@''"
    using that by (auto simp: ctl_byte_def)
  ultimately show ?thesis by blast
qed

lemma query_chars: "c \<in> set (if b then ''?'' @ q else []) \<Longrightarrow> c = CHR ''?'' \<or> c \<in> set q"
  by (cases b) auto

theorem print_parse:
  assumes "wf_url u" "u_User u = Some (UserPassword n p)" "p \<noteq> []"
  shows "\<exists>u'. Parse (url_string u) = Inr u' \<and> same_parts u' u"
proof -
  let ?pre = "if u_Scheme u \<noteq> [] then u_Scheme u @ '':'' else []"
  let ?q = "if u_ForceQuery u \<or> u_RawQuery u \<noteq> [] then ''?'' @ u_RawQuery u else []"
  define b where "b = url_head u @ EscapedPath u"
  define s where "s = ?pre @ b @ ?q"
  obtain t where b: "b = CHR ''/'' # t" using assms(2) by (auto simp: b_def url_head_def)
  have str: "url_string u = s @ (if u_Fragment u \<noteq> [] then ''#'' @ EscapedFragment u else [])"
  proof -
    have c1: "(EscapedPath u \<noteq> [] \<and> hd (EscapedPath u) \<noteq> CHR ''/'' \<and> u_Host u \<noteq> []) = False"
      using escaped_path(2)[OF assms(1)] by blast
    have c2: "(?pre @ url_head u = [] \<and> x) = False" for x by (simp add: url_head_def assms(2))
    have op: "(u_Opaque u \<noteq> []) = False" using assms(1) by (simp add: wf_url_def)
    show ?thesis unfolding url_string_def Let_def c1 c2 op s_def b_def by (simp only: if_False append_Nil append_assoc)
  qed
  have bc: "\<not> ctl_byte c \<and> c \<noteq> CHR ''#'' \<and> c \<noteq> CHR ''?''" if "c \<in> set b" for c
    using that head_chars[OF assms(2,3), of c] escaped_path(3)[OF assms(1), of c] by (auto simp: b_def)
  have pc: "\<not> ctl_byte c \<and> c \<noteq> CHR ''#'' \<and> c \<noteq> CHR ''?''" if "c \<in> set ?pre" for c
  proof -
    from that assms(1) have "scheme_char c \<or> c = CHR '':''" by (auto simp: wf_url_def list_all_iff split: if_splits)
    then show ?thesis by (auto simp: scheme_char_def alnum_def ctl_byte_def)
  qed
  have qc: "\<not> ctl_byte c \<and> c \<noteq> CHR ''#''" if "c \<in> set ?q" for c
  proof -
    have wq: "list_all (\<lambda>c. \<not> ctl_byte c \<and> c \<noteq> CHR ''#'') (u_RawQuery u)"
      using assms(1) unfolding wf_url_def by (elim conjE)
    from query_chars[OF that] show ?thesis
    proof
      assume "c = CHR ''?''"
      then show ?thesis by (simp add: ctl_byte_def)
    next
      assume "c \<in> set (u_RawQuery u)"
      with wq show ?thesis unfolding list_all_iff by (rule bspec)
    qed
  qed
  have sc: "\<not> ctl_byte c \<and> c \<noteq> CHR ''#''" if "c \<in> set s" for c
  proof -
    from that consider "c \<in> set ?pre" | "c \<in> set b" | "c \<in> set ?q" unfolding s_def set_append Un_iff by blast
    then show ?thesis using pc[of c] bc[of c] qc[of c] by cases simp_all
  qed
  have clean: "CHR ''#'' \<notin> set s" "\<not> list_ex ctl_byte s"
    using sc[of "CHR ''#''"] sc unfolding list_ex_iff by blast+
  have "CHR ''/'' \<in> set s" by (simp add: s_def b)
  then have nostar: "s \<noteq> ''*''" by auto
  have sch: "getScheme s = Inr (u_Scheme u, b @ ?q)"
    unfolding s_def using getScheme_printed[OF assms(1), of "b @ ?q"] b by simp
  have low: "lower (u_Scheme u) = u_Scheme u" using assms(1) by (cases "u_Scheme u") (auto simp: wf_url_def lower_def)
  have cq: "cut_query (b @ ?q) = (b, u_ForceQuery u, u_RawQuery u)"
    using bc assms(1) by (intro cut_query_printed) (auto simp: wf_url_def)
  define v where "v = zero_URL\<lparr>u_Scheme := u_Scheme u, u_ForceQuery := u_ForceQuery u, u_RawQuery := u_RawQuery u\<rparr>"
  have "u_Scheme v = u_Scheme u" by (simp add: v_def)
  from parse_rest_printed[OF assms this] obtain rp where
    rest: "parse_rest v b = Inr (v\<lparr>u_User := u_User u, u_Host := u_Host u, u_Path := u_Path u, u_RawPath := rp\<rparr>)"
    unfolding b_def[symmetric] ..
  have up: "url_parse s = Inr (v\<lparr>u_User := u_User u, u_Host := u_Host u, u_Path := u_Path u, u_RawPath := rp\<rparr>)"
    using clean(2) nostar sch cq rest low by (simp add: url_parse_def v_def)
  have op: "u_Opaque u = []" using assms(1) by (simp add: wf_url_def)
  show ?thesis
  proof (cases "u_Fragment u = []")
    case True
    with str cut_absent[OF clean(1)] up show ?thesis
      by (simp add: Parse_def same_parts_def v_def zero_URL_def op)
  next
    case False
    then have "EscapedFragment u \<noteq> []" using escaped_fragment(2) by blast
    moreover have "cut (CHR ''#'') (url_string u) = (s, EscapedFragment u, True)"
      using str False cut_found[OF clean(1), of "EscapedFragment u"] by simp
    ultimately show ?thesis using up escaped_fragment(1)[of u]
      by (simp add: Parse_def setFragment_def same_parts_def v_def zero_URL_def op)
  qed
qed

text \<open>What \<^verbatim>\<open>Parse\<close> returns is well-formed.\<close>

lemma getScheme_ok:
  assumes "getScheme s = Inr (sc, rest)"
  shows "sc = [] \<and> rest = s \<or> sc \<noteq> [] \<and> scheme_letter (hd sc) \<and> list_all scheme_char sc \<and> s = sc @ CHR '':'' # rest"
proof -
  define p where "p = takeWhile scheme_char s"
  define r where "r = drop (length p) s"
  have s: "p @ r = s" unfolding r_def p_def by (metis append_take_drop_id takeWhile_eq_take)
  have all: "list_all scheme_char p" unfolding p_def list_all_iff using set_takeWhileD by fast
  have g: "(if p \<noteq> [] \<and> \<not> scheme_letter (hd p) then Inr ([], s)
     else if r \<noteq> [] \<and> hd r = CHR '':'' then (if p = [] then Inl ''missing protocol scheme'' else Inr (p, drop 1 r))
     else Inr ([], s)) = Inr (sc, rest)"
    using assms unfolding getScheme_def Let_def p_def[symmetric] r_def[symmetric] .
  show ?thesis
  proof (cases "p \<noteq> [] \<and> scheme_letter (hd p) \<and> r \<noteq> [] \<and> hd r = CHR '':''")
    case True
    with g have "sc = p" "rest = drop 1 r" by simp_all
    moreover have "r = CHR '':'' # drop 1 r" using True by (cases r) auto
    ultimately show ?thesis using True all s by simp
  next
    case False
    with g show ?thesis by (auto split: if_splits)
  qed
qed

lemma lower_scheme:
  assumes "list_all scheme_char sc" "scheme_letter (hd sc)" "sc \<noteq> []"
  shows "list_all scheme_char (lower sc)" "scheme_letter (hd (lower sc))" "lower (lower sc) = lower sc"
proof -
  have c: "scheme_char (if byte_in 65 90 c then char_of (of_char c + 32 :: nat) else c)" if "scheme_char c" for c
    using that by (auto simp: scheme_char_def alnum_def)
  show "list_all scheme_char (lower sc)"
    using assms(1) unfolding lower_def list.pred_map by (rule list.pred_mono_strong) (simp only: o_def c)
  show "scheme_letter (hd (lower sc))" using assms(2,3) by (cases sc) (auto simp: lower_def scheme_letter_def)
  show "lower (lower sc) = lower sc" by (auto simp: lower_def)
qed

lemma parseHost_wf:
  assumes "parseHost s = Inr h" "CHR ''['' \<notin> set h"
  shows "host_ok h" "validOptionalPort (dropWhile (\<lambda>c. c \<noteq> CHR '':'') h)"
proof -
  have "CHR ''['' \<notin> set s"
    using assms by (auto simp: parseHost_def parse_literal_def Let_def split: if_splits option.splits sum.splits prod.splits)
  with assms(1) have "url_unescape encodeHost s = Inr h" "validOptionalPort (dropWhile (\<lambda>c. c \<noteq> CHR '':'') s)"
    by (auto simp: parseHost_def Let_def split: if_splits)
  then show "host_ok h" "validOptionalPort (dropWhile (\<lambda>c. c \<noteq> CHR '':'') h)"
    using unescape_host_ok unescape_port by blast+
qed

lemma parseAuthority_host:
  "parseAuthority a = Inr (user, h) \<Longrightarrow> \<exists>s. parseHost s = Inr h"
  by (auto simp: parseAuthority_def Let_def split: option.splits sum.splits prod.splits if_splits)

lemma setPath_ok:
  assumes "setPath p v = Inr u" "p = [] \<or> hd p = CHR ''/''"
  shows "\<exists>path rp. u = v\<lparr>u_Path := path, u_RawPath := rp\<rparr> \<and> (path = [] \<or> hd path = CHR ''/'') \<and> (rp = [] \<or> rp = p)"
proof -
  from assms(1) obtain path where path: "url_unescape encodePath p = Inr path"
    and u: "u = v\<lparr>u_Path := path, u_RawPath := (if p = url_escape path encodePath then [] else p)\<rparr>"
    by (auto simp: setPath_def split: sum.splits)
  have "path = [] \<or> hd path = CHR ''/''" using path assms(2) by (cases p) (auto split: if_splits sum.splits)
  with u show ?thesis by (cases "p = url_escape path encodePath") auto
qed

lemma parse_rest_user:
  assumes "parse_rest v r = Inr u" "u_User v = None" "u_User u \<noteq> None"
  shows "\<exists>user s h p path rp. parseHost s = Inr h \<and> u = v\<lparr>u_User := user, u_Host := h, u_Path := path, u_RawPath := rp\<rparr>
    \<and> (path = [] \<or> hd path = CHR ''/'') \<and> (p = [] \<or> hd p = CHR ''/'') \<and> set p \<subseteq> set r \<and> (rp = [] \<or> rp = p)"
proof -
  let ?a = "takeWhile (\<lambda>c. c \<noteq> CHR ''/'') (drop 2 r)" and ?p = "dropWhile (\<lambda>c. c \<noteq> CHR ''/'') (drop 2 r)"
  have keeps: "setPath q w = Inr u \<Longrightarrow> u_User u = u_User w" for q w
    by (auto simp: setPath_def split: sum.splits)
  obtain user h where a: "parseAuthority ?a = Inr (user, h)" and sp: "setPath ?p (v\<lparr>u_User := user, u_Host := h\<rparr>) = Inr u"
    using assms keeps[of r "v\<lparr>u_OmitHost := _\<rparr>"]
    by (auto simp: parse_rest_def Let_def split: if_splits sum.splits prod.splits)
  have hp: "?p = [] \<or> hd ?p = CHR ''/''" using hd_dropWhile[of "\<lambda>c. c \<noteq> CHR ''/''" "drop 2 r"] by auto
  have sub: "set ?p \<subseteq> set r" by (meson set_dropWhileD in_set_dropD subsetI)
  from setPath_ok[OF sp hp] obtain path rp where
    u: "u = v\<lparr>u_User := user, u_Host := h, u_Path := path, u_RawPath := rp\<rparr>" "path = [] \<or> hd path = CHR ''/''" "rp = [] \<or> rp = ?p"
    by auto
  moreover obtain s where "parseHost s = Inr h" using parseAuthority_host[OF a] by blast
  ultimately show ?thesis using hp sub
    by (intro exI[of _ user] exI[of _ s] exI[of _ h] exI[of _ ?p] exI[of _ path] exI[of _ rp]) simp
qed

lemma cut_parts:
  assumes "cut c s = (a, b, found)"
  shows "c \<notin> set a" "set a \<subseteq> set s" "set b \<subseteq> set s" "a = takeWhile (\<lambda>x. x \<noteq> c) s"
proof -
  have a: "a = takeWhile (\<lambda>x. x \<noteq> c) s" and b: "b = drop 1 (dropWhile (\<lambda>x. x \<noteq> c) s)"
    using assms by (simp_all add: cut_def)
  show "a = takeWhile (\<lambda>x. x \<noteq> c) s" by (rule a)
  show "c \<notin> set a" unfolding a by (metis set_takeWhileD)
  show "set a \<subseteq> set s" unfolding a by (meson set_takeWhileD subsetI)
  show "set b \<subseteq> set s" unfolding b by (meson in_set_dropD set_dropWhileD subsetI)
qed

lemma url_parse_wf:
  assumes "url_parse s = Inr u" "u_User u \<noteq> None" "CHR ''['' \<notin> set (u_Host u)" "CHR ''#'' \<notin> set s"
  shows "wf_url u"
proof -
  have ctl: "\<not> list_ex ctl_byte s" and star: "s \<noteq> ''*''" using assms(1,2) by (auto simp: url_parse_def zero_URL_def split: if_splits)
  then obtain sc rest where g: "getScheme s = Inr (sc, rest)" using assms(1) by (auto simp: url_parse_def split: sum.splits)
  obtain r force q where c: "cut_query rest = (r, force, q)" by (metis prod_cases3)
  define v where "v = zero_URL\<lparr>u_Scheme := lower sc, u_ForceQuery := force, u_RawQuery := q\<rparr>"
  have p: "parse_rest v r = Inr u" using assms(1) ctl star g c by (simp add: url_parse_def v_def)
  have v: "u_User v = None" "u_Opaque v = []" by (simp_all add: v_def zero_URL_def)
  from parse_rest_user[OF p v(1) assms(2)] obtain user t h pp path rp where
    h: "parseHost t = Inr h" and u: "u = v\<lparr>u_User := user, u_Host := h, u_Path := path, u_RawPath := rp\<rparr>"
    and path: "path = [] \<or> hd path = CHR ''/''" and pp: "pp = [] \<or> hd pp = CHR ''/''" "set pp \<subseteq> set r" "rp = [] \<or> rp = pp"
    by blast
  have hw: "host_ok h" "validOptionalPort (dropWhile (\<lambda>c. c \<noteq> CHR '':'') h)" "CHR ''['' \<notin> set h"
    using parseHost_wf[OF h] assms(3) by (simp_all add: u)
  have rs: "set rest \<subseteq> set s" using getScheme_ok[OF g] by auto
  obtain found where cc: "cut (CHR ''?'') rest = (r, q, found)" "force \<longrightarrow> q = []"
    using c by (auto simp: cut_query_def split: prod.splits)
  have ok: "\<not> ctl_byte x \<and> x \<noteq> CHR ''#''" if "x \<in> set rest" for x
    using that rs ctl assms(4) by (auto simp: list_ex_iff)
  have rpok: "list_all (\<lambda>c. \<not> ctl_byte c \<and> c \<noteq> CHR ''#'' \<and> c \<noteq> CHR ''?'') rp"
    using pp(2,3) cut_parts(1,2)[OF cc(1)] ok unfolding list_all_iff by auto
  have qok: "list_all (\<lambda>c. \<not> ctl_byte c \<and> c \<noteq> CHR ''#'') q"
    using cut_parts(3)[OF cc(1)] ok unfolding list_all_iff by blast
  have sch: "lower sc \<noteq> [] \<longrightarrow> scheme_letter (hd (lower sc)) \<and> list_all scheme_char (lower sc) \<and> lower (lower sc) = lower sc"
    using getScheme_ok[OF g] lower_scheme[of sc] by (auto simp: lower_def)
  have fields: "u_Opaque u = []" "u_Scheme u = lower sc" "u_Host u = h" "u_Path u = path" "u_RawPath u = rp" "u_RawQuery u = q"
    "u_ForceQuery u = force"
    by (simp_all add: u v_def zero_URL_def)
  show ?thesis unfolding wf_url_def fields
    using sch hw path pp(1,3) rpok qok cc(2) by (intro conjI) auto
qed

lemma wf_fragment: "wf_url (u\<lparr>u_Fragment := f, u_RawFragment := g\<rparr>) = wf_url u"
  by (simp add: wf_url_def)

lemma Parse_wf:
  assumes "Parse raw = Inr u" "u_User u \<noteq> None" "CHR ''['' \<notin> set (u_Host u)"
  shows "wf_url u"
proof -
  obtain s frag found where c: "cut (CHR ''#'') raw = (s, frag, found)" by (metis prod_cases3)
  then obtain u0 f g where "url_parse s = Inr u0" and u: "u = u0 \<or> u = u0\<lparr>u_Fragment := f, u_RawFragment := g\<rparr>"
    using assms(1) by (auto simp: Parse_def setFragment_def split: sum.splits if_splits)
  moreover have "CHR ''#'' \<notin> set s" using cut_parts(1)[OF c] .
  ultimately have "wf_url u0" using assms(2,3) by (intro url_parse_wf) auto
  with u show ?thesis using wf_fragment by auto
qed

end
