(* ===== verification/GoConv.thy ===== *)
theory GoConv
  imports Executor Float64
begin

text \<open>
  The conversions of \<^verbatim>\<open>strconv\<close> and \<^verbatim>\<open>time\<close> that the configuration uses:
  \<^verbatim>\<open>ParseBool\<close>, \<^verbatim>\<open>Atoi\<close> and \<^verbatim>\<open>ParseInt\<close> with their errors, \<^verbatim>\<open>ParseFloat\<close>, and
  \<^verbatim>\<open>ParseDuration\<close> with \<^verbatim>\<open>Duration.String\<close>.
\<close>

section \<open>Booleans and integers\<close>

definition ParseBool :: "string \<Rightarrow> bool option" where
  "ParseBool s =
    (if s \<in> set [''1'', ''t'', ''T'', ''true'', ''TRUE'', ''True''] then Some True
     else if s \<in> set [''0'', ''f'', ''F'', ''false'', ''FALSE'', ''False''] then Some False
     else None)"

text \<open>\<^verbatim>\<open>*strconv.NumError\<close>: digits in the right form are out of range, anything else is malformed.\<close>

definition num_error :: "string \<Rightarrow> string \<Rightarrow> bool \<Rightarrow> go_error" where
  "num_error fn s wellformed = Opaque (''strconv.'' @ fn @ '': parsing '' @ go_quote s @ '': ''
     @ (if wellformed then ''value out of range'' else ''invalid syntax''))"

definition int_form :: "string \<Rightarrow> bool" where
  "int_form s = all_digits (if has_prefix s ''-'' \<or> has_prefix s ''+'' then tl s else s)"

definition atoi_result :: "string \<Rightarrow> int result" where
  "atoi_result s = (case Atoi s of Some v \<Rightarrow> Inr v | None \<Rightarrow> Inl (num_error ''Atoi'' s (int_form s)))"

definition parse_int_result :: "nat \<Rightarrow> string \<Rightarrow> int result" where
  "parse_int_result bits s = (case parse_int bits s of Some v \<Rightarrow> Inr v | None \<Rightarrow> Inl (num_error ''ParseInt'' s (int_form s)))"

section \<open>Floats\<close>

datatype go_float = Finite real | PosInf | NegInf | NaN

definition ascii_lower :: "char \<Rightarrow> char" where
  "ascii_lower c = (if 65 \<le> (of_char c :: nat) \<and> (of_char c :: nat) \<le> 90 then char_of (of_char c + 32 :: nat) else c)"

definition hex_letter :: "char \<Rightarrow> bool" where
  "hex_letter c \<longleftrightarrow> 97 \<le> (of_char (ascii_lower c) :: nat) \<and> (of_char (ascii_lower c) :: nat) \<le> 102"

definition hex_val :: "char \<Rightarrow> nat" where
  "hex_val c = (if is_digit c then of_char c - 48 else of_char (ascii_lower c) - 87)"

definition cut_sign :: "string \<Rightarrow> bool \<times> string" where
  "cut_sign s = (case s of c # r \<Rightarrow> if c = CHR ''-'' then (True, r) else if c = CHR ''+'' then (False, r) else (False, s) | [] \<Rightarrow> (False, s))"

text \<open>\<^verbatim>\<open>underscoreOK\<close>: underscores only between digits, or between a base prefix and a digit.
  The last thing seen is \<open>Start\<close>, \<open>Digit\<close>, \<open>Under\<close> or \<open>Else\<close>.\<close>

datatype seen = Start | Digit | Under | Else

fun underscores :: "bool \<Rightarrow> seen \<Rightarrow> string \<Rightarrow> bool" where
  "underscores hex i [] = (i \<noteq> Under)"
| "underscores hex i (c # cs) =
    (if is_digit c \<or> hex \<and> hex_letter c then underscores hex Digit cs
     else if c = CHR ''_'' then i = Digit \<and> underscores hex Under cs
     else i \<noteq> Under \<and> underscores hex Else cs)"

definition underscoreOK :: "string \<Rightarrow> bool" where
  "underscoreOK s =
    (let t = snd (cut_sign s) in
     case t of
       z # x # r \<Rightarrow>
         if z = CHR ''0'' \<and> ascii_lower x \<in> {CHR ''b'', CHR ''o'', CHR ''x''} then underscores (ascii_lower x = CHR ''x'') Digit r
         else underscores False Start t
     | _ \<Rightarrow> underscores False Start t)"

text \<open>The exponent stops growing at five digits.\<close>

definition exp_digits :: "string \<Rightarrow> nat" where
  "exp_digits s = foldl (\<lambda>e c. if e < 10000 then 10 * e + (of_char c - 48) else e) 0 s"

text \<open>\<^verbatim>\<open>readFloat\<close> on a text without underscores, for the whole text: the exact value.\<close>

definition read_exponent :: "string \<Rightarrow> int option" where
  "read_exponent s = (let (neg, ds) = cut_sign s in
     if all_digits ds then Some (if neg then - int (exp_digits ds) else int (exp_digits ds)) else None)"

definition readFloat :: "string \<Rightarrow> real option" where
  "readFloat s =
    (let (neg, t) = cut_sign s;
         hex = (case t of z # x # _ # _ \<Rightarrow> z = CHR ''0'' \<and> ascii_lower x = CHR ''x'' | _ \<Rightarrow> False);
         u = (if hex then drop 2 t else t);
         dig = (\<lambda>c. is_digit c \<or> hex \<and> hex_letter c);
         ip = takeWhile dig u; r1 = dropWhile dig u;
         fp = (case r1 of c # r \<Rightarrow> if c = CHR ''.'' then takeWhile dig r else [] | [] \<Rightarrow> []);
         r2 = (case r1 of c # r \<Rightarrow> if c = CHR ''.'' then dropWhile dig r else r1 | [] \<Rightarrow> []);
         mant = foldl (\<lambda>n c. (if hex then 16 else 10) * n + hex_val c) 0 (ip @ fp);
         ex = (case r2 of [] \<Rightarrow> if hex then None else Some 0
               | c # r \<Rightarrow> if ascii_lower c = (if hex then CHR ''p'' else CHR ''e'') then read_exponent r else None)
     in if ip @ fp = [] then None
        else map_option (\<lambda>e. (if neg then -1 else 1) * of_nat mant *
          (if hex then 2 powi (e - 4 * int (length fp)) else 10 powi (e - int (length fp)))) ex)"

text \<open>Rounding with gradual underflow.\<close>

definition round64 :: "real \<Rightarrow> real" where
  "round64 x = (if \<bar>x\<bar> < 2 powi (-1022) then of_int (rne (x * 2 ^ 1074)) / 2 ^ 1074 else fl64 x)"

definition special_float :: "string \<Rightarrow> go_float option" where
  "special_float s =
    (let l = map ascii_lower s; (neg, t) = cut_sign l in
     if t = ''inf'' \<or> t = ''infinity'' then Some (if neg then NegInf else PosInf)
     else if l = ''nan'' then Some NaN else None)"

definition ParseFloat :: "string \<Rightarrow> go_float result" where
  "ParseFloat s =
    (case special_float s of Some f \<Rightarrow> Inr f
     | None \<Rightarrow>
        if CHR ''_'' \<in> set s \<and> \<not> underscoreOK s then Inl (num_error ''ParseFloat'' s False)
        else case readFloat (filter (\<lambda>c. c \<noteq> CHR ''_'') s) of
          None \<Rightarrow> Inl (num_error ''ParseFloat'' s False)
        | Some x \<Rightarrow> if \<bar>round64 x\<bar> \<ge> 2 ^ 1024 then Inl (num_error ''ParseFloat'' s True) else Inr (Finite (round64 x)))"

section \<open>Durations\<close>

text \<open>\<^verbatim>\<open>time.quote\<close>, byte by byte.\<close>

definition time_quote :: "string \<Rightarrow> string" where
  "time_quote s = [CHR 0x22] @ concat (map (\<lambda>c.
     if (of_char c :: nat) < 32 \<or> 128 \<le> (of_char c :: nat) then [CHR 0x5C, CHR ''x''] @ hex_byte c
     else if c = CHR 0x22 \<or> c = CHR 0x5C then [CHR 0x5C, c] else [c]) s) @ [CHR 0x22]"

definition unitMap :: "string \<Rightarrow> nat option" where
  "unitMap = map_of [(''ns'', 1), (''us'', 1000), ([CHR 0xC2, CHR 0xB5, CHR ''s''], 1000), ([CHR 0xCE, CHR 0xBC, CHR ''s''], 1000),
     (''ms'', 1000000), (''s'', 1000000000), (''m'', 60000000000), (''h'', 3600000000000)]"

text \<open>\<^verbatim>\<open>leadingInt\<close>: the digits and the rest, unless their value exceeds 2 to the 63rd.\<close>

fun leading_digits :: "nat \<Rightarrow> string \<Rightarrow> nat option" where
  "leading_digits x [] = Some x"
| "leading_digits x (c # cs) =
    (if x > 2 ^ 63 div 10 then None
     else let y = 10 * x + (of_char c - 48) in if y > 2 ^ 63 then None else leading_digits y cs)"

definition leadingInt :: "string \<Rightarrow> (nat \<times> string) option" where
  "leadingInt s = map_option (\<lambda>v. (v, dropWhile is_digit s)) (leading_digits 0 (takeWhile is_digit s))"

text \<open>\<^verbatim>\<open>leadingFraction\<close>: digits beyond the range are dropped; the number and its scale, a power of ten.\<close>

fun fraction_digits :: "nat \<Rightarrow> nat \<Rightarrow> string \<Rightarrow> nat \<times> nat" where
  "fraction_digits x scale [] = (x, scale)"
| "fraction_digits x scale (c # cs) =
    (if x > (2 ^ 63 - 1) div 10 then (x, scale)
     else let y = 10 * x + (of_char c - 48) in if y > 2 ^ 63 then (x, scale) else fraction_digits y (10 * scale) cs)"

definition frac_part :: "nat \<Rightarrow> nat \<Rightarrow> nat \<Rightarrow> nat" where
  "frac_part f scale u = nat \<lfloor>fl64 (fl64 (of_nat f) * fl64 (of_nat u / fl64 (of_nat scale)))\<rfloor>"

definition unit_char :: "char \<Rightarrow> bool" where
  "unit_char c \<longleftrightarrow> c \<noteq> CHR ''.'' \<and> \<not> is_digit c"

text \<open>One number with its unit: its value and the rest.\<close>

definition invalid_duration :: "string \<Rightarrow> go_error" where
  "invalid_duration orig = Opaque (''time: invalid duration '' @ time_quote orig)"

definition duration_part :: "string \<Rightarrow> string \<Rightarrow> (nat \<times> string) result" where
  "duration_part orig s =
    (if \<not> (s \<noteq> [] \<and> (hd s = CHR ''.'' \<or> is_digit (hd s))) then Inl (invalid_duration orig)
     else case leadingInt s of None \<Rightarrow> Inl (invalid_duration orig)
     | Some (v, s1) \<Rightarrow>
       let dot = (s1 \<noteq> [] \<and> hd s1 = CHR ''.'');
           fs = (if dot then takeWhile is_digit (tl s1) else []);
           s2 = (if dot then dropWhile is_digit (tl s1) else s1);
           (f, scale) = fraction_digits 0 1 fs;
           u = takeWhile unit_char s2
       in if takeWhile is_digit s = [] \<and> fs = [] then Inl (invalid_duration orig)
          else if u = [] then Inl (Opaque (''time: missing unit in duration '' @ time_quote orig))
          else case unitMap u of
            None \<Rightarrow> Inl (Opaque (''time: unknown unit '' @ time_quote u @ '' in duration '' @ time_quote orig))
          | Some unit \<Rightarrow>
             if v > 2 ^ 63 div unit then Inl (invalid_duration orig)
             else let w = (if f > 0 then v * unit + frac_part f scale unit else v * unit) in
               if f > 0 \<and> w > 2 ^ 63 then Inl (invalid_duration orig) else Inr (w, dropWhile unit_char s2))"

lemma duration_part_shorter: "duration_part orig s = Inr (w, r) \<Longrightarrow> length r < length s"
proof -
  assume p: "duration_part orig s = Inr (w, r)"
  define s1 where "s1 = dropWhile is_digit s"
  define s2 where "s2 = (if s1 \<noteq> [] \<and> hd s1 = CHR ''.'' then dropWhile is_digit (tl s1) else s1)"
  have r: "r = dropWhile unit_char s2" "takeWhile unit_char s2 \<noteq> []"
    using p by (auto simp: duration_part_def leadingInt_def s1_def s2_def Let_def split: if_splits option.splits prod.splits)
  have "length (takeWhile unit_char s2) + length r = length s2"
    unfolding r(1) by (metis length_append takeWhile_dropWhile_id)
  moreover have "length s2 \<le> length s1" by (auto simp: s2_def intro: order_trans[OF length_dropWhile_le])
  moreover have "length s1 \<le> length s" by (simp add: s1_def length_dropWhile_le)
  moreover have "0 < length (takeWhile unit_char s2)" using r(2) by simp
  ultimately show ?thesis by linarith
qed

text \<open>The loop; \<open>d\<close> is the sum so far.\<close>

function duration_loop :: "string \<Rightarrow> nat \<Rightarrow> string \<Rightarrow> nat result" where
  "duration_loop orig d s =
    (if s = [] then Inr d
     else case duration_part orig s of
       Inl e \<Rightarrow> Inl e
     | Inr (w, r) \<Rightarrow> if d + w > 2 ^ 63 then Inl (invalid_duration orig) else duration_loop orig (d + w) r)"
  by pat_completeness auto
termination
  by (relation "measure (\<lambda>(orig, d, s). length s)") (auto dest: duration_part_shorter)

declare duration_loop.simps [simp del]

definition ParseDuration :: "string \<Rightarrow> duration result" where
  "ParseDuration s =
    (let (neg, t) = cut_sign s in
     if t = ''0'' then Inr 0
     else if t = [] then Inl (invalid_duration s)
     else case duration_loop s 0 t of
       Inl e \<Rightarrow> Inl e
     | Inr d \<Rightarrow> if neg then Inr (- int d) else if d > 2 ^ 63 - 1 then Inl (invalid_duration s) else Inr (int d))"

text \<open>\<^verbatim>\<open>Duration.String\<close> for a duration of at least a second.\<close>

definition frac_text :: "nat \<Rightarrow> string" where
  "frac_text n = (let ds = replicate (9 - length (show_nat n)) (CHR ''0'') @ show_nat n;
      t = rev (dropWhile (\<lambda>c. c = CHR ''0'') (rev ds)) in if t = [] then [] else CHR ''.'' # t)"

definition duration_text :: "duration \<Rightarrow> string" where
  "duration_text d =
    (let u = nat d; s = u div 1000000000; mins = s div 60; h = mins div 60;
         sec = show_nat (s mod 60) @ frac_text (u mod 1000000000) @ ''s''
     in if mins = 0 then sec
        else if h = 0 then show_nat (mins mod 60) @ ''m'' @ sec
        else show_nat h @ ''h'' @ show_nat (mins mod 60) @ ''m'' @ sec)"

section \<open>Ranges\<close>

lemma atoi_result_range: "atoi_result s = Inr v \<Longrightarrow> - (2 ^ 63) \<le> v \<and> v < 2 ^ 63"
  by (auto simp: atoi_result_def Atoi_def parse_int_def Let_def split: option.splits if_splits)

lemma parse_int_result_range:
  "parse_int_result bits s = Inr v \<Longrightarrow> - (2 ^ (bits - 1)) \<le> v \<and> v < 2 ^ (bits - 1)"
  by (auto simp: parse_int_result_def parse_int_def Let_def split: option.splits if_splits)

lemma duration_loop_range: "duration_loop orig d s = Inr n \<Longrightarrow> d \<le> 2 ^ 63 \<Longrightarrow> n \<le> 2 ^ 63"
proof (induction orig d s rule: duration_loop.induct)
  case (1 orig d s)
  from "1.prems"(1) have "(if s = [] then Inr d
     else case duration_part orig s of
       Inl e \<Rightarrow> Inl e
     | Inr (w, r) \<Rightarrow> if d + w > 2 ^ 63 then Inl (invalid_duration orig) else duration_loop orig (d + w) r) = Inr n"
    by (simp only: duration_loop.simps[of orig d s])
  with 1 show ?case by (auto split: if_splits sum.splits prod.splits)
qed

lemma ParseDuration_range: "ParseDuration s = Inr d \<Longrightarrow> - (2 ^ 63) \<le> d \<and> d < 2 ^ 63"
proof -
  assume p: "ParseDuration s = Inr d"
  have "n \<le> 2 ^ 63" if "duration_loop s 0 t = Inr n" for n t using duration_loop_range[OF that] by simp
  with p show ?thesis
    by (fastforce simp: ParseDuration_def Let_def split: prod.splits if_splits sum.splits)
qed

end
