(* ===== verification/Config.thy ===== *)
theory Config
  imports GoConv
begin

text \<open>
  Loading the configuration from the environment (\<^verbatim>\<open>internal/config/config.go\<close>).
  \<open>env\<close> is \<^verbatim>\<open>os.Getenv\<close>, which gives the empty string for a variable that is
  not set; \<open>rd\<close> is \<^verbatim>\<open>os.ReadFile\<close>.
\<close>

section \<open>Configuration\<close>

record Config =
  cf_HTTPAddr :: string
  cf_ReadHeaderTimeout :: duration
  cf_ReadTimeout :: duration
  cf_WriteTimeout :: duration
  cf_IdleTimeout :: duration
  cf_MaxRequestBodyBytes :: int
  cf_MaxResponseBodyBytes :: int
  cf_InsecureHTTP :: bool
  cf_TrustProxy :: bool
  cf_DatabaseURL :: string
  cf_MigrationsDatabaseURL :: string
  cf_GatewayPassword :: string
  cf_OwnerPassword :: string
  cf_DatabaseMaxConns :: int
  cf_DatabaseMinConns :: int
  cf_DatabaseConnLifetime :: duration
  cf_StatementTimeout :: duration
  cf_IdleInTxTimeout :: duration
  cf_MaxStatementBytes :: int
  cf_MaxStatementParams :: int
  cf_AuthCacheSize :: int
  cf_AuthCacheTTL :: duration
  cf_KeyRotateOverlap :: duration
  cf_RateLimitPerSecond :: go_float
  cf_RateLimitBurst :: int
  cf_AuditDisabled :: bool
  cf_AuditIncludeSQL :: bool
  cf_LogLevel :: string
  cf_LogFormat :: string
  cf_MetricsEnabled :: bool
  cf_OTELEndpoint :: string
  cf_MCPEnabled :: bool
  cf_MigrateOnStart :: bool

type_synonym getenv = "string \<Rightarrow> string"

section \<open>Environment helpers\<close>

definition envOr :: "getenv \<Rightarrow> string \<Rightarrow> string \<Rightarrow> string" where
  "envOr env key fallback = (let v = env key in if v \<noteq> [] then v else fallback)"

definition envBool :: "getenv \<Rightarrow> string \<Rightarrow> bool \<Rightarrow> bool" where
  "envBool env key fallback =
    (let v = env key in if v = [] then fallback else case ParseBool v of None \<Rightarrow> fallback | Some b \<Rightarrow> b)"

text \<open>The common shape of the fallible helpers.\<close>

definition env_parse :: "(string \<Rightarrow> 'a result) \<Rightarrow> getenv \<Rightarrow> string \<Rightarrow> 'a \<Rightarrow> 'a result" where
  "env_parse parse env key fallback =
    (let v = env key in if v = [] then Inr fallback
     else case parse v of Inl e \<Rightarrow> Inl (Errorf (key @ '': '') e '''') | Inr n \<Rightarrow> Inr n)"

definition envInt :: "getenv \<Rightarrow> string \<Rightarrow> int \<Rightarrow> int result" where
  "envInt = env_parse atoi_result"

definition envInt32 :: "getenv \<Rightarrow> string \<Rightarrow> int \<Rightarrow> int result" where
  "envInt32 = env_parse (parse_int_result 32)"

definition envInt64 :: "getenv \<Rightarrow> string \<Rightarrow> int \<Rightarrow> int result" where
  "envInt64 = env_parse (parse_int_result 64)"

definition envFloat64 :: "getenv \<Rightarrow> string \<Rightarrow> go_float \<Rightarrow> go_float result" where
  "envFloat64 = env_parse ParseFloat"

definition envDuration :: "getenv \<Rightarrow> string \<Rightarrow> duration \<Rightarrow> duration result" where
  "envDuration = env_parse ParseDuration"

definition loadSecretFromFile :: "getenv \<Rightarrow> (string \<Rightarrow> string result) \<Rightarrow> string \<Rightarrow> string \<Rightarrow> string result" where
  "loadSecretFromFile env rd envName current =
    (if current \<noteq> [] then Inr current
     else let path = env (envName @ ''_FILE'') in
       if path = [] then Inr []
       else case rd path of
         Inl e \<Rightarrow> Inl (Errorf (''read '' @ envName @ ''_FILE '' @ go_quote path @ '': '') e '''')
       | Inr b \<Rightarrow> Inr (trim_space b))"

section \<open>Load\<close>

text \<open>The literal with which \<^verbatim>\<open>Load\<close> begins; the fields it leaves out are zero.\<close>

definition initial_config :: "getenv \<Rightarrow> Config" where
  "initial_config env =
    \<lparr> cf_HTTPAddr = envOr env ''AGENTCOOPDB_HTTP_ADDR'' '':8080'',
      cf_ReadHeaderTimeout = 0, cf_ReadTimeout = 0, cf_WriteTimeout = 0, cf_IdleTimeout = 0,
      cf_MaxRequestBodyBytes = 1048576, cf_MaxResponseBodyBytes = 8388608,
      cf_InsecureHTTP = envBool env ''AGENTCOOPDB_INSECURE_HTTP'' False,
      cf_TrustProxy = envBool env ''AGENTCOOPDB_TRUST_PROXY'' False,
      cf_DatabaseURL = env ''AGENTCOOPDB_DATABASE_URL'',
      cf_MigrationsDatabaseURL = env ''AGENTCOOPDB_MIGRATIONS_DATABASE_URL'',
      cf_GatewayPassword = env ''AGENTCOOPDB_GATEWAY_PASSWORD'',
      cf_OwnerPassword = env ''AGENTCOOPDB_OWNER_PASSWORD'',
      cf_DatabaseMaxConns = 0, cf_DatabaseMinConns = 0, cf_DatabaseConnLifetime = 0,
      cf_StatementTimeout = 0, cf_IdleInTxTimeout = 0, cf_MaxStatementBytes = 0, cf_MaxStatementParams = 0,
      cf_AuthCacheSize = 0, cf_AuthCacheTTL = 0, cf_KeyRotateOverlap = 0,
      cf_RateLimitPerSecond = Finite 0, cf_RateLimitBurst = 0,
      cf_AuditDisabled = envBool env ''AGENTCOOPDB_AUDIT_DISABLED'' False,
      cf_AuditIncludeSQL = envBool env ''AGENTCOOPDB_AUDIT_INCLUDE_SQL'' False,
      cf_LogLevel = envOr env ''AGENTCOOPDB_LOG_LEVEL'' ''info'',
      cf_LogFormat = envOr env ''AGENTCOOPDB_LOG_FORMAT'' ''json'',
      cf_MetricsEnabled = envBool env ''AGENTCOOPDB_METRICS_ENABLED'' True,
      cf_OTELEndpoint = env ''AGENTCOOPDB_OTEL_EXPORTER_OTLP_ENDPOINT'',
      cf_MCPEnabled = envBool env ''AGENTCOOPDB_MCP_ENABLED'' False,
      cf_MigrateOnStart = envBool env ''AGENTCOOPDB_MIGRATE_ON_START'' True \<rparr>"

text \<open>\<^verbatim>\<open>if c.X, err = ...; err != nil { return nil, err }\<close>, and a sequence of such assignments.\<close>

definition set_field :: "'a result \<Rightarrow> ('a \<Rightarrow> 'c \<Rightarrow> 'c) \<Rightarrow> 'c \<Rightarrow> 'c result" where
  "set_field r upd c = (case r of Inl e \<Rightarrow> Inl e | Inr v \<Rightarrow> Inr (upd v c))"

fun set_fields :: "('c \<Rightarrow> 'c result) list \<Rightarrow> 'c \<Rightarrow> 'c result" where
  "set_fields [] c = Inr c"
| "set_fields (a # as) c = (case a c of Inl e \<Rightarrow> Inl e | Inr c' \<Rightarrow> set_fields as c')"

text \<open>The numbers and durations, in the order in which they are read.\<close>

definition number_steps :: "getenv \<Rightarrow> (Config \<Rightarrow> Config result) list" where
  "number_steps env =
     [set_field (envDuration env ''AGENTCOOPDB_READ_HEADER_TIMEOUT'' (5 * second)) (\<lambda>v c. c\<lparr>cf_ReadHeaderTimeout := v\<rparr>),
      set_field (envDuration env ''AGENTCOOPDB_READ_TIMEOUT'' (10 * second)) (\<lambda>v c. c\<lparr>cf_ReadTimeout := v\<rparr>),
      set_field (envDuration env ''AGENTCOOPDB_WRITE_TIMEOUT'' (30 * second)) (\<lambda>v c. c\<lparr>cf_WriteTimeout := v\<rparr>),
      set_field (envDuration env ''AGENTCOOPDB_IDLE_TIMEOUT'' (120 * second)) (\<lambda>v c. c\<lparr>cf_IdleTimeout := v\<rparr>),
      set_field (envDuration env ''AGENTCOOPDB_STATEMENT_TIMEOUT'' (5 * second)) (\<lambda>v c. c\<lparr>cf_StatementTimeout := v\<rparr>),
      set_field (envDuration env ''AGENTCOOPDB_IDLE_IN_TX_TIMEOUT'' (5 * second)) (\<lambda>v c. c\<lparr>cf_IdleInTxTimeout := v\<rparr>),
      set_field (envDuration env ''AGENTCOOPDB_AUTH_CACHE_TTL'' (300 * second)) (\<lambda>v c. c\<lparr>cf_AuthCacheTTL := v\<rparr>),
      set_field (envDuration env ''AGENTCOOPDB_KEY_ROTATE_OVERLAP'' (86400 * second)) (\<lambda>v c. c\<lparr>cf_KeyRotateOverlap := v\<rparr>),
      set_field (envDuration env ''AGENTCOOPDB_DATABASE_CONN_LIFETIME'' (1800 * second)) (\<lambda>v c. c\<lparr>cf_DatabaseConnLifetime := v\<rparr>),
      set_field (envInt64 env ''AGENTCOOPDB_MAX_REQUEST_BODY_BYTES'' 1048576) (\<lambda>v c. c\<lparr>cf_MaxRequestBodyBytes := v\<rparr>),
      set_field (envInt64 env ''AGENTCOOPDB_MAX_RESPONSE_BODY_BYTES'' 8388608) (\<lambda>v c. c\<lparr>cf_MaxResponseBodyBytes := v\<rparr>),
      set_field (envInt env ''AGENTCOOPDB_MAX_STATEMENT_BYTES'' 262144) (\<lambda>v c. c\<lparr>cf_MaxStatementBytes := v\<rparr>),
      set_field (envInt env ''AGENTCOOPDB_MAX_STATEMENT_PARAMS'' 1000) (\<lambda>v c. c\<lparr>cf_MaxStatementParams := v\<rparr>),
      set_field (envInt env ''AGENTCOOPDB_AUTH_CACHE_SIZE'' 1024) (\<lambda>v c. c\<lparr>cf_AuthCacheSize := v\<rparr>),
      set_field (envInt env ''AGENTCOOPDB_RATE_LIMIT_BURST'' 120) (\<lambda>v c. c\<lparr>cf_RateLimitBurst := v\<rparr>),
      set_field (envFloat64 env ''AGENTCOOPDB_RATE_LIMIT_PER_SECOND'' (Finite 60)) (\<lambda>v c. c\<lparr>cf_RateLimitPerSecond := v\<rparr>),
      set_field (envInt32 env ''AGENTCOOPDB_DATABASE_MAX_CONNS'' 20) (\<lambda>v c. c\<lparr>cf_DatabaseMaxConns := v\<rparr>),
      set_field (envInt32 env ''AGENTCOOPDB_DATABASE_MIN_CONNS'' 2) (\<lambda>v c. c\<lparr>cf_DatabaseMinConns := v\<rparr>)]"

definition Load :: "getenv \<Rightarrow> (string \<Rightarrow> string result) \<Rightarrow> Config result" where
  "Load env rd =
    (let c = initial_config env in
     if cf_DatabaseURL c = [] then Inl (Opaque ''AGENTCOOPDB_DATABASE_URL is required'')
     else
     let c1 = (if cf_MigrationsDatabaseURL c = [] then c\<lparr>cf_MigrationsDatabaseURL := cf_DatabaseURL c\<rparr> else c) in
     case set_fields (number_steps env) c1 of Inl e \<Rightarrow> Inl e | Inr c2 \<Rightarrow>
     case loadSecretFromFile env rd ''AGENTCOOPDB_GATEWAY_PASSWORD'' (cf_GatewayPassword c2) of Inl e \<Rightarrow> Inl e | Inr gp \<Rightarrow>
     case loadSecretFromFile env rd ''AGENTCOOPDB_OWNER_PASSWORD'' (cf_OwnerPassword c2) of Inl e \<Rightarrow> Inl e | Inr op \<Rightarrow>
     let c3 = c2\<lparr>cf_GatewayPassword := gp, cf_OwnerPassword := op\<rparr> in
     if cf_StatementTimeout c3 > 60 * second
     then Inl (Opaque (''statement_timeout must be <= 60s, got '' @ duration_text (cf_StatementTimeout c3)))
     else if cf_MaxStatementParams c3 \<le> 0 then Inl (Opaque ''MAX_STATEMENT_PARAMS must be > 0'')
     else Inr c3)"

section \<open>Usage\<close>

definition usage_lines :: "string list" where
  "usage_lines =
    [''Environment variables (prefix: AGENTCOOPDB_):'',
     [],
     ''  HTTP server'',
     ''    AGENTCOOPDB_HTTP_ADDR                    address to bind (default '' @ [CHR 0x22] @ '':8080'' @ [CHR 0x22] @ '')'',
     ''    AGENTCOOPDB_READ_HEADER_TIMEOUT          (default '' @ [CHR 0x22] @ ''5s'' @ [CHR 0x22] @ '')'',
     ''    AGENTCOOPDB_READ_TIMEOUT                 (default '' @ [CHR 0x22] @ ''10s'' @ [CHR 0x22] @ '')'',
     ''    AGENTCOOPDB_WRITE_TIMEOUT                (default '' @ [CHR 0x22] @ ''30s'' @ [CHR 0x22] @ '')'',
     ''    AGENTCOOPDB_IDLE_TIMEOUT                 (default '' @ [CHR 0x22] @ ''120s'' @ [CHR 0x22] @ '')'',
     ''    AGENTCOOPDB_MAX_REQUEST_BODY_BYTES       (default 1048576)'',
     ''    AGENTCOOPDB_MAX_RESPONSE_BODY_BYTES      (default 8388608)'',
     ''    AGENTCOOPDB_INSECURE_HTTP                allow plaintext HTTP (default '' @ [CHR 0x22] @ ''false'' @ [CHR 0x22] @ '')'',
     ''    AGENTCOOPDB_TRUST_PROXY                  trust X-Real-Ip/X-Forwarded-For (default '' @ [CHR 0x22] @ ''false'' @ [CHR 0x22] @ '')'',
     [],
     ''  Database'',
     ''    AGENTCOOPDB_DATABASE_URL                 [required] gateway pool URL'',
     ''    AGENTCOOPDB_MIGRATIONS_DATABASE_URL      superuser URL for migrations (defaults to DATABASE_URL)'',
     ''    AGENTCOOPDB_GATEWAY_PASSWORD             password for agentcoopdb_gateway role'',
     ''    AGENTCOOPDB_OWNER_PASSWORD               password for agentcoopdb_owner role'',
     ''    AGENTCOOPDB_DATABASE_MAX_CONNS           (default 20)'',
     ''    AGENTCOOPDB_DATABASE_MIN_CONNS           (default 2)'',
     ''    AGENTCOOPDB_DATABASE_CONN_LIFETIME       (default '' @ [CHR 0x22] @ ''30m'' @ [CHR 0x22] @ '')'',
     [],
     ''  SQL execution'',
     ''    AGENTCOOPDB_STATEMENT_TIMEOUT            per-request timeout, max 60s (default '' @ [CHR 0x22] @ ''5s'' @ [CHR 0x22] @ '')'',
     ''    AGENTCOOPDB_IDLE_IN_TX_TIMEOUT           (default '' @ [CHR 0x22] @ ''5s'' @ [CHR 0x22] @ '')'',
     ''    AGENTCOOPDB_MAX_STATEMENT_BYTES          (default 262144)'',
     ''    AGENTCOOPDB_MAX_STATEMENT_PARAMS         (default 1000)'',
     [],
     ''  Auth'',
     ''    AGENTCOOPDB_AUTH_CACHE_SIZE              LRU verify cache entries (default 1024)'',
     ''    AGENTCOOPDB_AUTH_CACHE_TTL               (default '' @ [CHR 0x22] @ ''5m'' @ [CHR 0x22] @ '')'',
     ''    AGENTCOOPDB_KEY_ROTATE_OVERLAP           (default '' @ [CHR 0x22] @ ''24h'' @ [CHR 0x22] @ '')'',
     [],
     ''  Rate limiting'',
     ''    AGENTCOOPDB_RATE_LIMIT_PER_SECOND        (default 60)'',
     ''    AGENTCOOPDB_RATE_LIMIT_BURST             (default 120)'',
     [],
     ''  Audit'',
     ''    AGENTCOOPDB_AUDIT_DISABLED               skip all writes to audit_logs table (default '' @ [CHR 0x22] @ ''false'' @ [CHR 0x22] @ '')'',
     ''    AGENTCOOPDB_AUDIT_INCLUDE_SQL            store full SQL in audit_logs (default '' @ [CHR 0x22] @ ''false'' @ [CHR 0x22] @ '')'',
     [],
     ''  Observability'',
     ''    AGENTCOOPDB_LOG_LEVEL                    (default '' @ [CHR 0x22] @ ''info'' @ [CHR 0x22] @ '')'',
     ''    AGENTCOOPDB_LOG_FORMAT                   json or text (default '' @ [CHR 0x22] @ ''json'' @ [CHR 0x22] @ '')'',
     ''    AGENTCOOPDB_METRICS_ENABLED              (default '' @ [CHR 0x22] @ ''true'' @ [CHR 0x22] @ '')'',
     ''    AGENTCOOPDB_OTEL_EXPORTER_OTLP_ENDPOINT optional OTLP collector'',
     [],
     ''  MCP (embedded Streamable HTTP server)'',
     ''    AGENTCOOPDB_MCP_ENABLED                  enable /v1/mcp endpoint (default '' @ [CHR 0x22] @ ''false'' @ [CHR 0x22] @ '')'',
     [],
     ''  Run-once'',
     ''    AGENTCOOPDB_MIGRATE_ON_START             (default '' @ [CHR 0x22] @ ''true'' @ [CHR 0x22] @ '')'',
     [],
     ''  Secrets: every password variable also accepts a *_FILE variant'',
     ''  (e.g. AGENTCOOPDB_GATEWAY_PASSWORD_FILE) for docker / swarm secrets.'',
     []]"

text \<open>Every line ends with a newline but the last, which is empty.\<close>

definition Usage :: string where
  "Usage = concat (map (\<lambda>l. l @ [CHR 0x0A]) (butlast usage_lines)) @ last usage_lines"

text \<open>The defaults a text of this form documents: the first word of a line, and what stands after \<^verbatim>\<open>(default\<close> in its parenthesis.\<close>

definition doc_default :: "string \<Rightarrow> (string \<times> string) list" where
  "doc_default l =
    (let t = dropWhile (\<lambda>c. c \<noteq> CHR ''('') l in
     if has_prefix t ''(default ''
     then [(takeWhile (\<lambda>c. c \<noteq> CHR '' '') (dropWhile (\<lambda>c. c = CHR '' '') l),
            filter (\<lambda>c. c \<noteq> CHR 0x22) (takeWhile (\<lambda>c. c \<noteq> CHR '')'') (drop 9 t)))]
     else [])"

definition doc_defaults :: "string \<Rightarrow> (string \<times> string) list" where
  "doc_defaults text = concat (map doc_default (split_byte (CHR 0x0A) text))"

section \<open>Lemmas\<close>

lemmas env_helpers = envInt_def envInt32_def envInt64_def envFloat64_def envDuration_def

lemma env_other:
  "k \<noteq> key \<Longrightarrow> envOr (env(k := d)) key fb = envOr env key fb"
  "k \<noteq> key \<Longrightarrow> envBool (env(k := d)) key b = envBool env key b"
  "k \<noteq> key \<Longrightarrow> env_parse p (env(k := d)) key x = env_parse p env key x"
  by (simp_all add: envOr_def envBool_def env_parse_def)

lemma env_unset:
  "envOr (env(k := [])) k fb = fb" "envBool (env(k := [])) k b = b" "env_parse p (env(k := [])) k x = Inr x"
  by (simp_all add: envOr_def envBool_def env_parse_def)

lemma env_default:
  "envOr (env(k := fb)) k fb = fb"
  "ParseBool d = Some b \<Longrightarrow> envBool (env(k := d)) k b = b"
  "p d = Inr x \<Longrightarrow> env_parse p (env(k := d)) k x = Inr x"
  by (simp_all add: envOr_def envBool_def env_parse_def)

text \<open>\<^verbatim>\<open>Load\<close> sees the environment only through these reads.\<close>

lemma Load_cong:
  assumes "initial_config env = initial_config env'" "number_steps env = number_steps env'"
    and "env ''AGENTCOOPDB_GATEWAY_PASSWORD_FILE'' = env' ''AGENTCOOPDB_GATEWAY_PASSWORD_FILE''"
    and "env ''AGENTCOOPDB_OWNER_PASSWORD_FILE'' = env' ''AGENTCOOPDB_OWNER_PASSWORD_FILE''"
  shows "Load env rd = Load env' rd"
proof -
  have secrets: "loadSecretFromFile env rd ''AGENTCOOPDB_GATEWAY_PASSWORD'' c = loadSecretFromFile env' rd ''AGENTCOOPDB_GATEWAY_PASSWORD'' c"
    "loadSecretFromFile env rd ''AGENTCOOPDB_OWNER_PASSWORD'' c = loadSecretFromFile env' rd ''AGENTCOOPDB_OWNER_PASSWORD'' c" for c
    using assms(3,4) by (simp_all add: loadSecretFromFile_def)
  show ?thesis unfolding Load_def assms(1,2) secrets ..
qed

lemma ParseDuration_simple:
  assumes "all_digits ds" "leading_digits 0 ds = Some v" "u \<noteq> []" "list_all unit_char u" "unitMap u = Some k"
    and "v \<le> 2 ^ 63 div k" "v * k \<le> 2 ^ 63 - 1"
  shows "ParseDuration (ds @ u) = Inr (int (v * k))"
proof -
  obtain c cs where ds: "ds = c # cs" "is_digit c" using assms(1) by (cases ds) (auto simp: all_digits_def)
  obtain x xs where u: "u = x # xs" using assms(3) by (cases u) auto
  have x: "\<not> is_digit x" "x \<noteq> CHR ''.''" using assms(4) by (auto simp: u unit_char_def)
  have all: "list_all is_digit ds" using assms(1) by (simp add: all_digits_def)
  have tw: "takeWhile is_digit (ds @ u) = ds" "dropWhile is_digit (ds @ u) = u"
    using takeWhile_append_stop[OF all x(1), of xs] dropWhile_append_stop[OF all x(1), of xs] by (simp_all add: u)
  have uw: "takeWhile unit_char u = u" "dropWhile unit_char u = []"
    using assms(4) by (simp_all add: takeWhile_eq_all_conv dropWhile_eq_Nil_conv list_all_iff)
  have "duration_part (ds @ u) (ds @ u) = Inr (v * k, [])"
    using assms(2,3,5,6) x uw tw ds by (simp add: duration_part_def leadingInt_def Let_def u)
  then have "duration_loop (ds @ u) 0 (ds @ u) = Inr (v * k)"
    using assms(7) ds by (subst duration_loop.simps) (simp add: duration_loop.simps[of _ _ "[]"])
  moreover have "cut_sign (ds @ u) = (False, ds @ u)" "ds @ u \<noteq> ''0''"
    using ds u by (auto simp: cut_sign_def is_digit_def)
  ultimately show ?thesis using assms(3,7) ds by (simp add: ParseDuration_def)
qed

lemmas duration_form = all_digits_def is_digit_def unit_char_def unitMap_def second_def

lemma documented_durations:
  "ParseDuration ''5s'' = Inr (5 * second)" "ParseDuration ''10s'' = Inr (10 * second)"
  "ParseDuration ''30s'' = Inr (30 * second)" "ParseDuration ''120s'' = Inr (120 * second)"
  "ParseDuration ''5m'' = Inr (300 * second)" "ParseDuration ''30m'' = Inr (1800 * second)"
  "ParseDuration ''24h'' = Inr (86400 * second)"
  subgoal using ParseDuration_simple[of "''5''" 5 "''s''"] by (simp add: duration_form)
  subgoal using ParseDuration_simple[of "''10''" 10 "''s''"] by (simp add: duration_form)
  subgoal using ParseDuration_simple[of "''30''" 30 "''s''"] by (simp add: duration_form)
  subgoal using ParseDuration_simple[of "''120''" 120 "''s''"] by (simp add: duration_form)
  subgoal using ParseDuration_simple[of "''5''" 5 "''m''"] by (simp add: duration_form)
  subgoal using ParseDuration_simple[of "''30''" 30 "''m''"] by (simp add: duration_form)
  subgoal using ParseDuration_simple[of "''24''" 24 "''h''"] by (simp add: duration_form)
  done

lemma documented_ints:
  "atoi_result ''262144'' = Inr 262144" "atoi_result ''1000'' = Inr 1000" "atoi_result ''1024'' = Inr 1024"
  "atoi_result ''120'' = Inr 120" "parse_int_result 64 ''1048576'' = Inr 1048576" "parse_int_result 64 ''8388608'' = Inr 8388608"
  "parse_int_result 32 ''20'' = Inr 20" "parse_int_result 32 ''2'' = Inr 2"
  by (simp_all add: atoi_result_def Atoi_def parse_int_result_def parse_int_def all_digits_def is_digit_def read_nat_def has_prefix_def)

lemma documented_float: "ParseFloat ''60'' = Inr (Finite 60)"
proof -
  have "fl64 60 = 60" using ieee.fl_int[of 60] by simp
  moreover have "readFloat ''60'' = Some 60"
    by (simp add: readFloat_def cut_sign_def is_digit_def hex_val_def read_exponent_def)
  moreover have "\<not> \<bar>60::real\<bar> < 2 powi (-1022)"
    using power_int_le_one[of "2::real" "-1022"] by simp
  ultimately show ?thesis
    by (simp add: ParseFloat_def special_float_def cut_sign_def ascii_lower_def round64_def)
qed

lemma documented_bools: "ParseBool ''false'' = Some False" "ParseBool ''true'' = Some True"
  by code_simp+

lemma split_lines:
  assumes "list_all (\<lambda>l. c \<notin> set l) ls" "ls \<noteq> []"
  shows "split_byte c (concat (map (\<lambda>l. l @ [c]) (butlast ls)) @ last ls) = ls"
  using assms
proof (induction ls)
  case (Cons l ls)
  then show ?case by (cases "ls = []") (simp_all add: split_byte_no_sep split_byte_append)
qed simp

lemma usage_one_line: "list_all (\<lambda>l. CHR 0x0A \<notin> set l) usage_lines"
  by (simp add: usage_lines_def)

lemma doc_defaults_Usage: "doc_defaults Usage =
   [(''AGENTCOOPDB_HTTP_ADDR'', '':8080''),
    (''AGENTCOOPDB_READ_HEADER_TIMEOUT'', ''5s''),
    (''AGENTCOOPDB_READ_TIMEOUT'', ''10s''),
    (''AGENTCOOPDB_WRITE_TIMEOUT'', ''30s''),
    (''AGENTCOOPDB_IDLE_TIMEOUT'', ''120s''),
    (''AGENTCOOPDB_MAX_REQUEST_BODY_BYTES'', ''1048576''),
    (''AGENTCOOPDB_MAX_RESPONSE_BODY_BYTES'', ''8388608''),
    (''AGENTCOOPDB_INSECURE_HTTP'', ''false''),
    (''AGENTCOOPDB_TRUST_PROXY'', ''false''),
    (''AGENTCOOPDB_DATABASE_MAX_CONNS'', ''20''),
    (''AGENTCOOPDB_DATABASE_MIN_CONNS'', ''2''),
    (''AGENTCOOPDB_DATABASE_CONN_LIFETIME'', ''30m''),
    (''AGENTCOOPDB_STATEMENT_TIMEOUT'', ''5s''),
    (''AGENTCOOPDB_IDLE_IN_TX_TIMEOUT'', ''5s''),
    (''AGENTCOOPDB_MAX_STATEMENT_BYTES'', ''262144''),
    (''AGENTCOOPDB_MAX_STATEMENT_PARAMS'', ''1000''),
    (''AGENTCOOPDB_AUTH_CACHE_SIZE'', ''1024''),
    (''AGENTCOOPDB_AUTH_CACHE_TTL'', ''5m''),
    (''AGENTCOOPDB_KEY_ROTATE_OVERLAP'', ''24h''),
    (''AGENTCOOPDB_RATE_LIMIT_PER_SECOND'', ''60''),
    (''AGENTCOOPDB_RATE_LIMIT_BURST'', ''120''),
    (''AGENTCOOPDB_AUDIT_DISABLED'', ''false''),
    (''AGENTCOOPDB_AUDIT_INCLUDE_SQL'', ''false''),
    (''AGENTCOOPDB_LOG_LEVEL'', ''info''),
    (''AGENTCOOPDB_LOG_FORMAT'', ''json''),
    (''AGENTCOOPDB_METRICS_ENABLED'', ''true''),
    (''AGENTCOOPDB_MCP_ENABLED'', ''false''),
    (''AGENTCOOPDB_MIGRATE_ON_START'', ''true'')]"
proof -
  have "doc_defaults Usage = concat (map doc_default usage_lines)"
    unfolding doc_defaults_def Usage_def using usage_one_line by (subst split_lines) (simp_all add: usage_lines_def)
  then show ?thesis by (simp add: usage_lines_def doc_default_def has_prefix_def)
qed

text \<open>A default that is written out changes nothing that is read.\<close>

definition reads_alike :: "getenv \<Rightarrow> getenv \<Rightarrow> bool" where
  "reads_alike env env' \<longleftrightarrow> initial_config env = initial_config env' \<and> number_steps env = number_steps env'
     \<and> env ''AGENTCOOPDB_GATEWAY_PASSWORD_FILE'' = env' ''AGENTCOOPDB_GATEWAY_PASSWORD_FILE''
     \<and> env ''AGENTCOOPDB_OWNER_PASSWORD_FILE'' = env' ''AGENTCOOPDB_OWNER_PASSWORD_FILE''"

lemma defaults_read_alike: "list_all (\<lambda>(k, d). reads_alike (env(k := d)) (env(k := []))) (doc_defaults Usage)"
  unfolding doc_defaults_Usage reads_alike_def initial_config_def number_steps_def env_helpers
  by (simp add: env_other env_unset env_default documented_durations documented_ints documented_float documented_bools)

lemma Load_alike: "reads_alike env env' \<Longrightarrow> Load env rd = Load env' rd"
  unfolding reads_alike_def by (elim conjE, rule Load_cong)

lemma set_field_ok [ok_iff]: "set_field r upd c = Inr c' \<longleftrightarrow> (\<exists>v. r = Inr v \<and> c' = upd v c)"
  by (auto simp: set_field_def split: sum.split)

lemma set_fields_ok [ok_iff]: "set_fields (a # as) c = Inr c' \<longleftrightarrow> (\<exists>c1. a c = Inr c1 \<and> set_fields as c1 = Inr c')"
  by (simp split: sum.split)

lemma env_parse_ok [ok_iff]:
  "env_parse p env k x = Inr v \<longleftrightarrow> env k = [] \<and> v = x \<or> env k \<noteq> [] \<and> p (env k) = Inr v"
  by (auto simp: env_parse_def Let_def split: sum.split)

text \<open>Each number is what its variable says; the other fields stay.\<close>

lemma numbers_ok:
  assumes "set_fields (number_steps env) c = Inr c'"
  shows "envDuration env ''AGENTCOOPDB_READ_HEADER_TIMEOUT'' (5 * second) = Inr (cf_ReadHeaderTimeout c')"
    "envDuration env ''AGENTCOOPDB_READ_TIMEOUT'' (10 * second) = Inr (cf_ReadTimeout c')"
    "envDuration env ''AGENTCOOPDB_WRITE_TIMEOUT'' (30 * second) = Inr (cf_WriteTimeout c')"
    "envDuration env ''AGENTCOOPDB_IDLE_TIMEOUT'' (120 * second) = Inr (cf_IdleTimeout c')"
    "envDuration env ''AGENTCOOPDB_STATEMENT_TIMEOUT'' (5 * second) = Inr (cf_StatementTimeout c')"
    "envDuration env ''AGENTCOOPDB_IDLE_IN_TX_TIMEOUT'' (5 * second) = Inr (cf_IdleInTxTimeout c')"
    "envDuration env ''AGENTCOOPDB_AUTH_CACHE_TTL'' (300 * second) = Inr (cf_AuthCacheTTL c')"
    "envDuration env ''AGENTCOOPDB_KEY_ROTATE_OVERLAP'' (86400 * second) = Inr (cf_KeyRotateOverlap c')"
    "envDuration env ''AGENTCOOPDB_DATABASE_CONN_LIFETIME'' (1800 * second) = Inr (cf_DatabaseConnLifetime c')"
    "envInt64 env ''AGENTCOOPDB_MAX_REQUEST_BODY_BYTES'' 1048576 = Inr (cf_MaxRequestBodyBytes c')"
    "envInt64 env ''AGENTCOOPDB_MAX_RESPONSE_BODY_BYTES'' 8388608 = Inr (cf_MaxResponseBodyBytes c')"
    "envInt env ''AGENTCOOPDB_MAX_STATEMENT_BYTES'' 262144 = Inr (cf_MaxStatementBytes c')"
    "envInt env ''AGENTCOOPDB_MAX_STATEMENT_PARAMS'' 1000 = Inr (cf_MaxStatementParams c')"
    "envInt env ''AGENTCOOPDB_AUTH_CACHE_SIZE'' 1024 = Inr (cf_AuthCacheSize c')"
    "envInt env ''AGENTCOOPDB_RATE_LIMIT_BURST'' 120 = Inr (cf_RateLimitBurst c')"
    "envFloat64 env ''AGENTCOOPDB_RATE_LIMIT_PER_SECOND'' (Finite 60) = Inr (cf_RateLimitPerSecond c')"
    "envInt32 env ''AGENTCOOPDB_DATABASE_MAX_CONNS'' 20 = Inr (cf_DatabaseMaxConns c')"
    "envInt32 env ''AGENTCOOPDB_DATABASE_MIN_CONNS'' 2 = Inr (cf_DatabaseMinConns c')"
    "cf_DatabaseURL c' = cf_DatabaseURL c" "cf_MigrationsDatabaseURL c' = cf_MigrationsDatabaseURL c"
    "cf_GatewayPassword c' = cf_GatewayPassword c" "cf_OwnerPassword c' = cf_OwnerPassword c"
    "cf_InsecureHTTP c' = cf_InsecureHTTP c" "cf_HTTPAddr c' = cf_HTTPAddr c"
  using assms unfolding number_steps_def set_fields_ok set_field_ok by auto

section \<open>Properties\<close>

text \<open>
  (C37) The documented defaults are the real ones: for every variable whose
  default \<^verbatim>\<open>Usage\<close> states, setting the variable to that text and leaving it
  unset give the same result of \<^verbatim>\<open>Load\<close>, in any environment: the same
  configuration, or the same error.
\<close>
theorem documented_defaults:
  assumes "(k, d) \<in> set (doc_defaults Usage)"
  shows "Load (env(k := d)) rd = Load (env(k := [])) rd"
  using assms defaults_read_alike[of env] by (auto simp: list_all_iff intro: Load_alike)

theorem documented_defaults_witness:
  "Load ((\<lambda>_. [])(''AGENTCOOPDB_KEY_ROTATE_OVERLAP'' := ''24h'')) Inr = Load ((\<lambda>_. [])(''AGENTCOOPDB_KEY_ROTATE_OVERLAP'' := [])) Inr"
  by (rule documented_defaults) (simp add: doc_defaults_Usage)

text \<open>The variables of each type and the fields they set.\<close>

definition duration_vars :: "(string \<times> (Config \<Rightarrow> duration)) list" where
  "duration_vars =
    [(''AGENTCOOPDB_READ_HEADER_TIMEOUT'', cf_ReadHeaderTimeout),
     (''AGENTCOOPDB_READ_TIMEOUT'', cf_ReadTimeout),
     (''AGENTCOOPDB_WRITE_TIMEOUT'', cf_WriteTimeout),
     (''AGENTCOOPDB_IDLE_TIMEOUT'', cf_IdleTimeout),
     (''AGENTCOOPDB_STATEMENT_TIMEOUT'', cf_StatementTimeout),
     (''AGENTCOOPDB_IDLE_IN_TX_TIMEOUT'', cf_IdleInTxTimeout),
     (''AGENTCOOPDB_AUTH_CACHE_TTL'', cf_AuthCacheTTL),
     (''AGENTCOOPDB_KEY_ROTATE_OVERLAP'', cf_KeyRotateOverlap),
     (''AGENTCOOPDB_DATABASE_CONN_LIFETIME'', cf_DatabaseConnLifetime)]"

definition int_vars :: "(string \<times> nat \<times> (Config \<Rightarrow> int)) list" where
  "int_vars =
    [(''AGENTCOOPDB_MAX_REQUEST_BODY_BYTES'', 64, cf_MaxRequestBodyBytes),
     (''AGENTCOOPDB_MAX_RESPONSE_BODY_BYTES'', 64, cf_MaxResponseBodyBytes),
     (''AGENTCOOPDB_MAX_STATEMENT_BYTES'', 64, cf_MaxStatementBytes),
     (''AGENTCOOPDB_MAX_STATEMENT_PARAMS'', 64, cf_MaxStatementParams),
     (''AGENTCOOPDB_AUTH_CACHE_SIZE'', 64, cf_AuthCacheSize),
     (''AGENTCOOPDB_RATE_LIMIT_BURST'', 64, cf_RateLimitBurst),
     (''AGENTCOOPDB_DATABASE_MAX_CONNS'', 32, cf_DatabaseMaxConns),
     (''AGENTCOOPDB_DATABASE_MIN_CONNS'', 32, cf_DatabaseMinConns)]"

lemma durations_ok:
  assumes "set_fields (number_steps env) c = Inr c'"
  shows "list_all (\<lambda>(k, f). (env k \<noteq> [] \<longrightarrow> ParseDuration (env k) = Inr (f c')) \<and> - (2 ^ 63) \<le> f c' \<and> f c' < 2 ^ 63) duration_vars"
proof -
  have "(env k \<noteq> [] \<longrightarrow> ParseDuration (env k) = Inr x) \<and> - (2 ^ 63) \<le> x \<and> x < 2 ^ 63"
    if "envDuration env k d = Inr x" "d \<in> {0..86400 * second}" for k d x
    using that by (auto simp: envDuration_def env_parse_ok second_def dest: ParseDuration_range)
  note * = this
  show ?thesis unfolding duration_vars_def
    using numbers_ok(1-9)[OF assms, THEN *] by (simp add: second_def)
qed

lemma ints_ok:
  assumes "set_fields (number_steps env) c = Inr c'"
  shows "list_all (\<lambda>(k, bits, f). (env k \<noteq> [] \<longrightarrow> parse_int bits (env k) = Some (f c'))
    \<and> - (2 ^ (bits - 1)) \<le> f c' \<and> f c' < 2 ^ (bits - 1)) int_vars"
proof -
  have parsed: "parse_int bits s = Some x" if "parse_int_result bits s = Inr x" for bits s x
    using that by (simp add: parse_int_result_def split: option.splits)
  have atoi: "parse_int 64 s = Some x" if "atoi_result s = Inr x" for s x
    using that by (simp add: atoi_result_def Atoi_def split: option.splits)
  have a: "(env k \<noteq> [] \<longrightarrow> parse_int 64 (env k) = Some x) \<and> - (2 ^ 63) \<le> x \<and> x < 2 ^ 63"
    if "envInt env k d = Inr x" "d \<in> {0..10^9}" for k d x
    using that atoi_result_range[of "env k" x] by (auto simp: envInt_def env_parse_ok dest: atoi)
  have b: "(env k \<noteq> [] \<longrightarrow> parse_int 64 (env k) = Some x) \<and> - (2 ^ 63) \<le> x \<and> x < 2 ^ 63"
    if "envInt64 env k d = Inr x" "d \<in> {0..10^9}" for k d x
    using that parse_int_result_range[of 64 "env k" x] by (auto simp: envInt64_def env_parse_ok dest: parsed)
  have c: "(env k \<noteq> [] \<longrightarrow> parse_int 32 (env k) = Some x) \<and> - (2 ^ 31) \<le> x \<and> x < 2 ^ 31"
    if "envInt32 env k d = Inr x" "d \<in> {0..10^9}" for k d x
    using that parse_int_result_range[of 32 "env k" x] by (auto simp: envInt32_def env_parse_ok dest: parsed)
  show ?thesis unfolding int_vars_def
    using numbers_ok(10-11)[OF assms, THEN b] numbers_ok(12-15)[OF assms, THEN a] numbers_ok(17-18)[OF assms, THEN c] by simp
qed



text \<open>A malformed boolean, by contrast, is silently the default.\<close>

lemma malformed_bool_is_default: "ParseBool (env k) = None \<Longrightarrow> envBool env k b = b"
  by (simp add: envBool_def Let_def)

end
