(* ===== verification/Db.thy ===== *)
theory Db
  imports Url KeyStore Tenant Config
begin

text \<open>
  The package \<^verbatim>\<open>internal/db\<close>: connection URLs and the scrubbing of secrets,
  migrations, the roles the server prepares at startup, the pool, and the key
  operations of the command line.

  The driver's \<^verbatim>\<open>pgx.Connect\<close> is a function from the URL to an error or nil;
  \<^verbatim>\<open>golang-migrate\<close> is a record of functions on the state of the database
  it migrates.
\<close>

section \<open>Secrets and URLs (migrate.go)\<close>

fun redact_loop :: "string \<Rightarrow> bool \<Rightarrow> string list \<Rightarrow> string \<times> bool" where
  "redact_loop msg changed [] = (msg, changed)"
| "redact_loop msg changed (s # ss) =
    (if s \<noteq> [] \<and> contains msg s then redact_loop (replace_all msg s ''REDACTED'') True ss
     else redact_loop msg changed ss)"

definition redactSecrets :: "string list \<Rightarrow> go_error option \<Rightarrow> go_error option" where
  "redactSecrets secrets err =
    (case err of None \<Rightarrow> None
     | Some e \<Rightarrow> (case redact_loop (error_text e) False secrets of (msg, changed) \<Rightarrow>
         if changed then Some (Opaque msg) else Some e))"

text \<open>For a function with a result as well.\<close>

definition redact_result :: "string list \<Rightarrow> 'a result \<Rightarrow> 'a result" where
  "redact_result secrets r =
    (case r of Inr x \<Rightarrow> Inr x | Inl e \<Rightarrow> (case redactSecrets secrets (Some e) of None \<Rightarrow> Inl e | Some e' \<Rightarrow> Inl e'))"

definition urlPassword :: "string \<Rightarrow> string" where
  "urlPassword rawURL =
    (case Parse rawURL of Inl _ \<Rightarrow> []
     | Inr u \<Rightarrow> (case u_User u of None \<Rightarrow> [] | Some ui \<Rightarrow> ui_password ui))"

definition injectPassword :: "string \<Rightarrow> string \<Rightarrow> string result" where
  "injectPassword rawURL password =
    (if password = [] then Inr rawURL
     else case Parse rawURL of Inl e \<Rightarrow> Inl e
     | Inr u \<Rightarrow>
       (case u_User u of
          None \<Rightarrow> Inl (Opaque (''URL '' @ go_quote rawURL @ '' has no user component to attach a password to''))
        | Some ui \<Rightarrow> Inr (url_string (u\<lparr>u_User := Some (UserPassword (ui_username ui) password)\<rparr>))))"

definition rewriteSchemeForMigrate :: "string \<Rightarrow> string result" where
  "rewriteSchemeForMigrate rawURL =
    (case Parse rawURL of Inl e \<Rightarrow> Inl e
     | Inr u \<Rightarrow>
       if u_Scheme u = ''postgres'' \<or> u_Scheme u = ''postgresql'' then Inr (url_string (u\<lparr>u_Scheme := ''pgx5''\<rparr>))
       else if u_Scheme u = ''pgx5'' then Inr (url_string u)
       else Inl (Opaque (''unsupported scheme '' @ go_quote (u_Scheme u) @ '' (expected postgres / postgresql / pgx5)'')))"

section \<open>Migrations\<close>

text \<open>\<open>isdir\<close> is \<^verbatim>\<open>os.Stat\<close> with \<^verbatim>\<open>IsDir\<close>, \<open>abs\<close> is \<^verbatim>\<open>filepath.Abs\<close>.\<close>

definition MigrationsDir :: "getenv \<Rightarrow> (string \<Rightarrow> bool) \<Rightarrow> (string \<Rightarrow> string result) \<Rightarrow> string result" where
  "MigrationsDir env isdir absolute =
    (let d = env ''AGENTCOOPDB_MIGRATIONS_DIR'' in
     if d \<noteq> [] then Inr d
     else if isdir ''/app/migrations'' then absolute ''/app/migrations''
     else if isdir ''migrations'' then absolute ''migrations''
     else Inl (Opaque ''migrations directory not found (set AGENTCOOPDB_MIGRATIONS_DIR)''))"

text \<open>The errors of \<^verbatim>\<open>golang-migrate\<close> that the code tells apart.\<close>

datatype migrate_error = ErrNoChange | ErrDirty int | MigrateError go_error

fun migrate_go_error :: "migrate_error \<Rightarrow> go_error" where
  "migrate_go_error ErrNoChange = Opaque ''no change''"
| "migrate_go_error (ErrDirty v) = Opaque (''Dirty database version '' @ Itoa v @ ''. Fix and force version.'')"
| "migrate_go_error (MigrateError e) = e"

record 'm migrator =
  mg_new :: "string \<Rightarrow> string \<Rightarrow> go_error option"
  mg_up :: "'m \<Rightarrow> migrate_error option \<times> 'm"
  mg_force :: "int \<Rightarrow> 'm \<Rightarrow> go_error option \<times> 'm"

text \<open>From the URL to the instance of the migrator: the steps \<^verbatim>\<open>RunMigrations\<close> and \<^verbatim>\<open>ForceVersion\<close> share.\<close>

definition open_migrator :: "'m migrator \<Rightarrow> string result \<Rightarrow> string \<Rightarrow> string \<Rightarrow> go_error option" where
  "open_migrator mg dir migrationsURL password =
    (case injectPassword migrationsURL password of Inl e \<Rightarrow> Some (Errorf ''inject password: '' e '''')
     | Inr url1 \<Rightarrow>
     case rewriteSchemeForMigrate url1 of Inl e \<Rightarrow> Some (Errorf ''rewrite scheme: '' e '''')
     | Inr finalURL \<Rightarrow>
     case dir of Inl e \<Rightarrow> Some e
     | Inr d \<Rightarrow> (case mg_new mg (''file://'' @ d) finalURL of None \<Rightarrow> None | Some e \<Rightarrow> Some (Errorf ''migrate.New: '' e '''')))"

text \<open>\<^verbatim>\<open>m.Up\<close>, with one recovery from a dirty version.\<close>

definition migrate_up :: "'m migrator \<Rightarrow> 'm \<Rightarrow> go_error option \<times> 'm" where
  "migrate_up mg m =
    (case mg_up mg m of
       (None, m1) \<Rightarrow> (None, m1)
     | (Some ErrNoChange, m1) \<Rightarrow> (None, m1)
     | (Some (MigrateError e), m1) \<Rightarrow> (Some (Errorf ''migrate.Up: '' e ''''), m1)
     | (Some (ErrDirty v), m1) \<Rightarrow>
        (case mg_force mg (v - 1) m1 of
           (Some e, m2) \<Rightarrow> (Some (Errorf (''migrate.Up: dirty v'' @ Itoa v @ ''; force to '' @ Itoa (v - 1) @ '' failed: '') e ''''), m2)
         | (None, m2) \<Rightarrow>
            (case mg_up mg m2 of
               (None, m3) \<Rightarrow> (None, m3)
             | (Some ErrNoChange, m3) \<Rightarrow> (None, m3)
             | (Some e, m3) \<Rightarrow> (Some (Errorf (''migrate.Up: dirty v'' @ Itoa v @ ''; retry after force also failed: '') (migrate_go_error e) ''''), m3))))"

definition RunMigrations :: "'m migrator \<Rightarrow> string result \<Rightarrow> string \<Rightarrow> string \<Rightarrow> 'm \<Rightarrow> go_error option \<times> 'm" where
  "RunMigrations mg dir migrationsURL password m =
    (let (err, m') =
       (if migrationsURL = [] then (Some (Opaque ''RunMigrations: empty migrations URL''), m)
        else case open_migrator mg dir migrationsURL password of Some e \<Rightarrow> (Some e, m) | None \<Rightarrow> migrate_up mg m)
     in (redactSecrets [password, urlPassword migrationsURL] err, m'))"

definition ForceVersion :: "'m migrator \<Rightarrow> string result \<Rightarrow> string \<Rightarrow> string \<Rightarrow> int \<Rightarrow> 'm \<Rightarrow> go_error option \<times> 'm" where
  "ForceVersion mg dir migrationsURL password version m =
    (let (err, m') =
       (if migrationsURL = [] then (Some (Opaque ''ForceVersion: empty migrations URL''), m)
        else case open_migrator mg dir migrationsURL password of Some e \<Rightarrow> (Some e, m)
        | None \<Rightarrow> (case mg_force mg version m of (None, m1) \<Rightarrow> (None, m1) | (Some e, m1) \<Rightarrow> (Some (Errorf ''migrate.Force: '' e ''''), m1)))
     in (redactSecrets [password, urlPassword migrationsURL] err, m'))"

section \<open>Roles\<close>

text \<open>The \<^verbatim>\<open>DO\<close> block: the owner role is created unless it, or its old name, exists.\<close>

definition create_owner :: "key_db \<Rightarrow> key_db result" where
  "create_owner db =
    (if ''agentcoopdb_owner'' \<in> set (kd_roles db) \<or> ''aicoopdb_owner'' \<in> set (kd_roles db) then Inr db
     else Inr (db\<lparr>kd_roles := kd_roles db @ [''agentcoopdb_owner'']\<rparr>))"

text \<open>Statement 1 is the grant and 2 the check; \<open>hasCreate\<close> is its answer and \<open>user\<close> the role of the connection.\<close>

definition EnsureOwnerRole ::
  "(string \<Rightarrow> go_error option) \<Rightarrow> pg_env \<Rightarrow> bool \<Rightarrow> string \<Rightarrow> string \<Rightarrow> string \<Rightarrow> key_db \<Rightarrow> go_error option \<times> key_db" where
  "EnsureOwnerRole connect env hasCreate user migrationsURL ownerPassword db =
    (let (err, db') =
      (if migrationsURL = [] then
         (Some (Opaque ''EnsureOwnerRole: migrations database URL is empty (set AGENTCOOPDB_MIGRATIONS_DATABASE_URL or AGENTCOOPDB_DATABASE_URL)''), db)
       else case injectPassword migrationsURL ownerPassword of Inl e \<Rightarrow> (Some (Errorf ''inject password: '' e ''''), db)
       | Inr finalURL \<Rightarrow>
       case connect finalURL of Some e \<Rightarrow> (Some (Errorf ''connect: '' e ''''), db)
       | None \<Rightarrow>
       case pool_exec env 0 create_owner db of (Some e, db1) \<Rightarrow> (Some (Errorf ''create agentcoopdb_owner: '' e ''''), db1)
       | (None, db1) \<Rightarrow>
       case pg_stmt env 1 of None \<Rightarrow> (None, db1)
       | Some _ \<Rightarrow>
       case query_row env 2 [hasCreate] of
         Inr True \<Rightarrow> (None, db1)
       | _ \<Rightarrow> (Some (Opaque (''migrations user cannot CREATE in the public schema (PostgreSQL 15+ revoked this by default). Connect to the database as a superuser and run: GRANT CREATE ON SCHEMA public TO '' @ go_quote user)), db1))
     in (redactSecrets [ownerPassword, urlPassword migrationsURL] err, db'))"

definition db_isSafeIdent :: "string \<Rightarrow> bool" where
  "db_isSafeIdent s = (if s = [] \<or> length s > 63 then False else list_all safe_role_rune (runes s))"

definition password_statement :: "string \<Rightarrow> string \<Rightarrow> string" where
  "password_statement role newPassword =
    ''ALTER ROLE '' @ go_quote role @ '' WITH PASSWORD '' @ [CHR 0x27]
      @ replace_all newPassword [CHR 0x27] [CHR 0x27, CHR 0x27] @ [CHR 0x27]"

text \<open>The error, and the statement that was sent, if any; \<open>run\<close> is the outcome of \<^verbatim>\<open>conn.Exec\<close>.\<close>

definition SetRolePassword ::
  "(string \<Rightarrow> go_error option) \<Rightarrow> (string \<Rightarrow> go_error option) \<Rightarrow> string \<Rightarrow> string \<Rightarrow> string \<Rightarrow> string
    \<Rightarrow> go_error option \<times> string option" where
  "SetRolePassword connect run migrationsURL ownerPassword role newPassword =
    (let (err, sent) =
      (if \<not> db_isSafeIdent role then (Some (Opaque (''SetRolePassword: unsafe role identifier '' @ go_quote role)), None)
       else if newPassword = [] then (Some (Opaque ''SetRolePassword: empty new password''), None)
       else if CHR 0x00 \<in> set newPassword then (Some (Opaque ''SetRolePassword: password contains NUL byte''), None)
       else case injectPassword migrationsURL ownerPassword of Inl e \<Rightarrow> (Some (Errorf ''inject password: '' e ''''), None)
       | Inr finalURL \<Rightarrow>
       case connect finalURL of Some e \<Rightarrow> (Some (Errorf ''connect: '' e ''''), None)
       | None \<Rightarrow>
         let stmt = password_statement role newPassword in
         (case run stmt of Some e \<Rightarrow> (Some (Errorf ''alter role: '' e ''''), Some stmt) | None \<Rightarrow> (None, Some stmt)))
     in (redactSecrets [ownerPassword, newPassword, urlPassword migrationsURL] err, sent))"

section \<open>Keys from the command line (keymint.go, keylist.go, keyrevoke.go)\<close>

text \<open>The key tables with the names of the workspaces.\<close>

record owner_db =
  od_keys :: key_db
  od_names :: "(string \<times> string) list"

definition insert_workspace :: "string \<Rightarrow> string \<Rightarrow> owner_db \<Rightarrow> owner_db result" where
  "insert_workspace i name db =
    (if i \<in> set (kd_workspaces (od_keys db)) then pg_fail ''23505'' ''duplicate key''
     else Inr (db\<lparr>od_keys := (od_keys db)\<lparr>kd_workspaces := kd_workspaces (od_keys db) @ [i]\<rparr>, od_names := od_names db @ [(i, name)]\<rparr>))"

definition owner_insert_key :: "api_key_row \<Rightarrow> owner_db \<Rightarrow> owner_db result" where
  "owner_insert_key r db = (case insert_api_key r (od_keys db) of Inl e \<Rightarrow> Inl e | Inr k \<Rightarrow> Inr (db\<lparr>od_keys := k\<rparr>))"

definition mint_row :: "pg_env \<Rightarrow> string \<Rightarrow> string \<Rightarrow> string \<Rightarrow> string \<Rightarrow> string \<Rightarrow> string \<Rightarrow> api_key_row" where
  "mint_row env keyPK wsID keyID hash envTag pgRole =
    \<lparr> ak_id = keyPK, ak_workspace_id = wsID, ak_key_id = keyID, ak_secret_hash = hash, ak_env = envTag,
      ak_pg_role = pgRole, ak_name = Some ''mint-key'', ak_created_at = pg_now env, ak_last_used_at = None,
      ak_expires_at = None, ak_revoked_at = None, ak_replaces_key_id = None \<rparr>"

definition mint_tx ::
  "pg_env \<Rightarrow> string \<Rightarrow> string \<Rightarrow> string \<Rightarrow> string \<Rightarrow> string \<Rightarrow> string \<Rightarrow> string \<Rightarrow> owner_db \<Rightarrow> (unit \<times> owner_db) result" where
  "mint_tx env newWs keyPK workspace pgRole envTag keyID hash db =
    (case (case query_row env 0 (map fst (filter (\<lambda>(i, n). n = workspace) (od_names db))) of
             Inr i \<Rightarrow> Inr (i, db)
           | Inl e \<Rightarrow>
              if errors_is e ErrNoRows then
                (case tx_exec env 1 (insert_workspace newWs workspace) db of
                   Inl e' \<Rightarrow> Inl (Errorf ''create workspace: '' e' '''')
                 | Inr db1 \<Rightarrow> Inr (newWs, db1))
              else Inl (Errorf ''lookup workspace: '' e '''')) of
       Inl e \<Rightarrow> Inl e
     | Inr (wsID, db1) \<Rightarrow>
        (case tx_exec env 2 (owner_insert_key (mint_row env keyPK wsID keyID hash envTag pgRole)) db1 of
           Inl e \<Rightarrow> Inl (Errorf ''insert api_key: '' e '''')
         | Inr db2 \<Rightarrow> Inr ((), db2)))"

text \<open>\<open>newWs\<close> and the UUID of \<open>me\<close> are the two fresh UUIDs.\<close>

definition MintKey ::
  "argon2 \<Rightarrow> (string \<Rightarrow> go_error option) \<Rightarrow> mint_env \<Rightarrow> string \<Rightarrow> pg_env \<Rightarrow> string \<Rightarrow> string \<Rightarrow> string \<Rightarrow> string \<Rightarrow> string
    \<Rightarrow> owner_db \<Rightarrow> string result \<times> owner_db" where
  "MintKey idkey connect me newWs env migrationsURL ownerPassword workspace pgRole envTag db =
    (let (out, db') =
      (if workspace = [] then (Inl (Opaque ''MintKey: empty workspace''), db)
       else if pgRole = [] then (Inl (Opaque ''MintKey: empty pg_role''), db)
       else if \<not> IsValid envTag then (Inl (Opaque (''MintKey: invalid env '' @ go_quote envTag @ '' (must be dev / live / test)'')), db)
       else case Mint envTag (me_id me) (me_secret me) of Inl e \<Rightarrow> (Inl (Errorf ''auth.Mint: '' e ''''), db)
       | Inr (keyID, secret, token) \<Rightarrow>
       case HashSecret idkey (me_salt me) secret of Inl e \<Rightarrow> (Inl (Errorf ''auth.HashSecret: '' e ''''), db)
       | Inr hash \<Rightarrow>
       case injectPassword migrationsURL ownerPassword of Inl e \<Rightarrow> (Inl (Errorf ''inject password: '' e ''''), db)
       | Inr finalURL \<Rightarrow>
       case connect finalURL of Some e \<Rightarrow> (Inl (Errorf ''connect: '' e ''''), db)
       | None \<Rightarrow>
       let env' = env\<lparr>pg_begin := map_option (\<lambda>e. Errorf ''begin tx: '' e '''') (pg_begin env),
                      pg_commit := map_option (\<lambda>e. Errorf ''commit: '' e '''') (pg_commit env)\<rparr> in
       (case in_tx env' (mint_tx env' newWs (me_uuid me) workspace pgRole envTag keyID hash) db of
          (Inl e, db1) \<Rightarrow> (Inl e, db1)
        | (Inr _, db1) \<Rightarrow> (Inr token, db1)))
     in (redact_result [ownerPassword, urlPassword migrationsURL] out, db'))"

record KeySummary =
  ks_ID :: string
  ks_WorkspaceName :: string
  ks_PgRole :: string
  ks_Env :: string
  ks_Name :: string
  ks_Status :: string
  ks_CreatedAt :: instant

definition keyStatus :: "instant \<Rightarrow> instant option \<Rightarrow> instant option \<Rightarrow> string" where
  "keyStatus now revokedAt expiresAt =
    (if revokedAt \<noteq> None then ''revoked''
     else case expiresAt of Some t \<Rightarrow> if \<not> t > now then ''expired'' else ''active'' | None \<Rightarrow> ''active'')"

definition key_summary :: "instant \<Rightarrow> (string \<times> string) list \<Rightarrow> api_key_row \<Rightarrow> KeySummary" where
  "key_summary now names r =
    \<lparr> ks_ID = ak_id r, ks_WorkspaceName = coalesce_empty (map_of names (ak_workspace_id r)), ks_PgRole = ak_pg_role r,
      ks_Env = ak_env r, ks_Name = coalesce_empty (ak_name r), ks_Status = keyStatus now (ak_revoked_at r) (ak_expires_at r),
      ks_CreatedAt = ak_created_at r \<rparr>"

text \<open>What may go wrong while reading rows: a scan, or the end of the result, after some rows.\<close>

datatype row_fault = NoFault | ScanFault nat go_error | RowsFault nat go_error

definition ListKeys ::
  "(string \<Rightarrow> go_error option) \<Rightarrow> pg_env \<Rightarrow> row_fault \<Rightarrow> instant \<Rightarrow> string \<Rightarrow> string \<Rightarrow> owner_db
    \<Rightarrow> KeySummary list \<times> go_error option" where
  "ListKeys connect env fault now migrationsURL ownerPassword db =
    (let red = (\<lambda>e. case redactSecrets [ownerPassword, urlPassword migrationsURL] (Some e) of Some e' \<Rightarrow> e' | None \<Rightarrow> e) in
     case injectPassword migrationsURL ownerPassword of Inl e \<Rightarrow> ([], Some (Errorf ''inject password: '' e ''''))
     | Inr finalURL \<Rightarrow>
     case connect finalURL of Some e \<Rightarrow> ([], Some (Errorf ''connect: '' (red e) ''''))
     | None \<Rightarrow>
     case pg_stmt env 0 of Some e \<Rightarrow> ([], Some (Errorf ''query: '' (red e) ''''))
     | None \<Rightarrow>
     let keys = map (key_summary now (od_names db)) (sort_key ak_created_at (kd_api_keys (od_keys db))) in
     (case fault of NoFault \<Rightarrow> (keys, None)
      | ScanFault n e \<Rightarrow> if n < length keys then ([], Some (Errorf ''scan: '' e '''')) else (keys, None)
      | RowsFault n e \<Rightarrow> (take n keys, Some e)))"

text \<open>\<open>pg_uuid\<close> is what Postgres makes of the text as a uuid.\<close>

definition RevokeKey ::
  "(string \<Rightarrow> string result) \<Rightarrow> (string \<Rightarrow> string result) \<Rightarrow> (string \<Rightarrow> go_error option) \<Rightarrow> pg_env \<Rightarrow> string \<Rightarrow> string \<Rightarrow> string
    \<Rightarrow> key_db \<Rightarrow> go_error option \<times> key_db" where
  "RevokeKey uuid_parse pg_uuid connect env migrationsURL ownerPassword keyID db =
    (let (err, db') =
      (case uuid_parse keyID of Inl e \<Rightarrow> (Some (Errorf (''invalid key ID '' @ go_quote keyID @ '': '') e ''''), db)
       | Inr _ \<Rightarrow>
       case injectPassword migrationsURL ownerPassword of Inl e \<Rightarrow> (Some (Errorf ''inject password: '' e ''''), db)
       | Inr finalURL \<Rightarrow>
       case connect finalURL of Some e \<Rightarrow> (Some (Errorf ''connect: '' e ''''), db)
       | None \<Rightarrow>
       let live = (\<lambda>u r. ak_id r = u \<and> ak_revoked_at r = None) in
       (case pool_exec env 0 (\<lambda>d. case pg_uuid keyID of Inl e \<Rightarrow> Inl e
            | Inr u \<Rightarrow> update_api_keys (live u) (\<lambda>r. r\<lparr>ak_revoked_at := Some (pg_now env)\<rparr>) d) db of
          (Some e, db1) \<Rightarrow> (Some (Errorf ''revoke: '' e ''''), db1)
        | (None, db1) \<Rightarrow>
            if (case pg_uuid keyID of Inl _ \<Rightarrow> 0 | Inr u \<Rightarrow> affected (live u) (kd_api_keys db)) = 0
            then (Some (Opaque (''key '' @ keyID @ '' not found or already revoked'')), db1)
            else (None, db1)))
     in (redactSecrets [ownerPassword, urlPassword migrationsURL] err, db'))"

section \<open>The pool (pool.go)\<close>

record PoolConfig =
  po_URL :: string
  po_Password :: string
  po_MaxConns :: int
  po_MinConns :: int
  po_ConnLifetime :: duration

text \<open>The fields of \<^verbatim>\<open>pgxpool.Config\<close> the code sets.\<close>

record pgxpool_config =
  px_Password :: string
  px_MaxConns :: int
  px_MinConns :: int
  px_MaxConnLifetime :: duration
  px_RuntimeParams :: "(string \<times> string) list"

definition pool_config :: "PoolConfig \<Rightarrow> pgxpool_config \<Rightarrow> pgxpool_config" where
  "pool_config c cfg0 =
    (let cfg1 = (if po_Password c \<noteq> [] then cfg0\<lparr>px_Password := po_Password c\<rparr> else cfg0);
         cfg2 = (if po_MaxConns c > 0 then cfg1\<lparr>px_MaxConns := po_MaxConns c\<rparr> else cfg1);
         cfg3 = (if po_MinConns c > 0 then cfg2\<lparr>px_MinConns := po_MinConns c\<rparr> else cfg2);
         cfg4 = (if po_ConnLifetime c > 0 then cfg3\<lparr>px_MaxConnLifetime := po_ConnLifetime c\<rparr> else cfg3)
     in cfg4\<lparr>px_RuntimeParams := map_put ''search_path'' ''agentcoopdb,public''
          (map_put ''application_name'' ''agentcoopdb_gateway'' (px_RuntimeParams cfg4))\<rparr>)"

definition OpenPool ::
  "(string \<Rightarrow> pgxpool_config result) \<Rightarrow> (pgxpool_config \<Rightarrow> go_error option) \<Rightarrow> go_error option \<Rightarrow> PoolConfig \<Rightarrow> pgxpool_config result" where
  "OpenPool parse_config new_pool ping c =
    (if po_URL c = [] then Inl (Opaque ''db: empty database URL'')
     else case parse_config (po_URL c) of Inl e \<Rightarrow> Inl (Errorf ''parse: '' e '''')
     | Inr cfg0 \<Rightarrow>
       let cfg = pool_config c cfg0 in
       case new_pool cfg of Some e \<Rightarrow> Inl (Errorf ''connect: '' e '''')
       | None \<Rightarrow> (case ping of Some e \<Rightarrow> Inl (Errorf ''ping: '' e '''') | None \<Rightarrow> Inr cfg))"

text \<open>\<^verbatim>\<open>InTx\<close> also rolls back when the function panics, and passes the panic on.\<close>

datatype fn_end = FnOk | FnErr go_error | FnPanic string

datatype tx_end = TxOk | TxErr go_error | TxPanic string

definition InTx :: "pg_env \<Rightarrow> ('db \<Rightarrow> fn_end \<times> 'db) \<Rightarrow> 'db \<Rightarrow> tx_end \<times> 'db" where
  "InTx env fn db =
    (case pg_begin env of Some e \<Rightarrow> (TxErr (Errorf ''begin: '' e ''''), db)
     | None \<Rightarrow>
       (case fn db of
          (FnPanic p, _) \<Rightarrow> (TxPanic p, db)
        | (FnErr e, _) \<Rightarrow> (TxErr e, db)
        | (FnOk, db') \<Rightarrow>
           (case pg_commit env of None \<Rightarrow> (TxOk, db') | Some e \<Rightarrow> (TxErr e, if pg_landed env then db' else db))))"

section \<open>Lemmas\<close>

lemma wf_user: "wf_url (u\<lparr>u_User := x\<rparr>) = wf_url u"
  by (simp add: wf_url_def)

lemma inject_prints:
  assumes "Parse raw = Inr u" "u_User u = Some ui" "pw \<noteq> []"
  shows "injectPassword raw pw = Inr (url_string (u\<lparr>u_User := Some (UserPassword (ui_username ui) pw)\<rparr>))"
  using assms by (simp add: injectPassword_def)

text \<open>The reading of a string literal after its opening quote, with standard-conforming strings: the value and the rest.\<close>

fun sql_literal :: "string \<Rightarrow> (string \<times> string) option" where
  "sql_literal [] = None"
| "sql_literal (c # cs) =
    (if c = CHR 0x27 then
       (case cs of d # r \<Rightarrow> if d = CHR 0x27 then map_option (\<lambda>(v, t). (CHR 0x27 # v, t)) (sql_literal r) else Some ([], cs)
        | [] \<Rightarrow> Some ([], []))
     else map_option (\<lambda>(v, t). (c # v, t)) (sql_literal cs))"

lemma double_quotes: "replace_all (c # cs) [CHR 0x27] [CHR 0x27, CHR 0x27] =
    (if c = CHR 0x27 then [CHR 0x27, CHR 0x27] else [c]) @ replace_all cs [CHR 0x27] [CHR 0x27, CHR 0x27]"
  by (simp add: has_prefix_def)

lemma sql_literal_doubled: "sql_literal (replace_all pw [CHR 0x27] [CHR 0x27, CHR 0x27] @ [CHR 0x27]) = Some (pw, [])"
proof (induction pw)
  case (Cons c pw)
  then show ?case unfolding double_quotes by simp
qed simp

section \<open>Properties\<close>

text \<open>
  (C38) A separately supplied password reaches the database and nothing else of
  the URL changes: for a URL that parses, has a user and no bracketed host,
  \<^verbatim>\<open>injectPassword\<close> succeeds with any non-empty password, whatever bytes it
  has, and its result parses again, to the same scheme, user, host, path,
  query and fragment and exactly that password, which is also what
  \<^verbatim>\<open>urlPassword\<close> finds in it.
\<close>
theorem inject_password_roundtrip:
  assumes "Parse raw = Inr u" "u_User u = Some ui" "CHR ''['' \<notin> set (u_Host u)" "pw \<noteq> []"
  shows "\<exists>raw' u'. injectPassword raw pw = Inr raw' \<and> Parse raw' = Inr u'
    \<and> same_parts u' (u\<lparr>u_User := Some (UserPassword (ui_username ui) pw)\<rparr>) \<and> urlPassword raw' = pw"
proof -
  let ?u = "u\<lparr>u_User := Some (UserPassword (ui_username ui) pw)\<rparr>"
  have "wf_url ?u" using Parse_wf[OF assms(1) _ assms(3)] assms(2) by (simp add: wf_user)
  moreover have "u_User ?u = Some (UserPassword (ui_username ui) pw)" by simp
  ultimately obtain u' where u': "Parse (url_string ?u) = Inr u'" "same_parts u' ?u" using print_parse assms(4) by blast
  then have "urlPassword (url_string ?u) = pw" by (simp add: urlPassword_def same_parts_def UserPassword_def)
  with u' inject_prints[OF assms(1,2,4)] show ?thesis by blast
qed

lemma sample_url: "Parse ''postgres://gw@db:5432/app?sslmode=disable'' = Inr (zero_URL\<lparr> u_Scheme := ''postgres'',
    u_User := Some (url_User ''gw''), u_Host := ''db:5432'', u_Path := ''/app'', u_RawQuery := ''sslmode=disable'' \<rparr>)"
  by code_simp

theorem inject_password_roundtrip_witness:
  "\<exists>raw' u'. injectPassword ''postgres://gw@db:5432/app?sslmode=disable'' ''p@ss/w:rd'' = Inr raw' \<and> Parse raw' = Inr u'
    \<and> urlPassword raw' = ''p@ss/w:rd''"
  using inject_password_roundtrip[OF sample_url, of "url_User ''gw''" "''p@ss/w:rd''"] by auto

text \<open>The statement that sets a role's password names that role and that password, whatever bytes the password has.\<close>

lemma role_password_literal:
  assumes "SetRolePassword connect run url opw role pw = (err, Some stmt)"
  shows "db_isSafeIdent role"
    "\<exists>body. stmt = ''ALTER ROLE '' @ go_quote role @ '' WITH PASSWORD '' @ CHR 0x27 # body \<and> sql_literal body = Some (pw, [])"
proof -
  have "stmt = password_statement role pw \<and> db_isSafeIdent role"
    using assms by (auto simp: SetRolePassword_def Let_def split: if_splits sum.splits option.splits)
  then show "db_isSafeIdent role"
    "\<exists>body. stmt = ''ALTER ROLE '' @ go_quote role @ '' WITH PASSWORD '' @ CHR 0x27 # body \<and> sql_literal body = Some (pw, [])"
    by (auto simp: password_statement_def sql_literal_doubled)
qed

text \<open>A URL that does not parse is quoted in full, password included: then there is no password to look for.\<close>

lemma malformed_url_leaks:
  "fst (RunMigrations mg dir ''postgres://gw:hunter2@db:port/app'' [] m)
    = Some (Errorf ''rewrite scheme: '' (Opaque (''parse '' @ go_quote ''postgres://gw:hunter2@db:port/app''
        @ '': invalid port '' @ go_quote '':port'' @ '' after host'')) [])"
proof -
  have "Parse ''postgres://gw:hunter2@db:port/app'' = Inl (Opaque (''parse '' @ go_quote ''postgres://gw:hunter2@db:port/app''
        @ '': invalid port '' @ go_quote '':port'' @ '' after host''))" by code_simp
  then show ?thesis
    by (simp add: RunMigrations_def open_migrator_def injectPassword_def rewriteSchemeForMigrate_def urlPassword_def redactSecrets_def)
qed

end
