(* ===== verification/Spec2Isabelle.thy ===== *)
theory Spec2Isabelle
  imports DirectDoer PyQueue Db
begin

text \<open>
  Verification of Agentic-Coop-DB, an HTTP gateway that lets agents run SQL
  on a shared Postgres.
\<close>

end
